(* ===== verification/Prelude.thy ===== *)
theory Prelude
  imports Main "HOL-Library.Sublist" "HOL-Library.Multiset" "HOL-Library.Word"
begin

text \<open>
  Shared vocabulary of the development: Go strings as byte strings with the functions of
  package \<open>strings\<close> the server uses, UTF-8 decoding, signed 64-bit wrap-around, decimal
  rendering, and the state-and-error computations in which the database and Redis
  operations are written.  Nothing here is specific to one component.
\<close>

named_theorems go_simps
named_theorems trim_simps

section \<open>Go integers\<close>

text \<open>
  Go's \<open>int\<close> and \<open>int64\<close> are 64-bit two's complement values.  A value is modelled as an
  \<open>int\<close>, and the operations whose result can leave the range are wrapped by \<open>wrap64\<close>.
\<close>

definition wrap64 :: "int \<Rightarrow> int" where
  "wrap64 x = (x + 2 ^ 63) mod 2 ^ 64 - 2 ^ 63"

definition in_int64 :: "int \<Rightarrow> bool" where
  "in_int64 x \<longleftrightarrow> - (2 ^ 63) \<le> x \<and> x < 2 ^ 63"

lemma wrap64_id [simp, go_simps]: "in_int64 x \<Longrightarrow> wrap64 x = x"
  by (simp add: wrap64_def in_int64_def)

lemma wrap64_in_int64 [simp]: "in_int64 (wrap64 x)"
proof -
  have "0 \<le> (x + 2 ^ 63) mod 2 ^ 64" and "(x + 2 ^ 63) mod 2 ^ 64 < (2::int) ^ 64"
    by simp_all
  then show ?thesis unfolding wrap64_def in_int64_def by simp
qed

definition add64 :: "int \<Rightarrow> int \<Rightarrow> int" where
  "add64 a b = wrap64 (a + b)"

definition mul64 :: "int \<Rightarrow> int \<Rightarrow> int" where
  "mul64 a b = wrap64 (a * b)"

lemma add64_exact [go_simps]: "in_int64 (a + b) \<Longrightarrow> add64 a b = a + b"
  by (simp add: add64_def)

lemma mul64_exact [go_simps]: "in_int64 (a * b) \<Longrightarrow> mul64 a b = a * b"
  by (simp add: mul64_def)

lemma in_int64_mono: "in_int64 b \<Longrightarrow> 0 \<le> a \<Longrightarrow> a \<le> b \<Longrightarrow> in_int64 a"
  by (simp add: in_int64_def)

section \<open>Lists\<close>

lemma find_append:
  "find P (xs @ ys) = (case find P xs of None \<Rightarrow> find P ys | Some x \<Rightarrow> Some x)"
  by (induction xs) auto

section \<open>Strings as bytes\<close>

text \<open>
  A Go string is a sequence of bytes; \<open>string\<close> is a list of 8-bit characters, so \<open>length\<close>
  is Go's \<open>len\<close>.  \<open>strings.HasPrefix s p\<close> is \<open>prefix p s\<close>, \<open>strings.HasSuffix s p\<close> is
  \<open>suffix p s\<close>.
\<close>

fun str_index :: "string \<Rightarrow> string \<Rightarrow> nat option" where
  "str_index [] sub = (if sub = [] then Some 0 else None)"
| "str_index (c # s) sub =
     (if prefix sub (c # s) then Some 0 else map_option Suc (str_index s sub))"

definition str_contains :: "string \<Rightarrow> string \<Rightarrow> bool" where
  "str_contains s sub \<longleftrightarrow> str_index s sub \<noteq> None"

fun split_char :: "char \<Rightarrow> string \<Rightarrow> string list" where
  "split_char d [] = [[]]"
| "split_char d (c # s) =
     (if c = d then [] # split_char d s
      else (case split_char d s of [] \<Rightarrow> [[c]] | p # ps \<Rightarrow> (c # p) # ps))"

fun str_join :: "string \<Rightarrow> string list \<Rightarrow> string" where
  "str_join sep [] = []"
| "str_join sep [s] = s"
| "str_join sep (s # t # ss) = s @ sep @ str_join sep (t # ss)"

fun str_less :: "string \<Rightarrow> string \<Rightarrow> bool" where
  "str_less _ [] = False"
| "str_less [] (_ # _) = True"
| "str_less (c # s) (d # t) =
     (of_char c < (of_char d :: nat) \<or> (c = d \<and> str_less s t))"

lemma str_index_Some:
  "str_index s sub = Some i \<Longrightarrow> i + length sub \<le> length s \<and> prefix sub (drop i s)"
proof (induction s arbitrary: i)
  case Nil
  then show ?case by (simp split: if_splits)
next
  case (Cons c s)
  show ?case
  proof (cases "prefix sub (c # s)")
    case True
    with Cons.prems have "i = 0" by simp
    with True show ?thesis using prefix_length_le [OF True] by simp
  next
    case False
    with Cons.prems obtain j where "str_index s sub = Some j" and "i = Suc j"
      by (auto split: if_splits)
    with Cons.IH [of j] show ?thesis by simp
  qed
qed

lemma str_index_None: "str_index s sub = None \<Longrightarrow> \<not> prefix sub (drop k s)"
proof (induction s arbitrary: k)
  case Nil
  then show ?case by (auto split: if_splits)
next
  case (Cons c s)
  then show ?case by (cases k) (auto split: if_splits)
qed

lemma str_index_least: "str_index s sub = Some i \<Longrightarrow> k < i \<Longrightarrow> \<not> prefix sub (drop k s)"
proof (induction s arbitrary: i k)
  case Nil
  then show ?case by (simp split: if_splits)
next
  case (Cons c s)
  then show ?case by (cases k) (auto split: if_splits)
qed

lemma split_char_ne [simp]: "split_char d s \<noteq> []"
  by (induction s) (auto split: list.splits)

lemma split_char_no_sep: "p \<in> set (split_char d s) \<Longrightarrow> d \<notin> set p"
  by (induction s arbitrary: p) (auto split: list.splits if_splits)

lemma split_char_single [simp]: "d \<notin> set s \<Longrightarrow> split_char d s = [s]"
  by (induction s) auto

lemma split_char_append: "d \<notin> set a \<Longrightarrow> split_char d (a @ d # b) = a # split_char d b"
  by (induction a) auto

lemma length_split_char: "length (split_char d s) = Suc (count_list s d)"
  by (induction s) (auto split: list.splits)

lemma str_less_irrefl [simp]: "\<not> str_less s s"
  by (induction s) auto

lemma str_less_linear: "s \<noteq> t \<Longrightarrow> str_less s t \<or> str_less t s"
proof (induction s t rule: str_less.induct)
  case (3 c s d t)
  have "of_char c = (of_char d :: nat) \<Longrightarrow> c = d" by simp
  then have "c = d \<or> of_char c < (of_char d :: nat) \<or> of_char d < (of_char c :: nat)"
    by linarith
  with 3 show ?case by auto
next
  case (1 s)
  then show ?case by (cases s) auto
qed auto

subsection \<open>TrimSpace\<close>

text \<open>
  \<open>strings.TrimSpace\<close> removes leading and trailing Unicode white space.  The list holds
  the UTF-8 encodings of the code points \<open>unicode.IsSpace\<close> accepts: tab to carriage
  return, space, U+0085, U+00A0, U+1680, U+2000 to U+200A, U+2028, U+2029, U+202F,
  U+205F and U+3000.
\<close>

definition space_runes :: "string list" where
  "space_runes =
     [[CHR 0x09], [CHR 0x0A], [CHR 0x0B], [CHR 0x0C], [CHR 0x0D], [CHR 0x20],
      [CHR 0xC2, CHR 0x85], [CHR 0xC2, CHR 0xA0], [CHR 0xE1, CHR 0x9A, CHR 0x80],
      [CHR 0xE2, CHR 0x80, CHR 0x80], [CHR 0xE2, CHR 0x80, CHR 0x81],
      [CHR 0xE2, CHR 0x80, CHR 0x82], [CHR 0xE2, CHR 0x80, CHR 0x83],
      [CHR 0xE2, CHR 0x80, CHR 0x84], [CHR 0xE2, CHR 0x80, CHR 0x85],
      [CHR 0xE2, CHR 0x80, CHR 0x86], [CHR 0xE2, CHR 0x80, CHR 0x87],
      [CHR 0xE2, CHR 0x80, CHR 0x88], [CHR 0xE2, CHR 0x80, CHR 0x89],
      [CHR 0xE2, CHR 0x80, CHR 0x8A], [CHR 0xE2, CHR 0x80, CHR 0xA8],
      [CHR 0xE2, CHR 0x80, CHR 0xA9], [CHR 0xE2, CHR 0x80, CHR 0xAF],
      [CHR 0xE2, CHR 0x81, CHR 0x9F], [CHR 0xE3, CHR 0x80, CHR 0x80]]"

function strip_prefixes :: "string list \<Rightarrow> string \<Rightarrow> string" where
  "strip_prefixes ws s =
     (case find (\<lambda>w. w \<noteq> [] \<and> prefix w s) ws of
        None \<Rightarrow> s
      | Some w \<Rightarrow> strip_prefixes ws (drop (length w) s))"
  by pat_completeness auto
termination
  by (relation "measure (\<lambda>(ws, s). length s)") (auto simp: find_Some_iff prefix_def)

declare strip_prefixes.simps [simp del]

definition trim_left :: "string \<Rightarrow> string" where
  "trim_left s = strip_prefixes space_runes s"

definition trim_right :: "string \<Rightarrow> string" where
  "trim_right s = rev (strip_prefixes (map rev space_runes) (rev s))"

definition trim_space :: "string \<Rightarrow> string" where
  "trim_space s = trim_right (trim_left s)"

lemma strip_prefixes_suffix: "suffix (strip_prefixes ws s) s"
proof (induction ws s rule: strip_prefixes.induct)
  case (1 ws s)
  show ?case
  proof (cases "find (\<lambda>w. w \<noteq> [] \<and> prefix w s) ws")
    case None
    then show ?thesis by (simp add: strip_prefixes.simps [of ws s])
  next
    case (Some w)
    then have "suffix (strip_prefixes ws (drop (length w) s)) (drop (length w) s)"
      using 1 by simp
    with Some show ?thesis
      by (simp add: strip_prefixes.simps [of ws s]) (meson suffix_drop suffix_order.trans)
  qed
qed

lemma strip_prefixes_none:
  "w \<in> set ws \<Longrightarrow> w \<noteq> [] \<Longrightarrow> \<not> prefix w (strip_prefixes ws s)"
proof (induction ws s rule: strip_prefixes.induct)
  case (1 ws s)
  show ?case
  proof (cases "find (\<lambda>w. w \<noteq> [] \<and> prefix w s) ws")
    case None
    with 1 show ?thesis by (simp add: strip_prefixes.simps [of ws s]) (auto simp: find_None_iff)
  next
    case (Some v)
    with 1 show ?thesis by (simp add: strip_prefixes.simps [of ws s])
  qed
qed

lemma strip_prefixes_id:
  "(\<And>w. w \<in> set ws \<Longrightarrow> w \<noteq> [] \<Longrightarrow> \<not> prefix w s) \<Longrightarrow> strip_prefixes ws s = s"
proof -
  assume "\<And>w. w \<in> set ws \<Longrightarrow> w \<noteq> [] \<Longrightarrow> \<not> prefix w s"
  then have "find (\<lambda>w. w \<noteq> [] \<and> prefix w s) ws = None"
    by (auto simp: find_None_iff)
  then show ?thesis by (simp add: strip_prefixes.simps [of ws s])
qed

lemma strip_prefixes_Nil [simp]: "strip_prefixes ws [] = []"
  by (rule strip_prefixes_id) auto

lemma length_trim_space: "length (trim_space s) \<le> length s"
proof -
  have "length (strip_prefixes ws t) \<le> length t" for ws t
    using strip_prefixes_suffix suffix_length_le by blast
  then show ?thesis
    unfolding trim_space_def trim_right_def trim_left_def
    by (metis length_rev order_trans)
qed

lemma trim_left_prefix_stable: "prefix t (trim_left s) \<Longrightarrow> trim_left t = t"
  unfolding trim_left_def
  by (rule strip_prefixes_id) (meson prefix_order.trans strip_prefixes_none)

lemma trim_right_prefix: "prefix (trim_right s) s"
  unfolding trim_right_def
  using strip_prefixes_suffix [of "map rev space_runes" "rev s"]
  by (simp add: suffix_to_prefix)

lemma set_trim_space: "set (trim_space s) \<subseteq> set s"
proof -
  have "set (strip_prefixes ws t) \<subseteq> set t" for ws t
    by (rule set_mono_suffix) (rule strip_prefixes_suffix)
  then show ?thesis
    unfolding trim_space_def trim_right_def trim_left_def by (metis set_rev order_trans)
qed

lemma trim_space_idem [simp, trim_simps]: "trim_space (trim_space s) = trim_space s"
proof -
  have "trim_left (trim_space s) = trim_space s"
    unfolding trim_space_def by (rule trim_left_prefix_stable) (rule trim_right_prefix)
  moreover have "trim_right (trim_right u) = trim_right u" for u
  proof -
    have "strip_prefixes ws (strip_prefixes ws t) = strip_prefixes ws t" for ws t
      by (rule strip_prefixes_id) (rule strip_prefixes_none)
    then show ?thesis by (simp add: trim_right_def)
  qed
  ultimately show ?thesis by (simp add: trim_space_def)
qed

lemma trim_space_Nil [simp, trim_simps]: "trim_space [] = []"
  by (simp add: trim_space_def trim_right_def trim_left_def)

text \<open>White space is not graphic, so a string that starts and ends with a graphic character is
  trimmed already.\<close>

definition graphic :: "char \<Rightarrow> bool" where
  "graphic c \<longleftrightarrow> 33 \<le> (of_char c :: nat) \<and> (of_char c :: nat) \<le> 126"

lemma space_runes_graphic:
  "r \<in> set space_runes \<Longrightarrow> \<not> graphic (hd r) \<and> \<not> graphic (last r) \<and> r \<noteq> []"
proof -
  have "list_all (\<lambda>r. \<not> graphic (hd r) \<and> \<not> graphic (last r) \<and> r \<noteq> []) space_runes"
    by code_simp
  then show "r \<in> set space_runes \<Longrightarrow> \<not> graphic (hd r) \<and> \<not> graphic (last r) \<and> r \<noteq> []"
    by (simp add: list_all_iff)
qed

lemma trim_left_graphic: "graphic (hd s) \<Longrightarrow> trim_left s = s"
proof -
  assume "graphic (hd s)"
  then have "\<not> prefix r s" if "\<not> graphic (hd r)" "r \<noteq> []" for r
    using that by (cases r; cases s) auto
  then show ?thesis
    unfolding trim_left_def by (intro strip_prefixes_id) (metis space_runes_graphic)
qed

lemma trim_right_graphic: "graphic (last s) \<Longrightarrow> trim_right s = s"
proof (cases "s = []")
  case False
  assume "graphic (last s)"
  with False have h: "graphic (hd (rev s))" by (simp add: hd_rev)
  have "strip_prefixes (map rev space_runes) (rev s) = rev s"
  proof (rule strip_prefixes_id)
    fix r assume "r \<in> set (map rev space_runes)"
    then obtain q where "q \<in> set space_runes" "r = rev q" by auto
    then have "\<not> graphic (hd r)" "r \<noteq> []"
      using space_runes_graphic [of q] by (auto simp: hd_rev)
    with h show "\<not> prefix r (rev s)" by (cases r; cases "rev s") auto
  qed
  then show ?thesis by (simp add: trim_right_def)
qed (simp add: trim_right_def)

lemma trim_space_ends: "graphic (hd s) \<Longrightarrow> graphic (last s) \<Longrightarrow> trim_space s = s"
  by (simp add: trim_space_def trim_left_graphic trim_right_graphic)

lemma trim_space_graphic: "list_all graphic s \<Longrightarrow> trim_space s = s"
  by (cases "s = []") (auto simp: list_all_iff intro: trim_space_ends)

lemma trim_space_blank [simp]: "trim_space (CHR 0x20 # s) = trim_space s"
proof -
  have "find (\<lambda>w. w \<noteq> [] \<and> prefix w (CHR 0x20 # s)) space_runes = Some [CHR 0x20]"
    by (simp add: space_runes_def)
  then have "trim_left (CHR 0x20 # s) = trim_left s"
    unfolding trim_left_def by (subst strip_prefixes.simps) simp
  then show ?thesis by (simp add: trim_space_def)
qed

lemma trimmed_last: "trim_space s = s \<Longrightarrow> s \<noteq> [] \<Longrightarrow> [last s] \<notin> set space_runes"
proof
  assume t: "trim_space s = s" and ne: "s \<noteq> []" and l: "[last s] \<in> set space_runes"
  have "strip_prefixes ws (strip_prefixes ws u) = strip_prefixes ws u" for ws u
    by (rule strip_prefixes_id) (rule strip_prefixes_none)
  then have "trim_right (trim_space s) = trim_space s" by (simp add: trim_space_def trim_right_def)
  with t have "strip_prefixes (map rev space_runes) (rev s) = rev s"
    by (simp add: trim_right_def) (metis rev_rev_ident)
  moreover have "[last s] \<in> set (map rev space_runes)"
    using imageI [OF l, of rev] by simp
  ultimately have "\<not> prefix [last s] (rev s)"
    using strip_prefixes_none [of "[last s]" "map rev space_runes" "rev s"] by simp
  with ne show False by (cases s rule: rev_cases) auto
qed

subsection \<open>ASCII case\<close>

text \<open>
  The server lower-cases strings only to compare them with, or search them for, ASCII
  words.  Two code points outside ASCII lower-case to an ASCII letter (U+0130 to \<open>i\<close> and
  U+212A to \<open>k\<close>); every other one keeps a non-ASCII encoding.  \<open>lower_view\<close> therefore
  agrees with \<open>strings.ToLower\<close> for such a test.
\<close>

definition lower_char :: "char \<Rightarrow> char" where
  "lower_char c =
     (let n = (of_char c :: nat) in if 65 \<le> n \<and> n \<le> 90 then char_of (n + 32) else c)"

fun lower_view :: "string \<Rightarrow> string" where
  "lower_view (a # b # c # s) =
     (if a = CHR 0xE2 \<and> b = CHR 0x84 \<and> c = CHR 0xAA then CHR ''k'' # lower_view s
      else if a = CHR 0xC4 \<and> b = CHR 0xB0 then CHR ''i'' # lower_view (c # s)
      else lower_char a # lower_view (b # c # s))"
| "lower_view [a, b] =
     (if a = CHR 0xC4 \<and> b = CHR 0xB0 then ''i'' else [lower_char a, lower_char b])"
| "lower_view [a] = [lower_char a]"
| "lower_view [] = []"

section \<open>Decimal rendering\<close>

fun dec :: "nat \<Rightarrow> string" where
  "dec n = (if n < 10 then [char_of (48 + n)] else dec (n div 10) @ [char_of (48 + n mod 10)])"

declare dec.simps [simp del]

definition undec :: "string \<Rightarrow> nat" where
  "undec s = foldl (\<lambda>a c. 10 * a + (of_char c - 48)) 0 s"

lemma of_char_digit: "d < 10 \<Longrightarrow> of_char (char_of (48 + d) :: char) = 48 + (d::nat)"
  by (simp add: of_char_of)

lemma undec_dec [simp]: "undec (dec n) = n"
proof (induction n rule: dec.induct)
  case (1 n)
  show ?case
  proof (cases "n < 10")
    case True
    then show ?thesis by (simp add: dec.simps [of n] undec_def of_char_digit)
  next
    case False
    with 1 have "undec (dec (n div 10)) = n div 10" by simp
    with False show ?thesis
      by (simp add: dec.simps [of n] undec_def of_char_digit)
  qed
qed

lemma dec_inj [simp]: "dec m = dec n \<longleftrightarrow> m = n"
  by (metis undec_dec)

definition dec_int :: "int \<Rightarrow> string" where
  "dec_int i = (if i < 0 then ''-'' @ dec (nat (- i)) else dec (nat i))"

definition hex_digit :: "nat \<Rightarrow> char" where
  "hex_digit n = (if n < 10 then char_of (48 + n) else char_of (87 + n))"

text \<open>\<open>hex.EncodeToString\<close>.\<close>

definition hex_encode :: "nat list \<Rightarrow> string" where
  "hex_encode bs = concat (map (\<lambda>b. [hex_digit (b div 16 mod 16), hex_digit (b mod 16)]) bs)"

section \<open>UTF-8\<close>

definition cont_byte :: "nat \<Rightarrow> bool" where
  "cont_byte b \<longleftrightarrow> 0x80 \<le> b \<and> b \<le> 0xBF"

text \<open>\<open>decode_rune\<close> is Go's \<open>utf8.DecodeRune\<close> on a non-empty string: the code point and
  its width, or U+FFFD with width 1 for an invalid encoding.\<close>

definition decode_rune :: "string \<Rightarrow> nat \<times> nat" where
  "decode_rune s =
     (let b = (\<lambda>i. if i < length s then of_char (s ! i) else (0::nat)); b0 = b 0 in
      if b0 < 0x80 then (b0, 1)
      else if 0xC2 \<le> b0 \<and> b0 \<le> 0xDF \<and> cont_byte (b 1) then
        ((b0 - 0xC0) * 64 + (b 1 - 0x80), 2)
      else if 0xE0 \<le> b0 \<and> b0 \<le> 0xEF \<and> cont_byte (b 1) \<and> cont_byte (b 2)
          \<and> (b0 = 0xE0 \<longrightarrow> 0xA0 \<le> b 1) \<and> (b0 = 0xED \<longrightarrow> b 1 \<le> 0x9F) then
        ((b0 - 0xE0) * 4096 + (b 1 - 0x80) * 64 + (b 2 - 0x80), 3)
      else if 0xF0 \<le> b0 \<and> b0 \<le> 0xF4 \<and> cont_byte (b 1) \<and> cont_byte (b 2) \<and> cont_byte (b 3)
          \<and> (b0 = 0xF0 \<longrightarrow> 0x90 \<le> b 1) \<and> (b0 = 0xF4 \<longrightarrow> b 1 \<le> 0x8F) then
        ((b0 - 0xF0) * 262144 + (b 1 - 0x80) * 4096 + (b 2 - 0x80) * 64 + (b 3 - 0x80), 4)
      else (0xFFFD, 1))"

definition encode_rune :: "nat \<Rightarrow> string" where
  "encode_rune r =
     (if r < 0x80 then [char_of r]
      else if r < 0x800 then [char_of (0xC0 + r div 64), char_of (0x80 + r mod 64)]
      else if 0xD800 \<le> r \<and> r \<le> 0xDFFF \<or> 0x10FFFF < r then [CHR 0xEF, CHR 0xBF, CHR 0xBD]
      else if r < 0x10000 then
        [char_of (0xE0 + r div 4096), char_of (0x80 + r div 64 mod 64), char_of (0x80 + r mod 64)]
      else
        [char_of (0xF0 + r div 262144), char_of (0x80 + r div 4096 mod 64),
         char_of (0x80 + r div 64 mod 64), char_of (0x80 + r mod 64)])"

lemma if_intro: "P x \<Longrightarrow> P y \<Longrightarrow> P (if b then x else y)"
  by simp

lemma decode_rune_width: "1 \<le> snd (decode_rune s) \<and> snd (decode_rune s) \<le> 4"
  unfolding decode_rune_def Let_def
  by (intro if_intro [where P = "\<lambda>p. 1 \<le> snd p \<and> snd p \<le> (4::nat)"];
      simp only: snd_conv; simp)

function runes :: "string \<Rightarrow> nat list" where
  "runes s = (if s = [] then [] else fst (decode_rune s) # runes (drop (snd (decode_rune s)) s))"
  by pat_completeness auto
termination
proof (relation "measure length")
  fix s :: string
  assume "s \<noteq> []"
  then show "(drop (snd (decode_rune s)) s, s) \<in> measure length"
    using decode_rune_width [of s] by simp
qed auto

declare runes.simps [simp del]

definition unrunes :: "nat list \<Rightarrow> string" where
  "unrunes rs = concat (map encode_rune rs)"

lemma length_encode_rune: "length (encode_rune r) \<le> 4"
  by (simp add: encode_rune_def)

lemma length_unrunes: "length (unrunes rs) \<le> 4 * length rs"
proof (induction rs)
  case Nil
  then show ?case by (simp add: unrunes_def)
next
  case (Cons r rs)
  then show ?case using length_encode_rune [of r] by (simp add: unrunes_def)
qed

lemma length_runes: "length s \<le> 4 * length (runes s)"
proof (induction s rule: runes.induct)
  case (1 s)
  show ?case
  proof (cases "s = []")
    case False
    with 1 have "length (drop (snd (decode_rune s)) s)
        \<le> 4 * length (runes (drop (snd (decode_rune s)) s))"
      by simp
    with False show ?thesis
      using decode_rune_width [of s] by (subst runes.simps) auto
  qed simp
qed

section \<open>Computations with state and errors\<close>

text \<open>
  A Go function that reads and writes the stores and may return an error is a function
  from a world to a result and the world it leaves behind: \<open>Inl\<close> is the non-nil
  \<open>error\<close>.
\<close>

type_synonym ('w, 'e, 'a) comp = "'w \<Rightarrow> ('e + 'a) \<times> 'w"

definition retM :: "'a \<Rightarrow> ('w, 'e, 'a) comp" where
  "retM x w = (Inr x, w)"

definition failM :: "'e \<Rightarrow> ('w, 'e, 'a) comp" where
  "failM e w = (Inl e, w)"

definition bindM :: "('w, 'e, 'a) comp \<Rightarrow> ('a \<Rightarrow> ('w, 'e, 'b) comp) \<Rightarrow> ('w, 'e, 'b) comp" where
  "bindM m f w = (case m w of (Inl e, w') \<Rightarrow> (Inl e, w') | (Inr x, w') \<Rightarrow> f x w')"

definition seqM :: "('w, 'e, 'a) comp \<Rightarrow> ('w, 'e, 'b) comp \<Rightarrow> ('w, 'e, 'b) comp" where
  "seqM m n = bindM m (\<lambda>_. n)"

definition guardM :: "bool \<Rightarrow> 'e \<Rightarrow> ('w, 'e, unit) comp" where
  "guardM b e = (if b then retM () else failM e)"

definition modifyM :: "('w \<Rightarrow> 'w) \<Rightarrow> ('w, 'e, unit) comp" where
  "modifyM f w = (Inr (), f w)"

lemma retM_apply [simp, go_simps]: "retM x w = (Inr x, w)"
  by (simp add: retM_def)

lemma failM_apply [simp, go_simps]: "failM e w = (Inl e, w)"
  by (simp add: failM_def)

lemma modifyM_apply [simp, go_simps]: "modifyM f w = (Inr (), f w)"
  by (simp add: modifyM_def)

lemma bindM_Inr: "m w = (Inr x, w') \<Longrightarrow> bindM m f w = f x w'"
  by (simp add: bindM_def)

lemma bindM_Inl: "m w = (Inl e, w') \<Longrightarrow> bindM m f w = (Inl e, w')"
  by (simp add: bindM_def)

lemma bindM_retM [simp, go_simps]: "bindM (retM x) f = f x"
  by (rule ext) (simp add: bindM_def)

lemma bindM_failM [simp, go_simps]: "bindM (failM e) f = failM e"
  by (rule ext) (simp add: bindM_def)

lemma bindM_assoc: "bindM (bindM m f) g = bindM m (\<lambda>x. bindM (f x) g)"
  by (rule ext) (simp add: bindM_def split: prod.splits sum.splits)

lemma bindM_InrE:
  assumes "bindM m f w = (Inr y, w')"
  obtains x v where "m w = (Inr x, v)" and "f x v = (Inr y, w')"
  using assms by (auto simp: bindM_def split: prod.splits sum.splits)

lemma bindM_InlE:
  assumes "bindM m f w = (Inl e, w')"
  obtains "m w = (Inl e, w')" | x v where "m w = (Inr x, v)" and "f x v = (Inl e, w')"
  using assms by (auto simp: bindM_def split: prod.splits sum.splits)

lemma guardM_True [simp, go_simps]: "guardM True e = retM ()"
  by (simp add: guardM_def)

lemma guardM_False [simp, go_simps]: "guardM False e = failM e"
  by (simp add: guardM_def)

end
