(* ===== verification/Expr.thy ===== *)
theory Expr
  imports Prelude
begin

text \<open>
  The routing-expression language of \<open>router/expr/expr.go\<close>: values and syntax trees,
  evaluation, the variables a program references, the lexer, the recursive-descent parser
  with its type checks, and \<open>Compile\<close>/\<open>Eval\<close>.  The grammar documented in the package
  comment is the inductive relation \<open>derives\<close>; the parser is proved equivalent to it.
\<close>

section \<open>Types, syntax trees and evaluation\<close>

datatype valType = TypeBool | TypeInt | TypeStr

definition valType_String :: "valType \<Rightarrow> string" where
  "valType_String vt =
     (case vt of TypeBool \<Rightarrow> ''boolean'' | TypeInt \<Rightarrow> ''number'' | TypeStr \<Rightarrow> ''string'')"

text \<open>A runtime value (Go's \<open>any\<close> holding a bool, an int or a string).\<close>

datatype gval = GBool bool | GInt int | GStr string

definition knownVars :: "string \<Rightarrow> bool" where
  "knownVars x \<longleftrightarrow> x \<in> set [''w'', ''t'', ''tokens'', ''group'', ''model'']"

definition numericVars :: "string \<Rightarrow> bool" where
  "numericVars x \<longleftrightarrow> x \<in> set [''w'', ''t'', ''tokens'']"

text \<open>\<open>Vars\<close>: a read of an absent key, or of a nil map, yields 0 or the empty string.\<close>

record vars =
  vars_Int :: "string \<Rightarrow> int option"
  vars_Str :: "string \<Rightarrow> string option"

datatype node =
    BoolLit bool
  | IntLit int
  | StrLit string
  | VarRef string valType
  | NotNode node
  | LogicNode string node node
  | CmpNode string node node bool

fun typ_of :: "node \<Rightarrow> valType" where
  "typ_of (BoolLit _) = TypeBool"
| "typ_of (IntLit _) = TypeInt"
| "typ_of (StrLit _) = TypeStr"
| "typ_of (VarRef _ vt) = vt"
| "typ_of (NotNode _) = TypeBool"
| "typ_of (LogicNode _ _ _) = TypeBool"
| "typ_of (CmpNode _ _ _ _) = TypeBool"

fun collectRefs :: "node \<Rightarrow> string set" where
  "collectRefs (BoolLit _) = {}"
| "collectRefs (IntLit _) = {}"
| "collectRefs (StrLit _) = {}"
| "collectRefs (VarRef x _) = {x}"
| "collectRefs (NotNode n) = collectRefs n"
| "collectRefs (LogicNode _ l r) = collectRefs l \<union> collectRefs r"
| "collectRefs (CmpNode _ l r _) = collectRefs l \<union> collectRefs r"

text \<open>The type assertion \<open>b, _ := v.(bool)\<close> and the helpers \<open>toInt\<close> and \<open>toStr\<close>.\<close>

definition toBool :: "gval \<Rightarrow> bool" where
  "toBool v = (case v of GBool b \<Rightarrow> b | _ \<Rightarrow> False)"

definition toInt :: "gval \<Rightarrow> int" where
  "toInt v = (case v of GInt i \<Rightarrow> i | _ \<Rightarrow> 0)"

definition toStr :: "gval \<Rightarrow> string" where
  "toStr v = (case v of GStr s \<Rightarrow> s | _ \<Rightarrow> [])"

definition cmp_int :: "string \<Rightarrow> int \<Rightarrow> int \<Rightarrow> bool" where
  "cmp_int op l r =
     (if op = ''=='' then l = r else if op = ''!='' then l \<noteq> r
      else if op = ''<'' then l < r else if op = ''<='' then l \<le> r
      else if op = ''>'' then r < l else if op = ''>='' then r \<le> l else False)"

definition cmp_str :: "string \<Rightarrow> string \<Rightarrow> string \<Rightarrow> bool" where
  "cmp_str op l r =
     (if op = ''=='' then l = r else if op = ''!='' then l \<noteq> r
      else if op = ''<'' then str_less l r else if op = ''<='' then l = r \<or> str_less l r
      else if op = ''>'' then str_less r l else if op = ''>='' then l = r \<or> str_less r l
      else False)"

fun eval :: "vars \<Rightarrow> node \<Rightarrow> gval" where
  "eval v (BoolLit b) = GBool b"
| "eval v (IntLit i) = GInt i"
| "eval v (StrLit s) = GStr s"
| "eval v (VarRef x vt) =
     (if vt = TypeInt then GInt (case vars_Int v x of Some i \<Rightarrow> i | None \<Rightarrow> 0)
      else GStr (case vars_Str v x of Some s \<Rightarrow> s | None \<Rightarrow> []))"
| "eval v (NotNode n) = GBool (\<not> toBool (eval v n))"
| "eval v (LogicNode op l r) =
     (if op = ''&&'' then
        (if \<not> toBool (eval v l) then GBool False else GBool (toBool (eval v r)))
      else (if toBool (eval v l) then GBool True else GBool (toBool (eval v r))))"
| "eval v (CmpNode op l r numeric) =
     (if numeric then GBool (cmp_int op (toInt (eval v l)) (toInt (eval v r)))
      else GBool (cmp_str op (toStr (eval v l)) (toStr (eval v r))))"

section \<open>Lexer\<close>

datatype tokKind = TkEOF | TkInt | TkStr | TkBool | TkIdent | TkOp | TkLParen | TkRParen

record token =
  tk_kind :: tokKind
  tk_text :: string
  tk_pos :: nat
  tk_ival :: int
  tk_bval :: bool

text \<open>One constructor per error message of the package.\<close>

datatype expr_error =
    UnterminatedString nat
  | DidYouMean char nat
  | UseEqEq char nat
  | UnexpectedChar char nat
  | UnexpectedTok string nat
  | UnknownVariable string nat
  | MissingRParen nat
  | NeedBoolOperands string
  | CannotCompareBool string
  | CannotCompare valType valType string
  | NotBoolean valType

definition mk_tok :: "tokKind \<Rightarrow> string \<Rightarrow> nat \<Rightarrow> token" where
  "mk_tok k s p = \<lparr>tk_kind = k, tk_text = s, tk_pos = p, tk_ival = 0, tk_bval = False\<rparr>"

definition is_digit :: "char \<Rightarrow> bool" where
  "is_digit c \<longleftrightarrow> 48 \<le> (of_char c :: nat) \<and> of_char c \<le> (57::nat)"

definition isIdentStart :: "char \<Rightarrow> bool" where
  "isIdentStart c \<longleftrightarrow> c = CHR ''_'' \<or> (97 \<le> (of_char c :: nat) \<and> of_char c \<le> (122::nat))
     \<or> (65 \<le> (of_char c :: nat) \<and> of_char c \<le> (90::nat))"

definition isIdentPart :: "char \<Rightarrow> bool" where
  "isIdentPart c \<longleftrightarrow> isIdentStart c \<or> is_digit c"

text \<open>
  The body of a string literal after its opening quote: the decoded text, the bytes
  consumed including the closing quote, and the rest; \<open>None\<close> when the literal is not
  closed.  A backslash takes the next byte literally.
\<close>

fun scan_str :: "char \<Rightarrow> string \<Rightarrow> (string \<times> nat \<times> string) option" where
  "scan_str q [] = None"
| "scan_str q (c # cs) =
     (if c = q then Some ([], 1, cs)
      else if c = CHR 0x5C then
        (case cs of
           [] \<Rightarrow> None
         | d # ds \<Rightarrow> map_option (\<lambda>(t, n, r). (d # t, n + 2, r)) (scan_str q ds))
      else map_option (\<lambda>(t, n, r). (c # t, n + 1, r)) (scan_str q cs))"

text \<open>\<open>n, _ := strconv.Atoi(digits)\<close>: an out-of-range literal yields the largest int.\<close>

definition atoi_digits :: "string \<Rightarrow> int" where
  "atoi_digits ds = min (int (undec ds)) (2 ^ 63 - 1)"

definition word_tok :: "string \<Rightarrow> nat \<Rightarrow> token" where
  "word_tok w i =
     (if w = ''true'' then (mk_tok TkBool w i)\<lparr>tk_bval := True\<rparr>
      else if w = ''false'' then (mk_tok TkBool w i)\<lparr>tk_bval := False\<rparr>
      else mk_tok TkIdent w i)"

lemma scan_str_length: "scan_str q s = Some (t, n, r) \<Longrightarrow> length r < length s"
proof (induction q s arbitrary: t n r rule: scan_str.induct)
  case (2 q c cs)
  show ?case
  proof (cases cs)
    case Nil
    with "2.prems" show ?thesis by (auto split: if_splits)
  next
    case (Cons d ds)
    with 2 show ?thesis by (fastforce split: if_splits)
  qed
qed simp

text \<open>
  One iteration of the lexer's loop at index \<open>i\<close>, on byte \<open>c\<close> with \<open>cs\<close> after it: the
  token appended (none for white space), the bytes consumed and the rest of the source.
\<close>

definition lex1 :: "nat \<Rightarrow> char \<Rightarrow> string \<Rightarrow> expr_error + (token list \<times> nat \<times> string)" where
  "lex1 i c cs =
     (if c \<in> {CHR '' '', CHR 0x09, CHR 0x0A, CHR 0x0D} then Inr ([], 1, cs)
      else if c = CHR ''('' then Inr ([mk_tok TkLParen ''('' i], 1, cs)
      else if c = CHR '')'' then Inr ([mk_tok TkRParen '')'' i], 1, cs)
      else if c = CHR 0x22 \<or> c = CHR 0x27 then
        (case scan_str c cs of
           None \<Rightarrow> Inl (UnterminatedString i)
         | Some (t, n, r) \<Rightarrow> Inr ([mk_tok TkStr t i], 1 + n, r))
      else if c = CHR ''&'' \<or> c = CHR ''|'' then
        (if cs \<noteq> [] \<and> hd cs = c then Inr ([mk_tok TkOp [c, c] i], 2, tl cs)
         else Inl (DidYouMean c i))
      else if c = CHR ''='' \<or> c = CHR ''!'' \<or> c = CHR ''<'' \<or> c = CHR ''>'' then
        (if cs \<noteq> [] \<and> hd cs = CHR ''='' then Inr ([mk_tok TkOp [c, CHR ''=''] i], 2, tl cs)
         else if c = CHR ''!'' then Inr ([mk_tok TkOp ''!'' i], 1, cs)
         else if c = CHR ''<'' \<or> c = CHR ''>'' then Inr ([mk_tok TkOp [c] i], 1, cs)
         else Inl (UseEqEq c i))
      else if is_digit c then
        (let ds = c # takeWhile is_digit cs in
         Inr ([(mk_tok TkInt ds i)\<lparr>tk_ival := atoi_digits ds\<rparr>], length ds,
              dropWhile is_digit cs))
      else if isIdentStart c then
        (let w = c # takeWhile isIdentPart cs in
         Inr ([word_tok w i], length w, dropWhile isIdentPart cs))
      else Inl (UnexpectedChar c i))"

definition rest_le :: "string \<Rightarrow> expr_error + (token list \<times> nat \<times> string) \<Rightarrow> bool" where
  "rest_le cs x = (case x of Inl _ \<Rightarrow> True | Inr (_, _, r) \<Rightarrow> length r \<le> length cs)"

lemma rest_le_scan:
  "rest_le cs (case scan_str c cs of
      None \<Rightarrow> Inl e | Some (t, n, r) \<Rightarrow> Inr ([mk_tok TkStr t i], 1 + n, r))"
  using scan_str_length [of c cs]
  by (force simp: rest_le_def split: option.splits prod.splits)

lemma lex1_length:
  assumes "lex1 i c cs = Inr (ts, n, r)"
  shows "length r \<le> length cs"
proof -
  have "rest_le cs (lex1 i c cs)"
    unfolding lex1_def Let_def
    by (intro if_intro [where P = "rest_le cs"] rest_le_scan;
        simp only: rest_le_def sum.case prod.case; simp add: length_dropWhile_le)
  with assms show ?thesis by (simp add: rest_le_def)
qed

text \<open>
  \<open>lex_from i s\<close> lexes the suffix \<open>s\<close> of the source, whose first byte has index \<open>i\<close>.
  The EOF token the code appends is the empty token list of the parser (see \<open>cur\<close>).
\<close>

function lex_from :: "nat \<Rightarrow> string \<Rightarrow> expr_error + token list" where
  "lex_from i [] = Inr []"
| "lex_from i (c # cs) =
     (case lex1 i c cs of
        Inl e \<Rightarrow> Inl e
      | Inr (ts, n, r) \<Rightarrow> map_sum id (\<lambda>us. ts @ us) (lex_from (i + n) r))"
  by pat_completeness auto
termination
  by (relation "measure (\<lambda>(i, s). length s)") (auto dest!: lex1_length)

definition lex :: "string \<Rightarrow> expr_error + token list" where
  "lex src = lex_from 0 src"

section \<open>Parser\<close>

definition is_op :: "token \<Rightarrow> string \<Rightarrow> bool" where
  "is_op t s \<longleftrightarrow> tk_kind t = TkOp \<and> tk_text t = s"

definition isCmpOp :: "string \<Rightarrow> bool" where
  "isCmpOp s \<longleftrightarrow> s \<in> set [''=='', ''!='', ''<'', ''<='', ''>'', ''>='']"

definition is_cmp :: "token \<Rightarrow> bool" where
  "is_cmp t \<longleftrightarrow> tk_kind t = TkOp \<and> isCmpOp (tk_text t)"

text \<open>
  The parser state \<open>{toks, i}\<close> is the list of tokens not yet consumed; the final EOF token,
  on which \<open>advance\<close> stays, is the empty list, and \<open>ep\<close> is its position (\<open>len(src)\<close>).
\<close>

definition cur :: "nat \<Rightarrow> token list \<Rightarrow> token" where
  "cur ep ts = (case ts of [] \<Rightarrow> mk_tok TkEOF [] ep | t # _ \<Rightarrow> t)"

definition advance :: "token list \<Rightarrow> token list" where
  "advance ts = (case ts of [] \<Rightarrow> [] | _ # us \<Rightarrow> us)"

definition var_type :: "string \<Rightarrow> valType" where
  "var_type x = (if numericVars x then TypeInt else TypeStr)"

text \<open>\<open>parseComparison\<close>'s type check.\<close>

definition mk_cmp :: "string \<Rightarrow> node \<Rightarrow> node \<Rightarrow> expr_error + node" where
  "mk_cmp op l r =
     (if typ_of l = TypeBool \<or> typ_of r = TypeBool then Inl (CannotCompareBool op)
      else if typ_of l \<noteq> typ_of r then Inl (CannotCompare (typ_of l) (typ_of r) op)
      else Inr (CmpNode op l r (typ_of l = TypeInt)))"

text \<open>
  One equation per method of the parser; the two loop labels are the \<open>for\<close> loops of
  \<open>parseOr\<close> and \<open>parseAnd\<close> with the tree built so far.
\<close>

datatype nonterm = NOr | NOrLoop node | NAnd | NAndLoop node | NNot | NCmp | NPrim

function (domintros) parse ::
  "nonterm \<Rightarrow> nat \<Rightarrow> token list \<Rightarrow> expr_error + (node \<times> token list)" where
  "parse NOr ep ts =
     (case parse NAnd ep ts of
        Inl e \<Rightarrow> Inl e | Inr (l, ts') \<Rightarrow> parse (NOrLoop l) ep ts')"
| "parse (NOrLoop l) ep ts =
     (if is_op (cur ep ts) ''||'' then
        (case parse NAnd ep (advance ts) of
           Inl e \<Rightarrow> Inl e
         | Inr (r, ts') \<Rightarrow>
             if typ_of l \<noteq> TypeBool \<or> typ_of r \<noteq> TypeBool then Inl (NeedBoolOperands ''||'')
             else parse (NOrLoop (LogicNode ''||'' l r)) ep ts')
      else Inr (l, ts))"
| "parse NAnd ep ts =
     (case parse NNot ep ts of
        Inl e \<Rightarrow> Inl e | Inr (l, ts') \<Rightarrow> parse (NAndLoop l) ep ts')"
| "parse (NAndLoop l) ep ts =
     (if is_op (cur ep ts) ''&&'' then
        (case parse NNot ep (advance ts) of
           Inl e \<Rightarrow> Inl e
         | Inr (r, ts') \<Rightarrow>
             if typ_of l \<noteq> TypeBool \<or> typ_of r \<noteq> TypeBool then Inl (NeedBoolOperands ''&&'')
             else parse (NAndLoop (LogicNode ''&&'' l r)) ep ts')
      else Inr (l, ts))"
| "parse NNot ep ts =
     (if is_op (cur ep ts) ''!'' then
        (case parse NNot ep (advance ts) of
           Inl e \<Rightarrow> Inl e
         | Inr (x, ts') \<Rightarrow>
             if typ_of x \<noteq> TypeBool then Inl (NeedBoolOperands ''!'') else Inr (NotNode x, ts'))
      else parse NCmp ep ts)"
| "parse NCmp ep ts =
     (case parse NPrim ep ts of
        Inl e \<Rightarrow> Inl e
      | Inr (l, ts') \<Rightarrow>
          if is_cmp (cur ep ts') then
            (case parse NPrim ep (advance ts') of
               Inl e \<Rightarrow> Inl e
             | Inr (r, ts'') \<Rightarrow>
                 (case mk_cmp (tk_text (cur ep ts')) l r of
                    Inl e \<Rightarrow> Inl e | Inr n \<Rightarrow> Inr (n, ts'')))
          else Inr (l, ts'))"
| "parse NPrim ep ts =
     (let t = cur ep ts in
      case tk_kind t of
        TkLParen \<Rightarrow>
          (case parse NOr ep (advance ts) of
             Inl e \<Rightarrow> Inl e
           | Inr (n, ts') \<Rightarrow>
               if tk_kind (cur ep ts') \<noteq> TkRParen then Inl (MissingRParen (tk_pos (cur ep ts')))
               else Inr (n, advance ts'))
      | TkInt \<Rightarrow> Inr (IntLit (tk_ival t), advance ts)
      | TkStr \<Rightarrow> Inr (StrLit (tk_text t), advance ts)
      | TkBool \<Rightarrow> Inr (BoolLit (tk_bval t), advance ts)
      | TkIdent \<Rightarrow>
          if \<not> knownVars (tk_text t) then Inl (UnknownVariable (tk_text t) (tk_pos t))
          else Inr (VarRef (tk_text t) (var_type (tk_text t)), advance ts)
      | _ \<Rightarrow> Inl (UnexpectedTok (tk_text t) (tk_pos t)))"
  by pat_completeness auto

lemma is_op_ne [simp]: "is_op (cur ep ts) s \<Longrightarrow> ts \<noteq> []"
  by (auto simp: is_op_def cur_def mk_tok_def)

lemma is_cmp_ne [simp]: "is_cmp (cur ep ts) \<Longrightarrow> ts \<noteq> []"
  by (auto simp: is_cmp_def cur_def mk_tok_def)

lemma kind_ne: "tk_kind (cur ep ts) \<noteq> TkEOF \<Longrightarrow> ts \<noteq> []"
  by (auto simp: cur_def mk_tok_def)

lemma length_advance [simp]: "ts \<noteq> [] \<Longrightarrow> length (advance ts) < length ts"
  by (cases ts) (auto simp: advance_def)

lemma length_advance_le [simp]: "length (advance ts) \<le> length ts"
  by (cases ts) (auto simp: advance_def)

lemma op_advance: "is_op (cur ep ts) s \<Longrightarrow> length (advance ts) < length ts"
  by simp

lemma lparen_advance: "tk_kind (cur ep ts) = TkLParen \<Longrightarrow> length (advance ts) < length ts"
  by (rule length_advance, rule kind_ne [of ep]) simp

text \<open>Every production but the two loops consumes a token.\<close>

fun loops :: "nonterm \<Rightarrow> bool" where
  "loops (NOrLoop _) = True"
| "loops (NAndLoop _) = True"
| "loops _ = False"

definition consumes :: "nonterm \<Rightarrow> token list \<Rightarrow> token list \<Rightarrow> bool" where
  "consumes nt ts ts' \<longleftrightarrow> length ts' \<le> length ts \<and> (\<not> loops nt \<longrightarrow> length ts' < length ts)"

lemma parse_consumes:
  "parse_dom (nt, ep, ts) \<Longrightarrow> parse nt ep ts = Inr (n, ts') \<Longrightarrow> consumes nt ts ts'"
proof (induction nt ep ts arbitrary: n ts' rule: parse.pinduct)
  case (1 ep ts)
  then show ?case
    by (fastforce simp: parse.psimps consumes_def split: sum.splits prod.splits)
next
  case (2 l ep ts)
  show ?case
  proof (cases "is_op (cur ep ts) ''||''")
    case True
    from "2.prems" "2.hyps" True obtain r us
      where r: "parse NAnd ep (advance ts) = Inr (r, us)"
        and ty: "\<not> (typ_of l \<noteq> TypeBool \<or> typ_of r \<noteq> TypeBool)"
        and rest: "parse (NOrLoop (LogicNode ''||'' l r)) ep us = Inr (n, ts')"
      by (auto simp: parse.psimps split: sum.splits if_splits)
    have "length us < length (advance ts)"
      using "2.IH"(1) [OF True r] by (simp add: consumes_def)
    moreover have "length ts' \<le> length us"
      using "2.IH"(2) [OF True r refl ty rest] by (simp add: consumes_def)
    ultimately show ?thesis
      using op_advance [OF True] by (simp add: consumes_def)
  next
    case False
    with 2 show ?thesis by (simp add: parse.psimps consumes_def)
  qed
next
  case (3 ep ts)
  then show ?case
    by (fastforce simp: parse.psimps consumes_def split: sum.splits prod.splits)
next
  case (4 l ep ts)
  show ?case
  proof (cases "is_op (cur ep ts) ''&&''")
    case True
    from "4.prems" "4.hyps" True obtain r us
      where r: "parse NNot ep (advance ts) = Inr (r, us)"
        and ty: "\<not> (typ_of l \<noteq> TypeBool \<or> typ_of r \<noteq> TypeBool)"
        and rest: "parse (NAndLoop (LogicNode ''&&'' l r)) ep us = Inr (n, ts')"
      by (auto simp: parse.psimps split: sum.splits if_splits)
    have "length us < length (advance ts)"
      using "4.IH"(1) [OF True r] by (simp add: consumes_def)
    moreover have "length ts' \<le> length us"
      using "4.IH"(2) [OF True r refl ty rest] by (simp add: consumes_def)
    ultimately show ?thesis
      using op_advance [OF True] by (simp add: consumes_def)
  next
    case False
    with 4 show ?thesis by (simp add: parse.psimps consumes_def)
  qed
next
  case (5 ep ts)
  show ?case
  proof (cases "is_op (cur ep ts) ''!''")
    case True
    from "5.prems" "5.hyps" True obtain x where x: "parse NNot ep (advance ts) = Inr (x, ts')"
      by (auto simp: parse.psimps split: sum.splits if_splits)
    show ?thesis
      using "5.IH"(1) [OF True x] op_advance [OF True] by (simp add: consumes_def)
  next
    case False
    with 5 show ?thesis by (fastforce simp: parse.psimps consumes_def)
  qed
next
  case (6 ep ts)
  from "6.prems" "6.hyps" obtain l us where l: "parse NPrim ep ts = Inr (l, us)"
    by (auto simp: parse.psimps split: sum.splits)
  with "6.IH"(1) have us: "length us < length ts"
    by (fastforce simp: consumes_def)
  show ?case
  proof (cases "is_cmp (cur ep us)")
    case False
    with 6 l us show ?thesis by (simp add: parse.psimps consumes_def)
  next
    case True
    with "6.prems" "6.hyps" l obtain r where r: "parse NPrim ep (advance us) = Inr (r, ts')"
      by (auto simp: parse.psimps split: sum.splits)
    with "6.IH"(2) [OF l] True have "length ts' < length (advance us)"
      by (fastforce simp: consumes_def)
    with us show ?thesis
      using length_advance_le [of us] by (auto simp: consumes_def simp del: length_advance_le)
  qed
next
  case (7 ep ts)
  have ne: "tk_kind (cur ep ts) \<noteq> TkEOF \<Longrightarrow> length (advance ts) < length ts"
    by (rule length_advance, rule kind_ne)
  show ?case
  proof (cases "tk_kind (cur ep ts) = TkLParen")
    case True
    with "7.prems" "7.hyps" obtain us where us: "parse NOr ep (advance ts) = Inr (n, us)"
        and "ts' = advance us"
      by (auto simp: parse.psimps Let_def split: sum.splits if_splits)
    moreover from "7.IH" [OF refl True] us have "length us < length (advance ts)"
      by (fastforce simp: consumes_def)
    ultimately show ?thesis
      using ne True length_advance_le [of us]
      by (auto simp: consumes_def simp del: length_advance_le)
  next
    case False
    with 7 ne show ?thesis
      by (auto simp: parse.psimps Let_def consumes_def split: tokKind.splits if_splits)
  qed
qed

fun level :: "nonterm \<Rightarrow> nat" where
  "level NOr = 5"
| "level (NOrLoop _) = 4"
| "level NAnd = 4"
| "level (NAndLoop _) = 3"
| "level NNot = 3"
| "level NCmp = 2"
| "level NPrim = 1"

termination parse
proof (relation "measures [\<lambda>(nt, ep, ts). length ts, \<lambda>(nt, ep, ts). level nt]")
  show "wf (measures [\<lambda>(nt, ep, ts). length ts, \<lambda>(nt, ep, ts). level nt])" by simp
qed (auto dest!: parse_consumes dest: op_advance lparen_advance
      intro: le_less_trans [OF length_advance_le] simp: consumes_def)

declare parse.simps [simp del]

lemmas parse_unfold = parse.simps

text \<open>The result of \<open>Compile\<close>: an empty program has no root and always matches.\<close>

record program =
  prog_root :: "node option"
  prog_Refs :: "string set"

definition Compile :: "string \<Rightarrow> expr_error + program" where
  "Compile src =
     (if trim_space src = [] then Inr \<lparr>prog_root = None, prog_Refs = {}\<rparr>
      else case lex src of
        Inl e \<Rightarrow> Inl e
      | Inr toks \<Rightarrow>
          (case parse NOr (length src) toks of
             Inl e \<Rightarrow> Inl e
           | Inr (root, rest) \<Rightarrow>
               if rest \<noteq> [] then
                 Inl (UnexpectedTok (tk_text (cur (length src) rest)) (tk_pos (cur (length src) rest)))
               else if typ_of root \<noteq> TypeBool then Inl (NotBoolean (typ_of root))
               else Inr \<lparr>prog_root = Some root, prog_Refs = collectRefs root\<rparr>))"

text \<open>Both methods accept a nil program (\<open>None\<close>).\<close>

definition References :: "program option \<Rightarrow> string \<Rightarrow> bool" where
  "References p x = (case p of None \<Rightarrow> False | Some q \<Rightarrow> x \<in> prog_Refs q)"

definition Eval :: "program option \<Rightarrow> vars \<Rightarrow> bool" where
  "Eval p v =
     (case p of
        None \<Rightarrow> True
      | Some q \<Rightarrow> (case prog_root q of None \<Rightarrow> True | Some n \<Rightarrow> toBool (eval v n)))"

section \<open>The documented grammar\<close>

text \<open>
  The grammar of the package comment, with the type conditions of the compiler, as an
  inductive relation between token sequences and trees.  The binary operators are left
  associative.
\<close>

datatype gram = GOr | GAnd | GNot | GCmp | GPrim

inductive derives :: "gram \<Rightarrow> token list \<Rightarrow> node \<Rightarrow> bool" where
  or_one: "derives GAnd ts n \<Longrightarrow> derives GOr ts n"
| or_op: "derives GOr ts l \<Longrightarrow> is_op t ''||'' \<Longrightarrow> derives GAnd us r \<Longrightarrow>
    typ_of l = TypeBool \<Longrightarrow> typ_of r = TypeBool \<Longrightarrow>
    derives GOr (ts @ t # us) (LogicNode ''||'' l r)"
| and_one: "derives GNot ts n \<Longrightarrow> derives GAnd ts n"
| and_op: "derives GAnd ts l \<Longrightarrow> is_op t ''&&'' \<Longrightarrow> derives GNot us r \<Longrightarrow>
    typ_of l = TypeBool \<Longrightarrow> typ_of r = TypeBool \<Longrightarrow>
    derives GAnd (ts @ t # us) (LogicNode ''&&'' l r)"
| not_one: "derives GCmp ts n \<Longrightarrow> derives GNot ts n"
| not_op: "is_op t ''!'' \<Longrightarrow> derives GNot ts n \<Longrightarrow> typ_of n = TypeBool \<Longrightarrow>
    derives GNot (t # ts) (NotNode n)"
| cmp_one: "derives GPrim ts n \<Longrightarrow> derives GCmp ts n"
| cmp_op: "derives GPrim ts l \<Longrightarrow> is_cmp t \<Longrightarrow> derives GPrim us r \<Longrightarrow>
    mk_cmp (tk_text t) l r = Inr n \<Longrightarrow> derives GCmp (ts @ t # us) n"
| paren: "tk_kind lp = TkLParen \<Longrightarrow> derives GOr ts n \<Longrightarrow> tk_kind rp = TkRParen \<Longrightarrow>
    derives GPrim (lp # ts @ [rp]) n"
| prim_int: "tk_kind t = TkInt \<Longrightarrow> derives GPrim [t] (IntLit (tk_ival t))"
| prim_str: "tk_kind t = TkStr \<Longrightarrow> derives GPrim [t] (StrLit (tk_text t))"
| prim_bool: "tk_kind t = TkBool \<Longrightarrow> derives GPrim [t] (BoolLit (tk_bval t))"
| prim_ident: "tk_kind t = TkIdent \<Longrightarrow> knownVars (tk_text t) \<Longrightarrow>
    derives GPrim [t] (VarRef (tk_text t) (var_type (tk_text t)))"

text \<open>What a successful call of a parser method says of the tokens it consumed.\<close>

fun sound_at :: "nonterm \<Rightarrow> token list \<Rightarrow> node \<Rightarrow> bool" where
  "sound_at NOr us n = derives GOr us n"
| "sound_at (NOrLoop l) us n = (\<forall>vs. derives GOr vs l \<longrightarrow> derives GOr (vs @ us) n)"
| "sound_at NAnd us n = derives GAnd us n"
| "sound_at (NAndLoop l) us n = (\<forall>vs. derives GAnd vs l \<longrightarrow> derives GAnd (vs @ us) n)"
| "sound_at NNot us n = derives GNot us n"
| "sound_at NCmp us n = derives GCmp us n"
| "sound_at NPrim us n = derives GPrim us n"

lemma cur_advance: "ts \<noteq> [] \<Longrightarrow> ts = cur ep ts # advance ts"
  by (cases ts) (auto simp: cur_def advance_def)

lemma parse_sound:
  "parse nt ep ts = Inr (n, rest) \<Longrightarrow> \<exists>us. ts = us @ rest \<and> sound_at nt us n"
proof (induction nt ep ts arbitrary: n rest rule: parse.induct)
  case (1 ep ts)
  then obtain l us where l: "parse NAnd ep ts = Inr (l, us)"
      and r: "parse (NOrLoop l) ep us = Inr (n, rest)"
    by (auto simp: parse_unfold(1) split: sum.splits)
  from "1.IH"(1) [OF l] "1.IH"(2) [OF l refl r] show ?case
    by (auto intro: or_one)
next
  case (2 l ep ts)
  show ?case
  proof (cases "is_op (cur ep ts) ''||''")
    case True
    with "2.prems" obtain r us where r: "parse NAnd ep (advance ts) = Inr (r, us)"
        and ty: "\<not> (typ_of l \<noteq> TypeBool \<or> typ_of r \<noteq> TypeBool)"
        and rest: "parse (NOrLoop (LogicNode ''||'' l r)) ep us = Inr (n, rest)"
      by (auto simp: parse_unfold(2) split: sum.splits if_splits)
    from "2.IH"(1) [OF True r] obtain xs where xs: "advance ts = xs @ us" "derives GAnd xs r"
      by auto
    from "2.IH"(2) [OF True r refl ty rest] obtain ys where ys: "us = ys @ rest"
        "\<forall>vs. derives GOr vs (LogicNode ''||'' l r) \<longrightarrow> derives GOr (vs @ ys) n"
      by auto
    have "derives GOr (vs @ cur ep ts # xs @ ys) n" if "derives GOr vs l" for vs
      using ys(2) or_op [OF that True xs(2)] ty by force
    moreover have "ts = (cur ep ts # xs @ ys) @ rest"
      using cur_advance [OF is_op_ne [OF True]] xs(1) ys(1) by force
    ultimately show ?thesis by (metis sound_at.simps(2))
  next
    case False
    with "2.prems" show ?thesis by (auto simp: parse_unfold(2))
  qed
next
  case (3 ep ts)
  then obtain l us where l: "parse NNot ep ts = Inr (l, us)"
      and r: "parse (NAndLoop l) ep us = Inr (n, rest)"
    by (auto simp: parse_unfold(3) split: sum.splits)
  from "3.IH"(1) [OF l] "3.IH"(2) [OF l refl r] show ?case
    by (auto intro: and_one)
next
  case (4 l ep ts)
  show ?case
  proof (cases "is_op (cur ep ts) ''&&''")
    case True
    with "4.prems" obtain r us where r: "parse NNot ep (advance ts) = Inr (r, us)"
        and ty: "\<not> (typ_of l \<noteq> TypeBool \<or> typ_of r \<noteq> TypeBool)"
        and rest: "parse (NAndLoop (LogicNode ''&&'' l r)) ep us = Inr (n, rest)"
      by (auto simp: parse_unfold(4) split: sum.splits if_splits)
    from "4.IH"(1) [OF True r] obtain xs where xs: "advance ts = xs @ us" "derives GNot xs r"
      by auto
    from "4.IH"(2) [OF True r refl ty rest] obtain ys where ys: "us = ys @ rest"
        "\<forall>vs. derives GAnd vs (LogicNode ''&&'' l r) \<longrightarrow> derives GAnd (vs @ ys) n"
      by auto
    have "derives GAnd (vs @ cur ep ts # xs @ ys) n" if "derives GAnd vs l" for vs
      using ys(2) and_op [OF that True xs(2)] ty by force
    moreover have "ts = (cur ep ts # xs @ ys) @ rest"
      using cur_advance [OF is_op_ne [OF True]] xs(1) ys(1) by force
    ultimately show ?thesis by (metis sound_at.simps(4))
  next
    case False
    with "4.prems" show ?thesis by (auto simp: parse_unfold(4))
  qed
next
  case (5 ep ts)
  show ?case
  proof (cases "is_op (cur ep ts) ''!''")
    case True
    with "5.prems" obtain x where x: "parse NNot ep (advance ts) = Inr (x, rest)"
        and ty: "typ_of x = TypeBool" and n: "n = NotNode x"
      by (auto simp: parse_unfold(5) [of ep ts] split: sum.splits if_splits)
    from "5.IH"(1) [OF True x] obtain xs where xs: "advance ts = xs @ rest" "derives GNot xs x"
      by auto
    have "ts = (cur ep ts # xs) @ rest"
      using cur_advance [OF is_op_ne [OF True]] xs(1) by force
    with not_op [OF True xs(2) ty] n show ?thesis by (metis sound_at.simps(5))
  next
    case False
    with "5.prems" have "parse NCmp ep ts = Inr (n, rest)"
      by (simp add: parse_unfold(5) [of ep ts])
    from "5.IH"(2) [OF False this] show ?thesis by (auto intro: not_one)
  qed
next
  case (6 ep ts)
  from "6.prems" obtain l us where l: "parse NPrim ep ts = Inr (l, us)"
    by (auto simp: parse_unfold(6) split: sum.splits)
  from "6.IH"(1) [OF l] obtain xs where xs: "ts = xs @ us" "derives GPrim xs l" by auto
  show ?case
  proof (cases "is_cmp (cur ep us)")
    case False
    with "6.prems" l xs show ?thesis by (auto simp: parse_unfold(6) intro: cmp_one)
  next
    case True
    with "6.prems" l obtain r where r: "parse NPrim ep (advance us) = Inr (r, rest)"
        and n: "mk_cmp (tk_text (cur ep us)) l r = Inr n"
      by (auto simp: parse_unfold(6) split: sum.splits)
    from "6.IH"(2) [OF l refl True r] obtain ys
      where ys: "advance us = ys @ rest" "derives GPrim ys r" by auto
    have "ts = (xs @ cur ep us # ys) @ rest"
      using cur_advance [OF is_cmp_ne [OF True]] xs(1) ys(1) by force
    with cmp_op [OF xs(2) True ys(2) n] show ?thesis by (metis sound_at.simps(6))
  qed
next
  case (7 ep ts)
  from "7.prems" have "tk_kind (cur ep ts) \<noteq> TkEOF"
    by (simp add: parse_unfold(7) Let_def split: tokKind.splits)
  then have ts: "ts = cur ep ts # advance ts" by (rule cur_advance [OF kind_ne])
  show ?case
  proof (cases "tk_kind (cur ep ts) = TkLParen")
    case True
    with "7.prems" obtain us where us: "parse NOr ep (advance ts) = Inr (n, us)"
        and k: "tk_kind (cur ep us) = TkRParen" and rest: "rest = advance us"
      by (auto simp: parse_unfold(7) Let_def split: sum.splits if_splits)
    from "7.IH" [OF refl True us] obtain xs
      where xs: "advance ts = xs @ us" "derives GOr xs n" by auto
    from k have "us = cur ep us # rest" using rest by (metis cur_advance kind_ne tokKind.distinct)
    with ts xs(1) have "ts = (cur ep ts # xs @ [cur ep us]) @ rest" by force
    with paren [OF True xs(2) k] show ?thesis by (metis sound_at.simps(7))
  next
    case False
    with "7.prems" have "rest = advance ts \<and> derives GPrim [cur ep ts] n"
      by (auto simp: parse_unfold(7) Let_def split: tokKind.splits if_splits
          intro: prim_int prim_str prim_bool prim_ident)
    moreover from this ts have "ts = [cur ep ts] @ rest" by (metis append_Cons append_Nil)
    ultimately show ?thesis by (metis sound_at.simps(7))
  qed
qed

text \<open>Conversely, a derivable sequence is parsed to its tree, whatever may follow it.\<close>

fun complete_at :: "gram \<Rightarrow> nat \<Rightarrow> token list \<Rightarrow> node \<Rightarrow> token list \<Rightarrow> bool" where
  "complete_at GOr ep us n rest =
     (\<not> is_cmp (cur ep rest) \<and> \<not> is_op (cur ep rest) ''&&'' \<longrightarrow>
      parse NOr ep (us @ rest) = parse (NOrLoop n) ep rest)"
| "complete_at GAnd ep us n rest =
     (\<not> is_cmp (cur ep rest) \<longrightarrow> parse NAnd ep (us @ rest) = parse (NAndLoop n) ep rest)"
| "complete_at GNot ep us n rest =
     (\<not> is_cmp (cur ep rest) \<longrightarrow> parse NNot ep (us @ rest) = Inr (n, rest))"
| "complete_at GCmp ep us n rest =
     (\<not> is_cmp (cur ep rest) \<longrightarrow> parse NCmp ep (us @ rest) = Inr (n, rest))"
| "complete_at GPrim ep us n rest = (parse NPrim ep (us @ rest) = Inr (n, rest))"

lemma cur_Cons [simp]: "cur ep (t # ts) = t"
  by (simp add: cur_def)

lemma advance_Cons [simp]: "advance (t # ts) = ts"
  by (simp add: advance_def)

lemma op_disjoint:
  "is_op t ''||'' \<Longrightarrow> \<not> is_cmp t \<and> \<not> is_op t ''&&''"
  "is_op t ''&&'' \<Longrightarrow> \<not> is_cmp t"
  "tk_kind t \<noteq> TkOp \<Longrightarrow> \<not> is_cmp t \<and> \<not> is_op t s"
  by (auto simp: is_op_def is_cmp_def isCmpOp_def)

lemma derives_head:
  "derives g us n \<Longrightarrow> g = GCmp \<or> g = GPrim \<Longrightarrow> \<exists>t vs. us = t # vs \<and> tk_kind t \<noteq> TkOp"
  by (induction g us n rule: derives.induct) auto

lemma loop_stops:
  "\<not> is_op (cur ep ts) ''||'' \<Longrightarrow> parse (NOrLoop l) ep ts = Inr (l, ts)"
  "\<not> is_op (cur ep ts) ''&&'' \<Longrightarrow> parse (NAndLoop l) ep ts = Inr (l, ts)"
  by (simp_all add: parse_unfold(2,4))

lemma derives_complete: "derives g us n \<Longrightarrow> complete_at g ep us n rest"
proof (induction g us n arbitrary: rest rule: derives.induct)
  case (or_one ts n rest)
  then show ?case by (simp add: parse_unfold(1) [of ep "ts @ rest"] loop_stops)
next
  case (or_op ts l t us r rest)
  show ?case
  proof (simp, intro impI, elim conjE)
    assume stop: "\<not> is_cmp (cur ep rest)" "\<not> is_op (cur ep rest) ''&&''"
    have "parse NOr ep (ts @ t # us @ rest) = parse (NOrLoop l) ep (t # us @ rest)"
      using or_op.IH(1) [of "t # us @ rest"] op_disjoint(1) [OF or_op.hyps(2)] by simp
    moreover have "parse NAnd ep (us @ rest) = Inr (r, rest)"
      using or_op.IH(2) [of rest] stop by (simp add: loop_stops)
    ultimately show "parse NOr ep (ts @ t # us @ rest) = parse (NOrLoop (LogicNode ''||'' l r)) ep rest"
      using or_op.hyps by (simp add: parse_unfold(2) [of l ep "t # us @ rest"])
  qed
next
  case (and_one ts n rest)
  then show ?case by (simp add: parse_unfold(3) [of ep "ts @ rest"])
next
  case (and_op ts l t us r rest)
  show ?case
  proof (simp, intro impI)
    assume stop: "\<not> is_cmp (cur ep rest)"
    have "parse NAnd ep (ts @ t # us @ rest) = parse (NAndLoop l) ep (t # us @ rest)"
      using and_op.IH(1) [of "t # us @ rest"] op_disjoint(2) [OF and_op.hyps(2)] by simp
    moreover have "parse NNot ep (us @ rest) = Inr (r, rest)"
      using and_op.IH(2) [of rest] stop by simp
    ultimately show "parse NAnd ep (ts @ t # us @ rest) = parse (NAndLoop (LogicNode ''&&'' l r)) ep rest"
      using and_op.hyps by (simp add: parse_unfold(4) [of l ep "t # us @ rest"])
  qed
next
  case (not_one ts n rest)
  obtain t vs where "ts = t # vs" "tk_kind t \<noteq> TkOp"
    using derives_head [OF not_one.hyps] by auto
  then have "\<not> is_op (cur ep (ts @ rest)) ''!''" by (simp add: op_disjoint)
  with not_one.IH [of rest] show ?case by (simp add: parse_unfold(5) [of ep "ts @ rest"])
next
  case (not_op t ts n rest)
  then show ?case by (simp add: parse_unfold(5) [of ep "t # ts @ rest"])
next
  case (cmp_one ts n rest)
  from cmp_one.IH [of rest] show ?case by (simp add: parse_unfold(6) [of ep "ts @ rest"])
next
  case (cmp_op ts l t us r n rest)
  from cmp_op.IH(1) [of "t # us @ rest"] cmp_op.IH(2) [of rest] cmp_op.hyps show ?case
    by (simp add: parse_unfold(6) [of ep "ts @ t # us @ rest"])
next
  case (paren lp ts n rp rest)
  have "\<not> is_cmp rp" "\<not> is_op rp s" for s
    using op_disjoint(3) [of rp] paren.hyps by auto
  with paren.IH [of "rp # rest"] have "parse NOr ep (ts @ rp # rest) = Inr (n, rp # rest)"
    by (simp add: loop_stops)
  with paren.hyps show ?case by (simp add: parse_unfold(7) [of ep "lp # ts @ rp # rest"])
qed (simp_all add: parse_unfold(7))

lemma parse_iff_derives:
  "parse NOr ep ts = Inr (n, []) \<longleftrightarrow> derives GOr ts n"
proof
  assume "parse NOr ep ts = Inr (n, [])"
  then show "derives GOr ts n" using parse_sound by fastforce
next
  have eof: "\<not> is_cmp (cur ep [])" "\<not> is_op (cur ep []) s" for s
    by (auto simp: is_cmp_def is_op_def cur_def mk_tok_def)
  assume "derives GOr ts n"
  from derives_complete [OF this, of ep "[]"] eof show "parse NOr ep ts = Inr (n, [])"
    by (simp add: loop_stops)
qed

section \<open>Typing of programs\<close>

text \<open>
  \<open>wt\<close>: every operator is applied to operands of the kind its evaluation asserts, and
  only the five documented variables occur, each at its declared type.
\<close>

fun wt :: "node \<Rightarrow> bool" where
  "wt (BoolLit _) = True"
| "wt (IntLit _) = True"
| "wt (StrLit _) = True"
| "wt (VarRef x vt) = (knownVars x \<and> vt = var_type x)"
| "wt (NotNode n) = (wt n \<and> typ_of n = TypeBool)"
| "wt (LogicNode op l r) =
     (op \<in> {''&&'', ''||''} \<and> wt l \<and> wt r \<and> typ_of l = TypeBool \<and> typ_of r = TypeBool)"
| "wt (CmpNode op l r numeric) =
     (isCmpOp op \<and> wt l \<and> wt r \<and> typ_of l = typ_of r \<and> typ_of l \<noteq> TypeBool
      \<and> numeric = (typ_of l = TypeInt))"

definition has_type :: "gval \<Rightarrow> valType \<Rightarrow> bool" where
  "has_type v vt = (case v of GBool _ \<Rightarrow> vt = TypeBool | GInt _ \<Rightarrow> vt = TypeInt
     | GStr _ \<Rightarrow> vt = TypeStr)"

lemma derives_wt: "derives g ts n \<Longrightarrow> wt n"
  by (induction g ts n rule: derives.induct) (auto simp: mk_cmp_def is_cmp_def split: if_splits)

lemma eval_has_type: "wt n \<Longrightarrow> has_type (eval v n) (typ_of n)"
  by (induction n) (auto simp: has_type_def var_type_def)

lemma wt_refs: "wt n \<Longrightarrow> x \<in> collectRefs n \<Longrightarrow> knownVars x"
  by (induction n) auto

lemma eval_agree:
  "(\<And>x. x \<in> collectRefs n \<Longrightarrow> vars_Int v x = vars_Int v' x \<and> vars_Str v x = vars_Str v' x)
   \<Longrightarrow> eval v n = eval v' n"
  by (induction n) auto

text \<open>
  A reference evaluator that has no default branches: an ill-typed operation is \<open>None\<close>.
\<close>

fun strict_eval :: "vars \<Rightarrow> node \<Rightarrow> gval option" where
  "strict_eval v (BoolLit b) = Some (GBool b)"
| "strict_eval v (IntLit i) = Some (GInt i)"
| "strict_eval v (StrLit s) = Some (GStr s)"
| "strict_eval v (VarRef x vt) = Some (eval v (VarRef x vt))"
| "strict_eval v (NotNode n) =
     (case strict_eval v n of Some (GBool b) \<Rightarrow> Some (GBool (\<not> b)) | _ \<Rightarrow> None)"
| "strict_eval v (LogicNode op l r) =
     (case (strict_eval v l, strict_eval v r) of
        (Some (GBool a), Some (GBool b)) \<Rightarrow>
          if op = ''&&'' then Some (GBool (a \<and> b))
          else if op = ''||'' then Some (GBool (a \<or> b)) else None
      | _ \<Rightarrow> None)"
| "strict_eval v (CmpNode op l r numeric) =
     (case (strict_eval v l, strict_eval v r) of
        (Some (GInt a), Some (GInt b)) \<Rightarrow>
          if isCmpOp op then Some (GBool (cmp_int op a b)) else None
      | (Some (GStr a), Some (GStr b)) \<Rightarrow>
          if isCmpOp op then Some (GBool (cmp_str op a b)) else None
      | _ \<Rightarrow> None)"

lemma has_typeE:
  assumes "has_type v vt"
  obtains b where "v = GBool b" "vt = TypeBool" | i where "v = GInt i" "vt = TypeInt"
    | s where "v = GStr s" "vt = TypeStr"
  using assms by (cases v) (auto simp: has_type_def)

lemma strict_eval_wt: "wt n \<Longrightarrow> strict_eval v n = Some (eval v n)"
proof (induction n)
  case (NotNode n)
  with eval_has_type [of n v] show ?case by (auto elim!: has_typeE simp: toBool_def)
next
  case (LogicNode op l r)
  with eval_has_type [of l v] eval_has_type [of r v] show ?case
    by (auto elim!: has_typeE simp: toBool_def)
next
  case (CmpNode op l r numeric)
  with eval_has_type [of l v] eval_has_type [of r v] show ?case
    by (auto elim!: has_typeE simp: toInt_def toStr_def)
qed auto

lemma Compile_cases:
  assumes "Compile src = Inr p"
  obtains (blank) "trim_space src = []" "p = \<lparr>prog_root = None, prog_Refs = {}\<rparr>"
  | (tree) toks n where "trim_space src \<noteq> []" "lex src = Inr toks" "derives GOr toks n"
      "typ_of n = TypeBool" "p = \<lparr>prog_root = Some n, prog_Refs = collectRefs n\<rparr>"
  using assms
  by (auto simp: Compile_def parse_iff_derives split: if_splits sum.splits)

lemma Eval_agree:
  assumes "Compile src = Inr p"
    and "\<And>x. References (Some p) x \<Longrightarrow>
           vars_Int v x = vars_Int v' x \<and> vars_Str v x = vars_Str v' x"
  shows "Eval (Some p) v = Eval (Some p) v'"
using assms(1)
proof (cases rule: Compile_cases)
  case blank
  then show ?thesis by (simp add: Eval_def)
next
  case (tree toks n)
  have "eval v n = eval v' n"
    by (rule eval_agree) (use assms(2) tree(5) in \<open>simp add: References_def\<close>)
  with tree show ?thesis by (simp add: Eval_def)
qed

section \<open>Properties\<close>

text \<open>A concrete program the witnesses below use.\<close>

lemma compile_sample:
  "Compile ''w==1'' =
     Inr \<lparr>prog_root = Some (CmpNode ''=='' (VarRef ''w'' TypeInt) (IntLit 1) True),
          prog_Refs = {''w''}\<rparr>"
  by code_simp

text \<open>
  C10. The compiler accepts exactly the documented language: it returns a program for a
  source iff the source is blank, or its tokens derive, in the grammar of the package
  comment, a tree of type bool; the program is then that tree with the variables it
  mentions.
\<close>

theorem compile_iff_grammar:
  "Compile src = Inr p \<longleftrightarrow>
     (if trim_space src = [] then p = \<lparr>prog_root = None, prog_Refs = {}\<rparr>
      else \<exists>toks n. lex src = Inr toks \<and> derives GOr toks n \<and> typ_of n = TypeBool
             \<and> p = \<lparr>prog_root = Some n, prog_Refs = collectRefs n\<rparr>)"
proof (cases "trim_space src = []")
  case True
  then show ?thesis by (auto simp: Compile_def)
next
  case False
  have "(Compile src = Inr p) = (\<exists>toks n. lex src = Inr toks
      \<and> parse NOr (length src) toks = Inr (n, []) \<and> typ_of n = TypeBool
      \<and> p = \<lparr>prog_root = Some n, prog_Refs = collectRefs n\<rparr>)"
    using False by (auto simp: Compile_def split: sum.splits if_splits)
  with False show ?thesis by (simp add: parse_iff_derives)
qed

text \<open>
  C27. A compiled program never meets a type error when it is evaluated: on every
  assignment of the variables, the evaluator with no default branches returns the bool
  that \<open>Eval\<close> returns.
\<close>

theorem compiled_eval_total:
  assumes "Compile src = Inr p" and "prog_root p = Some n"
  shows "strict_eval v n = Some (GBool (Eval (Some p) v))"
using assms(1)
proof (cases rule: Compile_cases)
  case blank
  with assms(2) show ?thesis by simp
next
  case (tree toks m)
  with assms(2) have [simp]: "m = n" by simp
  have "wt n" using derives_wt [OF tree(3)] by simp
  from strict_eval_wt [OF this] eval_has_type [OF this, of v] tree show ?thesis
    by (auto elim!: has_typeE simp: Eval_def toBool_def)
qed

lemma compiled_eval_total_witness:
  "strict_eval \<lparr>vars_Int = [''w'' \<mapsto> 1], vars_Str = Map.empty\<rparr>
     (CmpNode ''=='' (VarRef ''w'' TypeInt) (IntLit 1) True) = Some (GBool True)"
  by (subst compiled_eval_total [OF compile_sample])
    (simp_all add: Eval_def toBool_def toInt_def cmp_int_def)

text \<open>
  A compiled program references only the five documented variables, and its value
  depends on nothing but the variables it references: two assignments that agree on them
  give the same result.  This is what allows the engine to skip the probe.
\<close>

lemma compiled_refs_sufficient:
  assumes "Compile src = Inr p"
  shows "(\<forall>x. References (Some p) x \<longrightarrow> knownVars x) \<and>
    (\<forall>v v'. (\<forall>x. References (Some p) x \<longrightarrow>
               vars_Int v x = vars_Int v' x \<and> vars_Str v x = vars_Str v' x)
       \<longrightarrow> Eval (Some p) v = Eval (Some p) v')"
proof (intro conjI allI impI)
  fix x assume ref: "References (Some p) x"
  show "knownVars x"
  using assms
  proof (cases rule: Compile_cases)
    case blank
    with ref show ?thesis by (simp add: References_def)
  next
    case (tree toks n)
    with ref show ?thesis using wt_refs [OF derives_wt [OF tree(3)]]
      by (simp add: References_def)
  qed
next
  fix v v' :: vars
  assume "\<forall>x. References (Some p) x \<longrightarrow>
      vars_Int v x = vars_Int v' x \<and> vars_Str v x = vars_Str v' x"
  then show "Eval (Some p) v = Eval (Some p) v'"
    by (intro Eval_agree [OF assms]) auto
qed

lemma compiled_refs_sufficient_witness:
  "Eval (Some \<lparr>prog_root = Some (CmpNode ''=='' (VarRef ''w'' TypeInt) (IntLit 1) True),
          prog_Refs = {''w''}\<rparr>) \<lparr>vars_Int = [''w'' \<mapsto> 2], vars_Str = Map.empty\<rparr>
   = Eval (Some \<lparr>prog_root = Some (CmpNode ''=='' (VarRef ''w'' TypeInt) (IntLit 1) True),
          prog_Refs = {''w''}\<rparr>) \<lparr>vars_Int = [''w'' \<mapsto> 2], vars_Str = [''model'' \<mapsto> ''x'']\<rparr>"
  using compiled_refs_sufficient [OF compile_sample] by (auto simp: References_def)

end
