(* ===== verification/Records.thy ===== *)
theory Records
  imports Prelude
begin

text \<open>
  The data model of \<open>internal/model\<close>: one record per table with the columns the code reads
  or writes, the string constants of its enumerations, and JSON values.  A JSONB column
  holds a parsed value (\<open>None\<close> is SQL NULL); the \<open>unmarshal\<close> functions are
  \<open>encoding/json\<close>'s decoding of such a value into a slice, a map or a struct: a value of
  the wrong type leaves the zero value and decoding goes on.  Times are nanoseconds since
  Go's zero time, \<open>created_at\<close>/\<open>updated_at\<close> are kept only where the code reads them.
\<close>

section \<open>Enumerations\<close>

text \<open>Go's enumerations are named string types; any string can occur in a column.\<close>

definition RoleAdmin :: string where "RoleAdmin = ''admin''"
definition RoleUser :: string where "RoleUser = ''user''"
definition UserEnabled :: string where "UserEnabled = ''enabled''"
definition UserDisabled :: string where "UserDisabled = ''disabled''"
definition TokenEnabled :: string where "TokenEnabled = ''enabled''"
definition TokenDisabled :: string where "TokenDisabled = ''disabled''"
definition TokenExpired :: string where "TokenExpired = ''expired''"
definition ChannelOpenAI :: string where "ChannelOpenAI = ''openai''"
definition ChannelBedrock :: string where "ChannelBedrock = ''bedrock''"
definition ChannelAnthropic :: string where "ChannelAnthropic = ''anthropic''"
definition ChannelEnabled :: string where "ChannelEnabled = ''enabled''"
definition ChannelDisabled :: string where "ChannelDisabled = ''disabled''"
definition ChannelAutoDisabled :: string where "ChannelAutoDisabled = ''auto_disabled''"
definition QuotaUnlimited :: int where "QuotaUnlimited = - 1"
definition InboundOpenAI :: string where "InboundOpenAI = ''openai''"
definition InboundAnthropic :: string where "InboundAnthropic = ''anthropic''"
definition OutputOpenAI :: string where "OutputOpenAI = ''openai''"
definition OutputAnthropic :: string where "OutputAnthropic = ''anthropic''"
definition OutputBedrock :: string where "OutputBedrock = ''bedrock''"
definition LogSuccess :: string where "LogSuccess = ''success''"
definition LogError :: string where "LogError = ''error''"

lemmas enum_defs = RoleAdmin_def RoleUser_def UserEnabled_def UserDisabled_def
  TokenEnabled_def TokenDisabled_def TokenExpired_def ChannelOpenAI_def ChannelBedrock_def
  ChannelAnthropic_def ChannelEnabled_def ChannelDisabled_def ChannelAutoDisabled_def
  InboundOpenAI_def InboundAnthropic_def OutputOpenAI_def OutputAnthropic_def
  OutputBedrock_def LogSuccess_def LogError_def

definition ValidOutputFormat :: "string \<Rightarrow> bool" where
  "ValidOutputFormat s \<longleftrightarrow>
     s = [] \<or> s = OutputOpenAI \<or> s = OutputAnthropic \<or> s = OutputBedrock"

section \<open>JSON values\<close>

text \<open>
  \<open>JDec\<close> is a number literal with a fraction or an exponent, \<open>JRaw\<close> a \<open>json.RawMessage\<close> in a
  value to be rendered.  Object members are listed in document order.
\<close>

datatype json =
    JNull
  | JBool bool
  | JInt int
  | JDec string
  | JStr string
  | JArr "json list"
  | JObj "(string \<times> json) list"
  | JRaw string

text \<open>\<open>json.Marshal\<close> of a string replaces each invalid UTF-8 byte by U+FFFD.\<close>

definition utf8_coerce :: "string \<Rightarrow> string" where
  "utf8_coerce s = unrunes (runes s)"

text \<open>PostgreSQL refuses text that is not UTF-8 or holds a NUL.\<close>

definition valid_text :: "string \<Rightarrow> bool" where
  "valid_text s \<longleftrightarrow> utf8_coerce s = s \<and> list_all (\<lambda>c. c \<noteq> CHR 0x00) s"

fun unmarshal_str :: "json \<Rightarrow> string" where
  "unmarshal_str (JStr s) = s"
| "unmarshal_str _ = []"

fun unmarshal_strs :: "json \<Rightarrow> string list" where
  "unmarshal_strs (JArr xs) = map unmarshal_str xs"
| "unmarshal_strs _ = []"

fun unmarshal_uint :: "json \<Rightarrow> nat" where
  "unmarshal_uint (JInt i) = (if 0 \<le> i \<and> i < 2 ^ 64 then nat i else 0)"
| "unmarshal_uint _ = 0"

fun unmarshal_uints :: "json \<Rightarrow> nat list" where
  "unmarshal_uints (JArr xs) = map unmarshal_uint xs"
| "unmarshal_uints _ = []"

text \<open>A map entry is stored even when its value has the wrong type.\<close>

fun unmarshal_map :: "json \<Rightarrow> string \<rightharpoonup> string" where
  "unmarshal_map (JObj kvs) = fold (\<lambda>(k, v) m. m(k \<mapsto> unmarshal_str v)) kvs Map.empty"
| "unmarshal_map _ = Map.empty"

text \<open>
  Struct fields match object keys exactly or under Unicode simple case folding; of the
  non-ASCII code points only U+017F and U+212A fold to a letter (s and k).
\<close>

fun fold_view :: "string \<Rightarrow> string" where
  "fold_view (a # b # c # s) =
     (if a = CHR 0xE2 \<and> b = CHR 0x84 \<and> c = CHR 0xAA then CHR ''k'' # fold_view s
      else if a = CHR 0xC5 \<and> b = CHR 0xBF then CHR ''s'' # fold_view (c # s)
      else lower_char a # fold_view (b # c # s))"
| "fold_view [a, b] =
     (if a = CHR 0xC5 \<and> b = CHR 0xBF then ''s'' else [lower_char a, lower_char b])"
| "fold_view [a] = [lower_char a]"
| "fold_view [] = []"

section \<open>Tables\<close>

record user =
  user_ID :: nat
  user_Username :: string
  user_Password :: string
  user_DisplayName :: string
  user_Email :: string
  user_Role :: string
  user_Status :: string
  user_Quota :: int
  user_UsedQuota :: int
  user_Group :: string
  user_LastLoginAt :: "int option"

text \<open>The plaintext key column is never written, so it is left out.\<close>

record token_row =
  tok_ID :: nat
  tok_UserID :: nat
  tok_Name :: string
  tok_KeyHash :: string
  tok_Status :: string
  tok_Quota :: int
  tok_UsedQuota :: int
  tok_ExpiredAt :: "int option"
  tok_Group :: string
  tok_AllowedModels :: "json option"
  tok_OutputFormat :: "string option"

record channel =
  ch_ID :: nat
  ch_Name :: string
  ch_Type :: string
  ch_BaseURL :: string
  ch_Key :: string
  ch_Region :: string
  ch_Models :: "json option"
  ch_ModelMapping :: "json option"
  ch_UseInferenceProfile :: bool
  ch_AutoCacheSystem :: bool
  ch_Group :: string
  ch_Priority :: int
  ch_Weight :: int
  ch_Status :: string

record routing_rule =
  rule_ID :: nat
  rule_Name :: string
  rule_Enabled :: bool
  rule_Priority :: int
  rule_Match :: "json option"
  rule_TargetChannelIDs :: "json option"
  rule_TargetGroup :: string
  rule_Expr :: string
  rule_TargetModel :: string

record match_spec =
  spec_Groups :: "string list"
  spec_Models :: "string list"
  spec_MinTokens :: int
  spec_MaxTokens :: int

record model_price =
  price_ID :: nat
  price_ChannelID :: nat
  price_Model :: string
  price_Input :: int
  price_Output :: int
  price_CacheRead :: int
  price_CacheWrite :: int

record request_log =
  log_UserID :: nat
  log_TokenID :: "nat option"
  log_ChannelID :: nat
  log_RuleID :: "nat option"
  log_Model :: string
  log_UpstreamModel :: string
  log_InboundFormat :: string
  log_PromptTokens :: int
  log_CompletionTokens :: int
  log_TotalTokens :: int
  log_CacheReadTokens :: "int option"
  log_CacheWriteTokens :: "int option"
  log_CostMicroUSD :: "int option"
  log_Status :: string
  log_HTTPStatus :: int
  log_ErrorMessage :: string
  log_IsStream :: bool
  log_IsTest :: bool
  log_RequestBody :: "string option"
  log_ResponseBody :: "string option"
  log_ProbeInfo :: "string option"

text \<open>\<open>json.Marshal\<close> and \<open>json.Unmarshal\<close> of a \<open>MatchSpec\<close>, whose fields are all \<open>omitempty\<close>.\<close>

definition empty_spec :: match_spec where
  "empty_spec = \<lparr>spec_Groups = [], spec_Models = [], spec_MinTokens = 0, spec_MaxTokens = 0\<rparr>"

definition marshal_strs :: "string list \<Rightarrow> json" where
  "marshal_strs xs = JArr (map (\<lambda>s. JStr (utf8_coerce s)) xs)"

definition marshal_uints :: "nat list \<Rightarrow> json" where
  "marshal_uints ns = JArr (map (\<lambda>n. JInt (int n)) ns)"

definition marshal_spec :: "match_spec \<Rightarrow> json" where
  "marshal_spec sp = JObj
     ((if spec_Groups sp = [] then [] else [(''groups'', marshal_strs (spec_Groups sp))]) @
      (if spec_Models sp = [] then [] else [(''models'', marshal_strs (spec_Models sp))]) @
      (if spec_MinTokens sp = 0 then [] else [(''min_tokens'', JInt (spec_MinTokens sp))]) @
      (if spec_MaxTokens sp = 0 then [] else [(''max_tokens'', JInt (spec_MaxTokens sp))]))"

fun set_int :: "json \<Rightarrow> int \<Rightarrow> int" where
  "set_int (JInt i) old = (if in_int64 i then i else old)"
| "set_int _ old = old"

fun set_strs :: "json \<Rightarrow> string list \<Rightarrow> string list" where
  "set_strs (JArr xs) old = map unmarshal_str xs"
| "set_strs JNull old = []"
| "set_strs _ old = old"

definition set_member :: "string \<times> json \<Rightarrow> match_spec \<Rightarrow> match_spec" where
  "set_member kv sp =
     (let k = fold_view (fst kv); v = snd kv in
      if k = ''groups'' then sp\<lparr>spec_Groups := set_strs v (spec_Groups sp)\<rparr>
      else if k = ''models'' then sp\<lparr>spec_Models := set_strs v (spec_Models sp)\<rparr>
      else if k = ''min_tokens'' then sp\<lparr>spec_MinTokens := set_int v (spec_MinTokens sp)\<rparr>
      else if k = ''max_tokens'' then sp\<lparr>spec_MaxTokens := set_int v (spec_MaxTokens sp)\<rparr>
      else sp)"

fun unmarshal_spec :: "json \<Rightarrow> match_spec" where
  "unmarshal_spec (JObj kvs) = fold set_member kvs empty_spec"
| "unmarshal_spec _ = empty_spec"

lemma unmarshal_marshal_strs:
  "unmarshal_strs (marshal_strs xs) = map utf8_coerce xs"
  by (simp add: marshal_strs_def)

lemma unmarshal_marshal_uints:
  "(\<And>n. n \<in> set ns \<Longrightarrow> n < 2 ^ 64) \<Longrightarrow> unmarshal_uints (marshal_uints ns) = ns"
  by (induction ns) (auto simp: marshal_uints_def)

lemma set_strs_marshal [simp]: "set_strs (marshal_strs xs) old = map utf8_coerce xs"
  by (simp add: marshal_strs_def)

lemma fold_view_keys [simp]:
  "fold_view ''groups'' = ''groups''" "fold_view ''models'' = ''models''"
  "fold_view ''min_tokens'' = ''min_tokens''" "fold_view ''max_tokens'' = ''max_tokens''"
  by code_simp+

lemma set_member_simps [simp]:
  "set_member (''groups'', v) sp = sp\<lparr>spec_Groups := set_strs v (spec_Groups sp)\<rparr>"
  "set_member (''models'', v) sp = sp\<lparr>spec_Models := set_strs v (spec_Models sp)\<rparr>"
  "set_member (''min_tokens'', v) sp = sp\<lparr>spec_MinTokens := set_int v (spec_MinTokens sp)\<rparr>"
  "set_member (''max_tokens'', v) sp = sp\<lparr>spec_MaxTokens := set_int v (spec_MaxTokens sp)\<rparr>"
  by (simp_all only: set_member_def Let_def fst_conv snd_conv fold_view_keys) simp_all

text \<open>What is stored for a match predicate reads back as that predicate.\<close>

lemma unmarshal_marshal_spec:
  assumes "in_int64 (spec_MinTokens sp)" "in_int64 (spec_MaxTokens sp)"
  shows "unmarshal_spec (marshal_spec sp) =
    sp\<lparr>spec_Groups := map utf8_coerce (spec_Groups sp),
       spec_Models := map utf8_coerce (spec_Models sp)\<rparr>"
  using assms
  by (cases sp, cases "spec_Groups sp = []"; cases "spec_Models sp = []";
      cases "spec_MinTokens sp = 0"; cases "spec_MaxTokens sp = 0")
    (simp_all add: marshal_spec_def empty_spec_def)

end
