(* ===== verification/Store.thy ===== *)
theory Store
  imports Records
begin

text \<open>
  The stores the services work on: the PostgreSQL tables, the Redis counters and the
  process's own bookkeeping, in one record \<open>world\<close>, and the primitive operations on it.
  Every database or Redis call may fail; which ones do is the script \<open>w_faults\<close>, consumed
  one entry per call and quantified over by the theorems (an empty script means no further
  failure).  A failing call has no effect.  A table lists its rows in primary-key order.
\<close>

section \<open>Errors\<close>

text \<open>
  The sentinel errors of the packages, with the values \<open>fmt.Errorf\<close> wraps into their messages.
  \<open>ErrText\<close> is any other error, by its text; \<open>GoPanic\<close> is a run-time panic, which the Recover middleware turns into a 500 response.
\<close>

datatype no_candidate =
    NoDetail
  | RuleWithoutChannel string nat string
  | RuleTargetWithoutChannel string nat string string

datatype err =
    ErrDB
  | ErrRedis
  | RedisNil
  | ErrHash
  | ErrRand
  | ErrQuotaTokenNotFound
  | ErrQuotaUserNotFound
  | ErrPriceNotConfigured
  | ErrUserExists
  | ErrInvalidCredential
  | ErrUserDisabled
  | ErrUserNotFound
  | ErrRegisterDisabled
  | ErrInvalidInput
  | ErrCannotDeleteSelf
  | ErrLastAdmin
  | ErrTokenNotFound
  | ErrInvalidToken string
  | ErrRuleNotFound
  | ErrInvalidRule string
  | ErrChannelNotFound
  | ErrInvalidChannel string
  | ErrNoCandidate no_candidate
  | ErrFailoverExhausted
  | ErrText string
  | GoPanic

section \<open>The world\<close>

record world =
  w_users :: "user list"
  w_tokens :: "token_row list"
  w_channels :: "channel list"
  w_rules :: "routing_rule list"
  w_prices :: "model_price list"
  w_options :: "string \<rightharpoonup> string"
  w_logs :: "request_log list"
  w_seq :: "string \<Rightarrow> nat"
  w_redis :: "(string \<rightharpoonup> int) option"
  w_dirtyTokens :: "nat list"
  w_dirtyUsers :: "nat list"
  w_faults :: "bool list"
  w_now :: int

type_synonym 'a db = "(world, err, 'a) comp"

text \<open>\<open>same_data w w'\<close>: the two worlds differ at most in the fault script.\<close>

definition same_data :: "world \<Rightarrow> world \<Rightarrow> bool" where
  "same_data w w' \<longleftrightarrow> w' = w\<lparr>w_faults := w_faults w'\<rparr>"

lemma same_data_refl [simp, intro]: "same_data w w"
  by (simp add: same_data_def)

lemma same_data_trans [trans]: "same_data w v \<Longrightarrow> same_data v u \<Longrightarrow> same_data w u"
  by (cases w, cases v, cases u) (auto simp: same_data_def)

lemma same_data_faults [simp]: "same_data w (w\<lparr>w_faults := fs\<rparr>)"
  by (simp add: same_data_def)

lemma same_dataD:
  assumes "same_data w w'"
  shows "w_users w' = w_users w" "w_tokens w' = w_tokens w" "w_channels w' = w_channels w"
    "w_rules w' = w_rules w" "w_prices w' = w_prices w" "w_options w' = w_options w"
    "w_logs w' = w_logs w" "w_seq w' = w_seq w" "w_redis w' = w_redis w"
    "w_dirtyTokens w' = w_dirtyTokens w" "w_dirtyUsers w' = w_dirtyUsers w"
    "w_now w' = w_now w"
  using assms by (cases w, cases w', simp add: same_data_def)+

section \<open>Calls that may fail\<close>

definition io :: "err \<Rightarrow> unit db" where
  "io e w =
     (case w_faults w of
        [] \<Rightarrow> (Inr (), w)
      | f # fs \<Rightarrow> (if f then Inl e else Inr (), w\<lparr>w_faults := fs\<rparr>))"

definition db_read :: "(world \<Rightarrow> 'a) \<Rightarrow> 'a db" where
  "db_read f = bindM (io ErrDB) (\<lambda>_ w. (Inr (f w), w))"

definition db_write :: "(world \<Rightarrow> world) \<Rightarrow> unit db" where
  "db_write f = bindM (io ErrDB) (\<lambda>_ w. (Inr (), f w))"

text \<open>A write the database refuses (a bigint out of range, a duplicate key) is an error.\<close>

definition db_write_if :: "(world \<Rightarrow> bool) \<Rightarrow> (world \<Rightarrow> world) \<Rightarrow> unit db" where
  "db_write_if ok f = bindM (io ErrDB) (\<lambda>_ w. if ok w then (Inr (), f w) else (Inl ErrDB, w))"

text \<open>A text parameter that PostgreSQL cannot decode makes the query fail.\<close>

definition db_text :: "string \<Rightarrow> (world \<Rightarrow> 'a) \<Rightarrow> 'a db" where
  "db_text s f = bindM (io ErrDB) (\<lambda>_ w. if valid_text s then (Inr (f w), w) else (Inl ErrDB, w))"

text \<open>
  \<open>db.Transaction\<close>: an error of the body, or of the commit, undoes the body's writes (but
  not its use of the id sequences).
\<close>

definition transaction :: "'a db \<Rightarrow> 'a db" where
  "transaction m w =
     (case m w of
        (Inl e, w') \<Rightarrow> (Inl e, w\<lparr>w_faults := w_faults w', w_seq := w_seq w'\<rparr>)
      | (Inr x, w') \<Rightarrow>
          (case io ErrDB w' of
             (Inl e, w2) \<Rightarrow> (Inl e, w\<lparr>w_faults := w_faults w2, w_seq := w_seq w2\<rparr>)
           | (Inr _, w2) \<Rightarrow> (Inr x, w2)))"

text \<open>\<open>try\<close>: the outcome of a call as a value, for callers that go on after a failure.\<close>

definition tryM :: "'a db \<Rightarrow> (err + 'a) db" where
  "tryM m w = (case m w of (r, w') \<Rightarrow> (Inr r, w'))"

section \<open>Redis\<close>

definition redis_val :: "world \<Rightarrow> string \<Rightarrow> int option" where
  "redis_val w k = (case w_redis w of None \<Rightarrow> None | Some m \<Rightarrow> m k)"

definition redis_upd :: "string \<Rightarrow> int option \<Rightarrow> world \<Rightarrow> world" where
  "redis_upd k v w = w\<lparr>w_redis := map_option (\<lambda>m. m(k := v)) (w_redis w)\<rparr>"

text \<open>\<open>GET\<close> of a missing key is the error \<open>redis.Nil\<close>.\<close>

definition redis_get :: "string \<Rightarrow> int db" where
  "redis_get k = bindM (io ErrRedis)
     (\<lambda>_ w. case redis_val w k of None \<Rightarrow> (Inl RedisNil, w) | Some v \<Rightarrow> (Inr v, w))"

definition redis_setnx :: "string \<Rightarrow> int \<Rightarrow> unit db" where
  "redis_setnx k v = bindM (io ErrRedis)
     (\<lambda>_ w. (Inr (), if redis_val w k = None then redis_upd k (Some v) w else w))"

text \<open>\<open>INCRBY\<close> starts from 0 when the key is missing, and refuses to leave the 64-bit range.\<close>

definition redis_incrby :: "string \<Rightarrow> int \<Rightarrow> unit db" where
  "redis_incrby k n = bindM (io ErrRedis)
     (\<lambda>_ w. let v = (case redis_val w k of None \<Rightarrow> 0 | Some v \<Rightarrow> v) + n in
        if in_int64 v then (Inr (), redis_upd k (Some v) w) else (Inl ErrRedis, w))"

definition redis_del :: "string \<Rightarrow> unit db" where
  "redis_del k = bindM (io ErrRedis) (\<lambda>_ w. (Inr (), redis_upd k None w))"

section \<open>Options\<close>

text \<open>\<open>GetOption\<close>: any error of the query gives the default.\<close>

definition GetOption :: "string \<Rightarrow> string \<Rightarrow> string db" where
  "GetOption key dflt =
     bindM (tryM (db_read (\<lambda>w. w_options w key)))
       (\<lambda>r. retM (case r of Inr (Some v) \<Rightarrow> v | _ \<Rightarrow> dflt))"

text \<open>
  \<open>FirstOrCreate\<close> assigns only the non-zero fields of the struct to an existing row, so an
  empty value does not replace a stored one.
\<close>

definition SetOption :: "string \<Rightarrow> string \<Rightarrow> unit db" where
  "SetOption key v =
     bindM (db_read (\<lambda>w. w_options w key))
       (\<lambda>r. if r \<noteq> None \<and> v = [] then retM ()
            else db_write (\<lambda>w. w\<lparr>w_options := (w_options w)(key \<mapsto> v)\<rparr>))"

text \<open>
  \<open>strconv.ParseInt(s, 10, 64)\<close>: an optional sign and decimal digits within range, else an
  error.  \<open>strconv.Atoi\<close> is the same on a 64-bit \<open>int\<close>.
\<close>

definition all_digits :: "string \<Rightarrow> bool" where
  "all_digits s \<longleftrightarrow> s \<noteq> [] \<and> (\<forall>c \<in> set s. 48 \<le> (of_char c :: nat) \<and> (of_char c :: nat) \<le> 57)"

definition ParseInt :: "string \<Rightarrow> int option" where
  "ParseInt s =
     (let neg = prefix ''-'' s; d = (if neg \<or> prefix ''+'' s then tl s else s);
          v = (if neg then - int (undec d) else int (undec d)) in
      if all_digits d \<and> in_int64 v then Some v else None)"

definition OptDefaultUserQuota :: string where "OptDefaultUserQuota = ''DefaultUserQuota''"
definition OptRegisterEnabled :: string where "OptRegisterEnabled = ''RegisterEnabled''"
definition OptRequestLogIO :: string where "OptRequestLogIO = ''RequestLogIO''"

definition DefaultUserQuota :: "int db" where
  "DefaultUserQuota = bindM (GetOption OptDefaultUserQuota ''0'')
     (\<lambda>v. retM (case ParseInt v of None \<Rightarrow> 0 | Some n \<Rightarrow> n))"

section \<open>What the primitives do\<close>

lemma io_data: "io e w = (r, w') \<Longrightarrow> same_data w w'"
  by (auto simp: io_def split: list.splits)

lemma io_cases:
  obtains (ok) fs where "io e w = (Inr (), w\<lparr>w_faults := fs\<rparr>)"
  | (fail) fs where "io e w = (Inl e, w\<lparr>w_faults := fs\<rparr>)"
proof (cases "w_faults w")
  case Nil
  then have "io e w = (Inr (), w\<lparr>w_faults := []\<rparr>)" by (simp add: io_def)
  then show ?thesis by (rule ok)
next
  case (Cons f fs)
  then show ?thesis using ok [of fs] fail [of fs] by (cases f) (simp_all add: io_def)
qed

lemma io_no_faults [simp]: "w_faults w = [] \<Longrightarrow> io e w = (Inr (), w)"
  by (simp add: io_def)

lemma db_read_data: "db_read f w = (r, w') \<Longrightarrow> same_data w w'"
  by (cases rule: io_cases [of ErrDB w]) (auto simp: db_read_def bindM_def)

lemma db_read_Inr:
  assumes "db_read f w = (Inr x, w')" and "\<And>fs. f (w\<lparr>w_faults := fs\<rparr>) = f w"
  shows "x = f w \<and> same_data w w'"
  using assms by (cases rule: io_cases [of ErrDB w]) (auto simp: db_read_def bindM_def)

lemma redis_val_data: "same_data w w' \<Longrightarrow> redis_val w' k = redis_val w k"
  by (simp add: redis_val_def same_dataD)

lemma redis_val_upd [simp]:
  "w_redis w \<noteq> None \<Longrightarrow> redis_val (redis_upd k v w) k' = (if k' = k then v else redis_val w k')"
  by (auto simp: redis_val_def redis_upd_def)

lemma redis_upd_sel [simp]:
  "w_users (redis_upd k v w) = w_users w" "w_tokens (redis_upd k v w) = w_tokens w"
  "w_channels (redis_upd k v w) = w_channels w" "w_rules (redis_upd k v w) = w_rules w"
  "w_prices (redis_upd k v w) = w_prices w" "w_options (redis_upd k v w) = w_options w"
  "w_logs (redis_upd k v w) = w_logs w" "w_faults (redis_upd k v w) = w_faults w"
  "w_dirtyTokens (redis_upd k v w) = w_dirtyTokens w"
  "w_dirtyUsers (redis_upd k v w) = w_dirtyUsers w" "w_now (redis_upd k v w) = w_now w"
  "w_seq (redis_upd k v w) = w_seq w" "w_redis (redis_upd k v w) = None \<longleftrightarrow> w_redis w = None"
  by (simp_all add: redis_upd_def)

lemma db_write_ok [simp]: "w_faults w = [] \<Longrightarrow> db_write f w = (Inr (), f w)"
  by (simp add: db_write_def bindM_def)

lemma db_read_ok [simp]: "w_faults w = [] \<Longrightarrow> db_read f w = (Inr (f w), w)"
  by (simp add: db_read_def bindM_def)

lemma redis_get_ok:
  "w_faults w = [] \<Longrightarrow> redis_get k w =
     (case redis_val w k of None \<Rightarrow> (Inl RedisNil, w) | Some v \<Rightarrow> (Inr v, w))"
  by (simp add: redis_get_def bindM_def)

lemma transaction_error:
  "transaction m w = (Inl e, w') \<Longrightarrow>
     w' = w\<lparr>w_faults := w_faults w', w_seq := w_seq w'\<rparr>"
  by (auto simp: transaction_def split: prod.splits sum.splits)

lemma transaction_ok:
  "transaction m w = (Inr x, w') \<Longrightarrow> \<exists>v. m w = (Inr x, v) \<and> same_data v w'"
  by (auto simp: transaction_def dest: io_data split: prod.splits sum.splits)

lemma GetOption_data: "GetOption k d w = (r, w') \<Longrightarrow> same_data w w'"
  by (auto simp: GetOption_def tryM_def bindM_def dest: db_read_data split: prod.splits sum.splits)

lemma GetOption_no_error: "GetOption k d w = (r, w') \<Longrightarrow> \<exists>v. r = Inr v"
  by (auto simp: GetOption_def tryM_def bindM_def split: prod.splits sum.splits)

section \<open>Relations every statement keeps\<close>

text \<open>
  A relation between worlds that ignores failures, composes, and survives a rollback: what holds of
  every statement holds of every operation composed of them.
\<close>

locale kept =
  fixes R :: "world \<Rightarrow> world \<Rightarrow> bool"
  assumes data: "same_data w w' \<Longrightarrow> R w w'"
    and compose: "R w v \<Longrightarrow> R v u \<Longrightarrow> R w u"
    and rollback: "R w v \<Longrightarrow> R w (w\<lparr>w_faults := w_faults v, w_seq := w_seq v\<rparr>)"
begin

lemma pure: "R w (snd (retM x w))" "R w (snd (failM e w))" "R w (snd (guardM b e w))"
  using data by (cases b; simp)+

lemma call: "R w (snd (io e w))"
  using data io_data by (metis prod.collapse)

lemma bind:
  assumes "\<And>v. R v (snd (m v))" "\<And>x v. R v (snd (f x v))"
  shows "R w (snd (bindM m f w))"
proof -
  obtain r v where m: "m w = (r, v)" by fastforce
  with assms(1) [of w] have "R w v" by simp
  with m assms(2) compose show ?thesis by (cases r) (auto simp: bindM_def)
qed

lemma seqn: "(\<And>v. R v (snd (m v))) \<Longrightarrow> (\<And>v. R v (snd (n v))) \<Longrightarrow> R w (snd (seqM m n w))"
  unfolding seqM_def by (rule bind)

lemma attempt: "(\<And>v. R v (snd (m v))) \<Longrightarrow> R w (snd (tryM m w))"
  by (simp add: tryM_def split: prod.split) (metis snd_conv)

lemma read: "R w (snd (db_read f w))"
  using data db_read_data by (metis prod.collapse)

lemma read_text: "R w (snd (db_text s f w))"
  using data by (cases rule: io_cases [of ErrDB w]) (auto simp: db_text_def bindM_def)

lemma setting: "R w (snd (GetOption k d w))"
  using data GetOption_data by (metis prod.collapse)

lemma stores: "(\<And>v. R v (f v)) \<Longrightarrow> R w (snd (db_write f w))"
  unfolding db_write_def by (rule bind) (simp_all add: call)

lemma write_if: "(\<And>v. ok v \<Longrightarrow> R v (f v)) \<Longrightarrow> R w (snd (db_write_if ok f w))"
  unfolding db_write_if_def by (rule bind) (auto simp: call data)

lemma atomic:
  assumes "\<And>v. R v (snd (m v))"
  shows "R w (snd (transaction m w))"
proof -
  obtain r v where m: "m w = (r, v)" by fastforce
  with assms [of w] have R: "R w v" by simp
  obtain c u where c: "io ErrDB v = (c, u)" by fastforce
  then have "R w u" using R compose data io_data by blast
  with m c R rollback show ?thesis by (cases r; cases c) (auto simp: transaction_def)
qed

lemma branch:
  "(b \<Longrightarrow> R w (snd (m w))) \<Longrightarrow> (\<not> b \<Longrightarrow> R w (snd (n w))) \<Longrightarrow> R w (snd ((if b then m else n) w))"
  "(\<And>x. o1 = Some x \<Longrightarrow> R w (snd (f x w))) \<Longrightarrow> (o1 = None \<Longrightarrow> R w (snd (n w))) \<Longrightarrow>
     R w (snd ((case o1 of None \<Rightarrow> n | Some x \<Rightarrow> f x) w))"
  "(\<And>x. s = Inl x \<Longrightarrow> R w (snd (g x w))) \<Longrightarrow> (\<And>y. s = Inr y \<Longrightarrow> R w (snd (h y w))) \<Longrightarrow>
     R w (snd ((case s of Inl x \<Rightarrow> g x | Inr y \<Rightarrow> h y) w))"
  by (simp_all split: option.split sum.split)

lemmas rules = pure call bind seqn attempt read read_text setting atomic branch

end

end
