(* ===== verification/Router.thy ===== *)
theory Router
  imports Expr Store
begin

text \<open>
  The routing engine, \<open>router/engine.go\<close>: rule matching (groups, model globs, token bounds,
  expressions), candidate channels, weighted load balancing, the failover cursor, and
  \<open>SelectChannelCtx\<close>.  The classifier is a parameter (\<open>probe\<close>), as is the random number
  generator: \<open>intn k n\<close> is the result of the k-th call \<open>rand.Intn(n)\<close> of a selection.
\<close>

section \<open>Matching a model name against a pattern\<close>

fun match_mids :: "string list \<Rightarrow> string \<Rightarrow> bool" where
  "match_mids [] s = True"
| "match_mids (mid # mids) s =
     (if mid = [] then match_mids mids s
      else case str_index s mid of
        None \<Rightarrow> False
      | Some idx \<Rightarrow> match_mids mids (drop (idx + length mid) s))"

definition wildcardMatch :: "string \<Rightarrow> string \<Rightarrow> bool" where
  "wildcardMatch pattern s =
     (let parts = split_char CHR ''*'' pattern; first = hd parts; last_part = last parts in
      if first \<noteq> [] \<and> \<not> prefix first s then False
      else
        let s = drop (length first) s in
        if last_part \<noteq> [] \<and> \<not> suffix last_part s then False
        else
          let s = take (length s - length last_part) s in
          match_mids (butlast (tl parts)) s)"

definition modelMatches :: "string \<Rightarrow> string \<Rightarrow> bool" where
  "modelMatches pattern requestedModel =
     (if pattern = requestedModel then True
      else if \<not> str_contains pattern ''*'' then False
      else wildcardMatch pattern requestedModel)"

definition anyModelMatches :: "string list \<Rightarrow> string \<Rightarrow> bool" where
  "anyModelMatches patterns requestedModel = list_ex (\<lambda>p. modelMatches p requestedModel) patterns"

definition containsString :: "string list \<Rightarrow> string \<Rightarrow> bool" where
  "containsString haystack needle = list_ex (\<lambda>s. s = needle) haystack"

section \<open>Rules\<close>

definition decodeMatch :: "json option \<Rightarrow> match_spec" where
  "decodeMatch raw = (case raw of None \<Rightarrow> empty_spec | Some j \<Rightarrow> unmarshal_spec j)"

definition decodeIDs :: "json option \<Rightarrow> nat list" where
  "decodeIDs raw = (case raw of None \<Rightarrow> [] | Some j \<Rightarrow> unmarshal_uints j)"

definition decodeModels :: "json option \<Rightarrow> string list" where
  "decodeModels raw = (case raw of None \<Rightarrow> [] | Some j \<Rightarrow> unmarshal_strs j)"

definition decodeMapping :: "json option \<Rightarrow> string \<rightharpoonup> string" where
  "decodeMapping raw = (case raw of None \<Rightarrow> Map.empty | Some j \<Rightarrow> unmarshal_map j)"

definition ruleMatches :: "match_spec \<Rightarrow> string \<Rightarrow> string \<Rightarrow> int \<Rightarrow> bool" where
  "ruleMatches spec grp requestedModel estTokens =
     (if spec_Groups spec \<noteq> [] \<and> \<not> containsString (spec_Groups spec) grp then False
      else if spec_Models spec \<noteq> [] \<and> \<not> anyModelMatches (spec_Models spec) requestedModel then False
      else if spec_MinTokens spec > 0 \<and> estTokens < spec_MinTokens spec then False
      else if spec_MaxTokens spec > 0 \<and> estTokens > spec_MaxTokens spec then False
      else True)"

text \<open>The rule and its program; a stored expression that does not compile has none.\<close>

fun matchRuleExpr ::
  "routing_rule list \<Rightarrow> program option list \<Rightarrow> string \<Rightarrow> string \<Rightarrow> int \<Rightarrow> vars \<Rightarrow>
     (routing_rule \<times> program option) option" where
  "matchRuleExpr (r # rules) (p # progs) grp requestedModel estTokens vs =
     (if \<not> ruleMatches (decodeMatch (rule_Match r)) grp requestedModel estTokens then
        matchRuleExpr rules progs grp requestedModel estTokens vs
      else if trim_space (rule_Expr r) \<noteq> [] \<and> (p = None \<or> \<not> Eval p vs) then
        matchRuleExpr rules progs grp requestedModel estTokens vs
      else Some (r, p))"
| "matchRuleExpr _ _ _ _ _ _ = None"

definition matchRule ::
  "routing_rule list \<Rightarrow> string \<Rightarrow> string \<Rightarrow> int \<Rightarrow> routing_rule option" where
  "matchRule rules grp requestedModel estTokens =
     map_option fst (matchRuleExpr rules (replicate (length rules) None) grp requestedModel
       estTokens \<lparr>vars_Int = Map.empty, vars_Str = Map.empty\<rparr>)"

text \<open>The SQL order \<open>priority asc, id asc\<close> as a linear order on keys.\<close>

datatype prio_key = PrioKey int nat

instantiation prio_key :: linorder
begin

fun less_eq_prio_key :: "prio_key \<Rightarrow> prio_key \<Rightarrow> bool" where
  "less_eq_prio_key (PrioKey p i) (PrioKey q j) = (p < q \<or> (p = q \<and> i \<le> j))"

definition less_prio_key :: "prio_key \<Rightarrow> prio_key \<Rightarrow> bool" where
  "less_prio_key x y = (x \<le> y \<and> \<not> y \<le> (x :: prio_key))"

instance
proof
  fix x y z :: prio_key
  show "(x < y) = (x \<le> y \<and> \<not> y \<le> x)" by (rule less_prio_key_def)
  show "x \<le> x" by (cases x) simp
  show "x \<le> y \<Longrightarrow> y \<le> z \<Longrightarrow> x \<le> z" by (cases x; cases y; cases z) auto
  show "x \<le> y \<Longrightarrow> y \<le> x \<Longrightarrow> x = y" by (cases x; cases y) auto
  show "x \<le> y \<or> y \<le> x" by (cases x; cases y) auto
qed

end

definition rule_key :: "routing_rule \<Rightarrow> prio_key" where
  "rule_key r = PrioKey (rule_Priority r) (rule_ID r)"

definition enabledRulesByPriority :: "routing_rule list db" where
  "enabledRulesByPriority = db_read (\<lambda>w. sort_key rule_key (filter rule_Enabled (w_rules w)))"

section \<open>Candidate channels\<close>

definition channelServes :: "channel \<Rightarrow> string \<Rightarrow> bool" where
  "channelServes ch wantModel =
     (if list_ex (\<lambda>m. m = wantModel) (decodeModels (ch_Models ch)) then True
      else decodeMapping (ch_ModelMapping ch) wantModel \<noteq> None)"

definition allow_ids :: "routing_rule option \<Rightarrow> nat list" where
  "allow_ids rule = (case rule of None \<Rightarrow> [] | Some r \<Rightarrow> decodeIDs (rule_TargetChannelIDs r))"

definition allow_group :: "routing_rule option \<Rightarrow> string" where
  "allow_group rule = (case rule of None \<Rightarrow> [] | Some r \<Rightarrow> trim_space (rule_TargetGroup r))"

definition keep_channel :: "routing_rule option \<Rightarrow> string \<Rightarrow> channel \<Rightarrow> bool" where
  "keep_channel rule effectiveModel ch =
     (let ids = allow_ids rule; grp = allow_group rule; targetsPinned = (ids \<noteq> [] \<or> grp \<noteq> []) in
      if ids \<noteq> [] \<and> ch_ID ch \<notin> set ids then False
      else if ids = [] \<and> grp \<noteq> [] \<and> ch_Group ch \<noteq> grp then False
      else if \<not> targetsPinned \<and> \<not> channelServes ch effectiveModel then False
      else True)"

definition candidateChannels :: "routing_rule option \<Rightarrow> string \<Rightarrow> channel list db" where
  "candidateChannels rule effectiveModel =
     bindM (db_read (\<lambda>w. filter (\<lambda>ch. ch_Status ch = ChannelEnabled) (w_channels w)))
       (\<lambda>channels. retM (filter (keep_channel rule effectiveModel) channels))"

definition UpstreamModel :: "channel \<Rightarrow> string \<Rightarrow> string" where
  "UpstreamModel ch externalModel =
     (case decodeMapping (ch_ModelMapping ch) externalModel of
        Some upstream \<Rightarrow> if upstream \<noteq> [] then upstream else externalModel
      | None \<Rightarrow> externalModel)"

section \<open>Load balancing\<close>

definition effectiveWeight :: "int \<Rightarrow> int" where
  "effectiveWeight w = (if w \<le> 0 then 1 else w)"

definition weight_of :: "channel \<Rightarrow> int" where
  "weight_of ch = effectiveWeight (ch_Weight ch)"

definition total_weight :: "channel list \<Rightarrow> int" where
  "total_weight pool = fold (\<lambda>ch total. wrap64 (total + weight_of ch)) pool 0"

text \<open>The index at which the running subtraction first drops below zero, 0 if it never does.\<close>

fun pick_from :: "nat \<Rightarrow> channel list \<Rightarrow> int \<Rightarrow> nat" where
  "pick_from i [] pick = 0"
| "pick_from i (ch # pool) pick =
     (let pick = pick - weight_of ch in if pick < 0 then i else pick_from (Suc i) pool pick)"

text \<open>\<open>None\<close> is the panic of \<open>rand.Intn\<close> on a non-positive argument.\<close>

function weightedShuffle ::
  "(nat \<Rightarrow> int \<Rightarrow> int) \<Rightarrow> nat \<Rightarrow> channel list \<Rightarrow> channel list option" where
  "weightedShuffle intn k pool =
     (if pool = [] then Some []
      else
        let total = total_weight pool in
        if total \<le> 0 then None
        else
          let idx = pick_from 0 pool (intn k total) in
          if idx < length pool then
            map_option (\<lambda>out. pool ! idx # out)
              (weightedShuffle intn (Suc k) (take idx pool @ drop (Suc idx) pool))
          else None)"
  by pat_completeness auto
termination
  by (relation "measure (\<lambda>(intn, k, pool). length pool)") auto

declare weightedShuffle.simps [simp del]

fun shuffle_buckets ::
  "(nat \<Rightarrow> int \<Rightarrow> int) \<Rightarrow> nat \<Rightarrow> channel list \<Rightarrow> int list \<Rightarrow> channel list option" where
  "shuffle_buckets intn k chs [] = Some []"
| "shuffle_buckets intn k chs (p # ps) =
     (let bucket = filter (\<lambda>ch. ch_Priority ch = p) chs in
      case weightedShuffle intn k bucket of
        None \<Rightarrow> None
      | Some out \<Rightarrow> map_option ((@) out) (shuffle_buckets intn (k + length bucket) chs ps))"

definition loadBalanceOrder ::
  "(nat \<Rightarrow> int \<Rightarrow> int) \<Rightarrow> channel list \<Rightarrow> channel list option" where
  "loadBalanceOrder intn candidates =
     (if length candidates \<le> 1 then Some candidates
      else shuffle_buckets intn 0 candidates
        (rev (sort (remdups (map ch_Priority candidates)))))"

section \<open>The selection and its failover cursor\<close>

record probe_result =
  pr_W :: int
  pr_T :: int
  pr_Name :: string
  pr_Err :: string

record selection =
  sel_Rule :: "routing_rule option"
  sel_Model :: string
  sel_Probe :: "probe_result option"
  sel_effectiveModel :: string
  sel_candidates :: "channel list"
  sel_maxRetries :: int
  sel_cursor :: nat

definition EffectiveModel :: "selection \<Rightarrow> string" where
  "EffectiveModel s = (if sel_effectiveModel s \<noteq> [] then sel_effectiveModel s else sel_Model s)"

definition next_channel :: "selection \<Rightarrow> (err + channel) \<times> selection" where
  "next_channel s =
     (if length (sel_candidates s) \<le> sel_cursor s \<or> sel_maxRetries s \<le> int (sel_cursor s) then
        (Inl ErrFailoverExhausted, s)
      else (Inr (sel_candidates s ! sel_cursor s), s\<lparr>sel_cursor := Suc (sel_cursor s)\<rparr>))"

definition DefaultMaxRetries :: int where "DefaultMaxRetries = 3"
definition OptMaxRetries :: string where "OptMaxRetries = ''RouterMaxRetries''"

definition maxRetries :: "int db" where
  "maxRetries = bindM (GetOption OptMaxRetries [])
     (\<lambda>v. retM (case ParseInt (trim_space v) of
        Some n \<Rightarrow> if n > 0 then n else DefaultMaxRetries
      | None \<Rightarrow> DefaultMaxRetries))"

section \<open>Selecting a channel\<close>

record route_input =
  ri_Group :: string
  ri_Model :: string
  ri_EstTokens :: int
  ri_Prompt :: string

text \<open>A probe: its name and, for a prompt, an error message or the pair (w, t).\<close>

record probe =
  probe_Name :: string
  probe_Predict :: "string \<Rightarrow> string + (int \<times> int)"

definition compile_rule :: "routing_rule \<Rightarrow> program option" where
  "compile_rule r = (case Compile (rule_Expr r) of Inl _ \<Rightarrow> None | Inr p \<Rightarrow> Some p)"

definition needs_probe :: "program option \<Rightarrow> bool" where
  "needs_probe p \<longleftrightarrow> References p ''w'' \<or> References p ''t''"

definition base_vars :: "route_input \<Rightarrow> vars" where
  "base_vars inp =
     \<lparr>vars_Int = [''tokens'' \<mapsto> ri_EstTokens inp],
      vars_Str = [''group'' \<mapsto> ri_Group inp, ''model'' \<mapsto> ri_Model inp]\<rparr>"

definition run_probe ::
  "probe option \<Rightarrow> bool \<Rightarrow> route_input \<Rightarrow> probe_result option \<times> vars" where
  "run_probe pb needProbe inp =
     (case (needProbe, pb) of
        (True, Some p) \<Rightarrow>
          (case probe_Predict p (ri_Prompt inp) of
             Inr (w, t) \<Rightarrow>
               (Some \<lparr>pr_W = w, pr_T = t, pr_Name = probe_Name p, pr_Err = []\<rparr>,
                (base_vars inp)\<lparr>vars_Int := (vars_Int (base_vars inp))(''w'' \<mapsto> w, ''t'' \<mapsto> t)\<rparr>)
           | Inl e \<Rightarrow>
               (Some \<lparr>pr_W = 0, pr_T = 0, pr_Name = probe_Name p, pr_Err = e\<rparr>, base_vars inp))
      | _ \<Rightarrow> (None, base_vars inp))"

definition effective_model :: "routing_rule option \<Rightarrow> string \<Rightarrow> string" where
  "effective_model matched requested =
     (case matched of
        None \<Rightarrow> requested
      | Some r \<Rightarrow> (let target = trim_space (rule_TargetModel r) in
          if target \<noteq> [] then target else requested))"

definition no_candidate_error :: "routing_rule option \<Rightarrow> string \<Rightarrow> err" where
  "no_candidate_error matched requested = ErrNoCandidate
     (case matched of
        None \<Rightarrow> NoDetail
      | Some r \<Rightarrow> (let target = trim_space (rule_TargetModel r) in
          if target \<noteq> [] then RuleTargetWithoutChannel (rule_Name r) (rule_ID r) target requested
          else RuleWithoutChannel (rule_Name r) (rule_ID r) requested))"

definition SelectChannelCtx ::
  "(nat \<Rightarrow> int \<Rightarrow> int) \<Rightarrow> probe option \<Rightarrow> route_input \<Rightarrow> selection db" where
  "SelectChannelCtx intn pb inp =
     bindM enabledRulesByPriority (\<lambda>rules.
       let progs = map compile_rule rules;
           needProbe = list_ex needs_probe progs;
           (probeResult, exprVars) = run_probe pb needProbe inp;
           matched = map_option fst
             (matchRuleExpr rules progs (ri_Group inp) (ri_Model inp) (ri_EstTokens inp) exprVars);
           effectiveModel = effective_model matched (ri_Model inp)
       in bindM (candidateChannels matched effectiveModel) (\<lambda>candidates.
         if candidates = [] then failM (no_candidate_error matched (ri_Model inp))
         else case loadBalanceOrder intn candidates of
           None \<Rightarrow> failM GoPanic
         | Some ordered \<Rightarrow>
             bindM maxRetries (\<lambda>n.
               retM \<lparr>sel_Rule = matched, sel_Model = ri_Model inp, sel_Probe = probeResult,
                     sel_effectiveModel = effectiveModel, sel_candidates = ordered,
                     sel_maxRetries = n, sel_cursor = 0\<rparr>)))"

definition SelectChannel ::
  "(nat \<Rightarrow> int \<Rightarrow> int) \<Rightarrow> probe option \<Rightarrow> string \<Rightarrow> string \<Rightarrow> int \<Rightarrow> selection db" where
  "SelectChannel intn pb grp requestedModel estTokens =
     SelectChannelCtx intn pb
       \<lparr>ri_Group = grp, ri_Model = requestedModel, ri_EstTokens = estTokens, ri_Prompt = []\<rparr>"

section \<open>The prompt given to the probe\<close>

definition maxProbePromptChars :: nat where "maxProbePromptChars = 16000"
definition maxProbeTurnChars :: nat where "maxProbeTurnChars = 4000"

definition trunc_marker :: string where
  "trunc_marker = [CHR 0xE2, CHR 0x80, CHR 0xA6] @ ''[truncated]'' @ [CHR 0xE2, CHR 0x80, CHR 0xA6]"

definition truncateMiddle :: "string \<Rightarrow> nat \<Rightarrow> string" where
  "truncateMiddle s mx =
     (let r = runes s in
      if length r \<le> mx then s
      else
        let keep = int mx - int (length (runes trunc_marker)) in
        if keep < 2 then unrunes (take mx r)
        else
          let headN = nat (keep div 2); tailN = nat keep - headN in
          unrunes (take headN r) @ trunc_marker @ unrunes (drop (length r - tailN) r))"

definition nl :: string where "nl = [CHR 0x0A]"

definition renderTurn :: "string \<Rightarrow> string \<Rightarrow> string" where
  "renderTurn role txt =
     ''<|im_start|>'' @ role @ nl @ truncateMiddle txt maxProbeTurnChars @ ''<|im_end|>'' @ nl"

definition open_turn :: string where "open_turn = ''<|im_start|>assistant'' @ nl"

text \<open>The walk from the newest turn to the oldest; the turns it keeps are newest first.\<close>

fun walk_turns ::
  "nat \<Rightarrow> (string \<times> string) list \<Rightarrow> string list \<Rightarrow> nat \<Rightarrow> string list \<times> nat" where
  "walk_turns budget [] rendered used = (rendered, used)"
| "walk_turns budget ((role, txt) # older) rendered used =
     (let seg = renderTurn role txt in
      if used + length seg > budget \<and> rendered \<noteq> [] then (rendered, used)
      else walk_turns budget older (rendered @ [seg]) (used + length seg))"

definition RenderProbePrompt :: "string \<Rightarrow> (string \<times> string) list \<Rightarrow> string" where
  "RenderProbePrompt system turns =
     (let head_seg = (if trim_space system \<noteq> [] then renderTurn ''system'' system else []);
          budget = maxProbePromptChars - length open_turn;
          (rendered, used) = walk_turns budget (rev turns) [] 0
      in (if head_seg \<noteq> [] \<and> used + length head_seg \<le> budget then head_seg else [])
         @ concat (rev rendered) @ open_turn)"

section \<open>The mock probe\<close>

definition writeKeywords :: "string list" where
  "writeKeywords =
     [''tool'', ''function'', ''write'', ''create'', ''edit'',
      [CHR 0xE4, CHR 0xBF, CHR 0xAE, CHR 0xE6, CHR 0x94, CHR 0xB9], [CHR 0xE5, CHR 0x86, CHR 0x99],
      [CHR 0xE5, CHR 0xB7, CHR 0xA5, CHR 0xE5, CHR 0x85, CHR 0xB7],
      [CHR 0xE8, CHR 0xB0, CHR 0x83, CHR 0xE7, CHR 0x94, CHR 0xA8],
      ''insert'', ''update'', ''delete'', ''patch'',
      [CHR 0xE7, CHR 0x94, CHR 0x9F, CHR 0xE6, CHR 0x88, CHR 0x90],
      [CHR 0xE6, CHR 0x96, CHR 0xB0, CHR 0xE5, CHR 0xA2, CHR 0x9E]]"

definition mock_predict :: "(int \<times> int) option \<Rightarrow> string \<Rightarrow> int \<times> int" where
  "mock_predict fixed prompt =
     (case fixed of
        Some p \<Rightarrow> p
      | None \<Rightarrow>
          let w = (if list_ex (str_contains (lower_view prompt)) writeKeywords then 1 else 0);
              t = int (length prompt) div 4;
              t = (if t < 16 then 16 else t);
              t = (if t > 4096 then 4096 else t)
          in (w, t))"

definition MockProbe :: "(int \<times> int) option \<Rightarrow> probe" where
  "MockProbe fixed = \<lparr>probe_Name = ''mock'', probe_Predict = (\<lambda>prompt. Inr (mock_predict fixed prompt))\<rparr>"

section \<open>Glob patterns\<close>

text \<open>
  The meaning of a pattern: \<open>*\<close> matches any run of characters, every other character itself.
\<close>

fun glob :: "string \<Rightarrow> string \<Rightarrow> bool" where
  "glob [] s = (s = [])"
| "glob (c # p) s =
     (if c = CHR ''*'' then list_ex (\<lambda>k. glob p (drop k s)) [0..<Suc (length s)]
      else case s of [] \<Rightarrow> False | d # t \<Rightarrow> c = d \<and> glob p t)"

fun glob_parts :: "string list \<Rightarrow> string \<Rightarrow> bool" where
  "glob_parts [] s = (s = [])"
| "glob_parts [p] s = (s = p)"
| "glob_parts (p # q # ps) s = (\<exists>a b. s = p @ a @ b \<and> glob_parts (q # ps) b)"

fun subs_in_order :: "string list \<Rightarrow> string \<Rightarrow> bool" where
  "subs_in_order [] x = True"
| "subs_in_order (m # ms) x = (\<exists>a b. x = a @ m @ b \<and> subs_in_order ms b)"

lemma glob_star: "glob (CHR ''*'' # p) s \<longleftrightarrow> (\<exists>a b. s = a @ b \<and> glob p b)"
proof -
  have "glob (CHR ''*'' # p) s \<longleftrightarrow> (\<exists>k \<le> length s. glob p (drop k s))"
    by (auto simp: list_ex_iff less_Suc_eq_le simp del: upt_Suc)
  also have "\<dots> \<longleftrightarrow> (\<exists>a b. s = a @ b \<and> glob p b)"
    by (metis append_eq_conv_conj append_take_drop_id le_add1 length_append)
  finally show ?thesis .
qed

lemma glob_parts_Cons:
  "glob_parts ((c # p) # ps) s \<longleftrightarrow> (\<exists>t. s = c # t \<and> glob_parts (p # ps) t)"
  by (cases ps) auto

text \<open>The same by segments: the text between two literal segments is arbitrary.\<close>

lemma glob_eq_parts: "glob p s = glob_parts (split_char CHR ''*'' p) s"
proof (induction p arbitrary: s)
  case Nil
  then show ?case by simp
next
  case (Cons c p)
  obtain q qs where sp: "split_char CHR ''*'' p = q # qs"
    using split_char_ne by (metis list.exhaust)
  show ?case
  proof (cases "c = CHR ''*''")
    case True
    with Cons.IH sp show ?thesis by (simp add: glob_star del: glob.simps)
  next
    case False
    with Cons.IH sp show ?thesis by (auto simp: glob_parts_Cons split: list.splits)
  qed
qed

lemma subs_in_order_append: "subs_in_order ms x \<Longrightarrow> subs_in_order ms (y @ x)"
  by (cases ms) (auto, metis append.assoc)

lemma glob_parts_mids:
  "glob_parts (p # ms @ [l]) s \<longleftrightarrow> (\<exists>x. s = p @ x @ l \<and> subs_in_order ms x)"
proof (induction ms arbitrary: p s)
  case Nil
  then show ?case by auto
next
  case (Cons m ms)
  have "glob_parts (p # (m # ms) @ [l]) s
      \<longleftrightarrow> (\<exists>a x. s = p @ a @ m @ x @ l \<and> subs_in_order ms x)"
    using Cons.IH [of m] by auto
  also have "\<dots> \<longleftrightarrow> (\<exists>x. s = p @ x @ l \<and> subs_in_order (m # ms) x)"
    by (simp, metis append.assoc)
  finally show ?case .
qed

text \<open>Taking the leftmost occurrence of every middle segment loses no match.\<close>

lemma match_mids_correct: "match_mids ms s \<longleftrightarrow> subs_in_order ms s"
proof (induction ms s rule: match_mids.induct)
  case (1 s)
  then show ?case by simp
next
  case (2 m ms s)
  show ?case
  proof (cases "m = []")
    case True
    have "subs_in_order (m # ms) s \<longleftrightarrow> subs_in_order ms s"
      using True subs_in_order_append [of ms] by (auto intro: exI [of _ "[]"])
    with True 2 show ?thesis by simp
  next
    case ne: False
    show ?thesis
    proof (cases "str_index s m")
      case None
      have "\<not> subs_in_order (m # ms) s"
      proof
        assume "subs_in_order (m # ms) s"
        then obtain a b where "s = a @ m @ b" by auto
        then have "prefix m (drop (length a) s)" by simp
        with str_index_None [OF None] show False by blast
      qed
      with None ne show ?thesis by simp
    next
      case (Some i)
      have IH: "match_mids ms (drop (i + length m) s) = subs_in_order ms (drop (i + length m) s)"
        using 2 ne Some by simp
      have pre: "prefix m (drop i s)" "i + length m \<le> length s"
        using str_index_Some [OF Some] by auto
      then have s: "s = take i s @ m @ drop (i + length m) s"
        by (metis append_eq_conv_conj append_take_drop_id drop_drop prefixE add.commute)
      have "subs_in_order ms (drop (i + length m) s)" if "s = a @ m @ b" "subs_in_order ms b" for a b
      proof -
        have "prefix m (drop (length a) s)" using that(1) by simp
        with str_index_least [OF Some] have "i \<le> length a" by (meson not_le)
        then have "drop (i + length m) s = drop (i + length m) (a @ m) @ b"
          using that(1) by simp
        with subs_in_order_append [OF that(2)] show ?thesis by metis
      qed
      then have "subs_in_order (m # ms) s \<longleftrightarrow> subs_in_order ms (drop (i + length m) s)"
        using s by (simp only: subs_in_order.simps) blast
      with IH Some ne show ?thesis by simp
    qed
  qed
qed

lemma wildcardMatch_glob:
  assumes "CHR ''*'' \<in> set p"
  shows "wildcardMatch p s = glob p s"
proof -
  have "length (split_char CHR ''*'' p) \<ge> 2"
    using assms by (simp add: length_split_char) (metis count_list_0_iff not_less_eq_eq le_0_eq)
  then obtain f q qs where "split_char CHR ''*'' p = f # q # qs"
    by (metis (no_types) Suc_le_length_iff numeral_2_eq_2)
  then obtain ms l where sp: "split_char CHR ''*'' p = f # ms @ [l]"
    by (metis append_butlast_last_id list.distinct(1))
  have "wildcardMatch p s \<longleftrightarrow>
      prefix f s \<and> suffix l (drop (length f) s)
      \<and> match_mids ms (take (length s - length f - length l) (drop (length f) s))"
    by (auto simp: wildcardMatch_def sp Let_def butlast_append)
  also have "\<dots> \<longleftrightarrow> (\<exists>x. s = f @ x @ l \<and> subs_in_order ms x)"
    by (auto simp: match_mids_correct prefix_def suffix_def)
  finally show ?thesis by (simp add: glob_eq_parts sp glob_parts_mids)
qed

lemma glob_literal: "CHR ''*'' \<notin> set p \<Longrightarrow> glob p s \<longleftrightarrow> s = p"
  by (simp add: glob_eq_parts)

lemma glob_self: "glob p p"
proof (induction p)
  case (Cons c p)
  then show ?case by (cases "c = CHR ''*''") (auto simp: glob_star simp del: glob.simps(2) intro: exI [of _ "[CHR ''*'']"], simp)
qed simp

lemma str_contains_char: "str_contains s [c] \<longleftrightarrow> c \<in> set s"
  by (induction s) (auto simp: str_contains_def)

lemma modelMatches_iff: "modelMatches p m = glob p m"
  using glob_self [of p] glob_literal [of p m] wildcardMatch_glob [of p m]
  by (auto simp: modelMatches_def str_contains_char)

section \<open>Rule matching\<close>

definition rule_applies :: "route_input \<Rightarrow> vars \<Rightarrow> routing_rule \<Rightarrow> bool" where
  "rule_applies inp vs r \<longleftrightarrow>
     ruleMatches (decodeMatch (rule_Match r)) (ri_Group inp) (ri_Model inp) (ri_EstTokens inp)
     \<and> (trim_space (rule_Expr r) = []
        \<or> (case Compile (rule_Expr r) of Inl _ \<Rightarrow> False | Inr p \<Rightarrow> Eval (Some p) vs))"

lemma ruleMatches_iff:
  "ruleMatches spec grp m est \<longleftrightarrow>
     (spec_Groups spec = [] \<or> grp \<in> set (spec_Groups spec))
     \<and> (spec_Models spec = [] \<or> (\<exists>p \<in> set (spec_Models spec). glob p m))
     \<and> (spec_MinTokens spec > 0 \<longrightarrow> spec_MinTokens spec \<le> est)
     \<and> (spec_MaxTokens spec > 0 \<longrightarrow> est \<le> spec_MaxTokens spec)"
  by (auto simp: ruleMatches_def containsString_def anyModelMatches_def list_ex_iff
      modelMatches_iff)

lemma matchRuleExpr_find:
  "matchRuleExpr rules (map compile_rule rules) (ri_Group inp) (ri_Model inp) (ri_EstTokens inp) vs
   = map_option (\<lambda>r. (r, compile_rule r)) (find (rule_applies inp vs) rules)"
proof (induction rules)
  case (Cons r rules)
  then show ?case
    by (cases "Compile (rule_Expr r)") (simp_all add: rule_applies_def compile_rule_def)
qed simp

text \<open>The rule found in the sorted list is the least applicable one.\<close>

lemma find_sort_key:
  fixes f :: "'a \<Rightarrow> 'k :: linorder"
  assumes "find P (sort_key f xs) = Some x"
  shows "x \<in> set xs \<and> P x \<and> (\<forall>y \<in> set xs. P y \<longrightarrow> f x \<le> f y)"
proof -
  let ?ys = "sort_key f xs"
  from assms obtain i where i: "i < length ?ys" "P (?ys ! i)" "x = ?ys ! i"
      "\<forall>j < i. \<not> P (?ys ! j)"
    by (auto simp: find_Some_iff)
  have "f x \<le> f y" if y: "y \<in> set xs" "P y" for y
  proof -
    from y(1) obtain j where j: "j < length ?ys" "?ys ! j = y"
      by (metis in_set_conv_nth set_sort)
    with i y(2) have "i \<le> j" by (metis not_less)
    then have "map f ?ys ! i \<le> map f ?ys ! j"
      using sorted_nth_mono [OF sorted_sort_key, of i j f xs] j(1) by simp
    with i j show ?thesis by simp
  qed
  moreover have "x \<in> set xs" using i by (metis nth_mem set_sort)
  ultimately show ?thesis using i by blast
qed

definition first_rule ::
  "route_input \<Rightarrow> vars \<Rightarrow> routing_rule list \<Rightarrow> routing_rule option" where
  "first_rule inp vs rules = find (rule_applies inp vs) (sort_key rule_key (filter rule_Enabled rules))"

lemma first_rule_Some:
  "first_rule inp vs rules = Some r \<Longrightarrow>
     r \<in> set rules \<and> rule_Enabled r \<and> rule_applies inp vs r
     \<and> (\<forall>q \<in> set rules. rule_Enabled q \<longrightarrow> rule_applies inp vs q \<longrightarrow> rule_key r \<le> rule_key q)"
  unfolding first_rule_def by (drule find_sort_key) auto

lemma first_rule_None:
  "first_rule inp vs rules = None \<longleftrightarrow>
     (\<forall>r \<in> set rules. rule_Enabled r \<longrightarrow> \<not> rule_applies inp vs r)"
  by (auto simp: first_rule_def find_None_iff)

section \<open>Weighted choice\<close>

definition rand_ok :: "(nat \<Rightarrow> int \<Rightarrow> int) \<Rightarrow> bool" where
  "rand_ok intn \<longleftrightarrow> (\<forall>k n. 0 < n \<longrightarrow> 0 \<le> intn k n \<and> intn k n < n)"

definition sum_weights :: "channel list \<Rightarrow> int" where
  "sum_weights pool = sum_list (map weight_of pool)"

lemma weight_pos [simp]: "0 < weight_of ch"
  by (simp add: weight_of_def effectiveWeight_def)

lemma weight_ge1: "1 \<le> weight_of ch"
  by (simp add: weight_of_def effectiveWeight_def)

lemma sum_weights_nonneg: "0 \<le> sum_weights pool"
  unfolding sum_weights_def by (rule sum_list_nonneg) (auto simp: less_imp_le)

lemma sum_weights_pos: "pool \<noteq> [] \<Longrightarrow> 0 < sum_weights pool"
  using sum_weights_nonneg by (cases pool) (auto simp: sum_weights_def add_pos_nonneg)

lemma total_weight_acc:
  "0 \<le> acc \<Longrightarrow> acc + sum_weights pool < 2 ^ 63 \<Longrightarrow>
     fold (\<lambda>ch total. wrap64 (total + weight_of ch)) pool acc = acc + sum_weights pool"
proof (induction pool arbitrary: acc)
  case (Cons ch pool)
  have "in_int64 (acc + weight_of ch)"
    using Cons.prems sum_weights_nonneg [of pool] weight_ge1 [of ch]
    by (simp add: in_int64_def sum_weights_def)
  with Cons.IH [of "acc + weight_of ch"] Cons.prems weight_ge1 [of ch] show ?case
    by (simp add: sum_weights_def)
qed (simp add: sum_weights_def)

lemma total_weight_exact: "sum_weights pool < 2 ^ 63 \<Longrightarrow> total_weight pool = sum_weights pool"
  using total_weight_acc [of 0 pool] by (simp add: total_weight_def)

lemma pick_from_char:
  "0 \<le> pick \<Longrightarrow> pick < sum_weights pool \<Longrightarrow>
     \<exists>j < length pool. pick_from i pool pick = i + j
        \<and> sum_weights (take j pool) \<le> pick \<and> pick < sum_weights (take (Suc j) pool)"
proof (induction pool arbitrary: i pick)
  case Nil
  then show ?case by (simp add: sum_weights_def)
next
  case (Cons ch pool)
  show ?case
  proof (cases "pick < weight_of ch")
    case True
    with Cons.prems show ?thesis by (intro exI [of _ 0]) (simp add: sum_weights_def Let_def)
  next
    case False
    with Cons.prems Cons.IH [of "pick - weight_of ch" "Suc i"] obtain j
      where "j < length pool" "pick_from (Suc i) pool (pick - weight_of ch) = Suc i + j"
        "sum_weights (take j pool) \<le> pick - weight_of ch"
        "pick - weight_of ch < sum_weights (take (Suc j) pool)"
      by (auto simp: sum_weights_def)
    with False show ?thesis
      by (intro exI [of _ "Suc j"]) (simp add: sum_weights_def Let_def)
  qed
qed

lemma sum_weights_take_mono: "i \<le> j \<Longrightarrow> sum_weights (take i pool) \<le> sum_weights (take j pool)"
proof -
  assume "i \<le> j"
  then have "take j pool = take i pool @ take (j - i) (drop i pool)"
    by (metis le_add_diff_inverse take_add)
  then show ?thesis
    using sum_weights_nonneg [of "take (j - i) (drop i pool)"] by (simp add: sum_weights_def)
qed

text \<open>The index picked is the one whose weight interval holds the draw.\<close>

lemma pick_from_iff:
  assumes "0 \<le> pick" "pick < sum_weights pool" "j < length pool"
  shows "pick_from 0 pool pick = j \<longleftrightarrow>
    sum_weights (take j pool) \<le> pick \<and> pick < sum_weights (take (Suc j) pool)"
proof -
  obtain i where i: "i < length pool" "pick_from 0 pool pick = i"
      "sum_weights (take i pool) \<le> pick" "pick < sum_weights (take (Suc i) pool)"
    using pick_from_char [OF assms(1,2), of 0] by auto
  have "i = j" if "sum_weights (take j pool) \<le> pick" "pick < sum_weights (take (Suc j) pool)"
  proof (rule ccontr)
    assume "i \<noteq> j"
    then consider "Suc i \<le> j" | "Suc j \<le> i" by linarith
    then show False
      using sum_weights_take_mono [of "Suc i" j pool] sum_weights_take_mono [of "Suc j" i pool] i that
      by cases linarith+
  qed
  with i show ?thesis by auto
qed

lemma pick_from_less:
  "0 \<le> pick \<Longrightarrow> pick < sum_weights pool \<Longrightarrow> pick_from 0 pool pick < length pool"
  using pick_from_char [of pick pool 0] by auto

lemma sum_weights_remove:
  "i < length pool \<Longrightarrow>
     sum_weights (take i pool @ drop (Suc i) pool) + weight_of (pool ! i) = sum_weights pool"
  by (subst (3) id_take_nth_drop [of i pool]) (auto simp: sum_weights_def)

lemma mset_remove:
  "i < length pool \<Longrightarrow> add_mset (pool ! i) (mset (take i pool @ drop (Suc i) pool)) = mset pool"
  by (subst (4) id_take_nth_drop [of i pool]) auto

lemma weightedShuffle_step:
  fixes k :: nat
  assumes "rand_ok intn" "sum_weights pool < 2 ^ 63" "pool \<noteq> []"
  defines "i \<equiv> pick_from 0 pool (intn k (sum_weights pool))"
  shows "i < length pool \<and> weightedShuffle intn k pool =
    map_option (\<lambda>out. pool ! i # out)
      (weightedShuffle intn (Suc k) (take i pool @ drop (Suc i) pool))"
proof -
  have pos: "0 < sum_weights pool" using assms(3) by (rule sum_weights_pos)
  then have "i < length pool"
    using assms(1) unfolding i_def rand_ok_def by (intro pick_from_less) auto
  with pos assms show ?thesis
    by (simp add: weightedShuffle.simps [of intn k pool] total_weight_exact Let_def)
qed

lemma weightedShuffle_perm:
  "rand_ok intn \<Longrightarrow> sum_weights pool < 2 ^ 63 \<Longrightarrow>
     \<exists>out. weightedShuffle intn k pool = Some out \<and> mset out = mset pool"
proof (induction "length pool" arbitrary: k pool)
  case 0
  then show ?case by (simp add: weightedShuffle.simps)
next
  case (Suc n)
  define i where "i = pick_from 0 pool (intn k (sum_weights pool))"
  let ?rest = "take i pool @ drop (Suc i) pool"
  from Suc.hyps(2) have ne: "pool \<noteq> []" by auto
  have i: "i < length pool" and eq: "weightedShuffle intn k pool =
      map_option (\<lambda>out. pool ! i # out) (weightedShuffle intn (Suc k) ?rest)"
    using weightedShuffle_step [OF Suc.prems ne, of k] unfolding i_def by auto
  have "length ?rest = n" using i Suc.hyps(2) by simp
  moreover have "sum_weights ?rest < 2 ^ 63"
    using sum_weights_remove [OF i] Suc.prems(2) weight_ge1 [of "pool ! i"] by linarith
  ultimately obtain out where "weightedShuffle intn (Suc k) ?rest = Some out"
      "mset out = mset ?rest"
    using Suc.hyps(1) [of ?rest "Suc k"] Suc.prems(1) by auto
  with eq mset_remove [OF i] show ?case by auto
qed

lemma sum_weights_filter: "sum_weights (filter P pool) \<le> sum_weights pool"
  using weight_ge1 by (induction pool) (auto simp: sum_weights_def intro: order_trans, smt (verit))

lemma shuffle_buckets_spec:
  "rand_ok intn \<Longrightarrow> sum_weights chs < 2 ^ 63 \<Longrightarrow> sorted_wrt (>) ps \<Longrightarrow>
     \<exists>out. shuffle_buckets intn k chs ps = Some out
       \<and> mset out = mset (filter (\<lambda>ch. ch_Priority ch \<in> set ps) chs)
       \<and> sorted_wrt (\<lambda>a b. ch_Priority b \<le> ch_Priority a) out"
proof (induction ps arbitrary: k)
  case Nil
  then show ?case by simp
next
  case (Cons p ps)
  let ?b = "filter (\<lambda>ch. ch_Priority ch = p) chs"
  obtain o1 where o1: "weightedShuffle intn k ?b = Some o1" "mset o1 = mset ?b"
    using weightedShuffle_perm [OF Cons.prems(1)] sum_weights_filter [of _ chs] Cons.prems(2)
    by (meson le_less_trans)
  obtain o2 where o2: "shuffle_buckets intn (k + length ?b) chs ps = Some o2"
      "mset o2 = mset (filter (\<lambda>ch. ch_Priority ch \<in> set ps) chs)"
      "sorted_wrt (\<lambda>a b. ch_Priority b \<le> ch_Priority a) o2"
    using Cons by fastforce
  have s1: "set o1 = set ?b" using o1(2) by (rule mset_eq_setD)
  have s2: "set o2 = set (filter (\<lambda>ch. ch_Priority ch \<in> set ps) chs)"
    using o2(2) by (rule mset_eq_setD)
  have "\<forall>x \<in> set o1. ch_Priority x = p" using s1 by simp
  then have "sorted_wrt (\<lambda>a b. ch_Priority b \<le> ch_Priority a) o1"
    by (induction o1) auto
  then have "sorted_wrt (\<lambda>a b. ch_Priority b \<le> ch_Priority a) (o1 @ o2)"
    using o2(3) s1 s2 Cons.prems(3) by (auto simp: sorted_wrt_append)
  moreover have "mset (o1 @ o2) = mset (filter (\<lambda>ch. ch_Priority ch \<in> set (p # ps)) chs)"
  proof -
    have "mset ?b + mset (filter (\<lambda>ch. ch_Priority ch \<in> set ps) chs)
        = mset (filter (\<lambda>ch. ch_Priority ch \<in> set (p # ps)) chs)"
      using Cons.prems(3) by (induction chs) auto
    with o1(2) o2(2) show ?thesis by simp
  qed
  ultimately show ?case using o1 o2 by (simp add: Let_def)
qed

lemma loadBalanceOrder_spec:
  assumes "rand_ok intn" "sum_weights chs < 2 ^ 63"
  shows "\<exists>out. loadBalanceOrder intn chs = Some out \<and> mset out = mset chs
    \<and> sorted_wrt (\<lambda>a b. ch_Priority b \<le> ch_Priority a) out"
proof (cases "length chs \<le> 1")
  case True
  then show ?thesis by (cases chs) (auto simp: loadBalanceOrder_def)
next
  case False
  let ?ps = "rev (sort (remdups (map ch_Priority chs)))"
  have "sorted_wrt (<) (sort (remdups (map ch_Priority chs)))"
    by (simp add: strict_sorted_iff)
  then have "sorted_wrt (>) ?ps" by (simp add: sorted_wrt_rev)
  from shuffle_buckets_spec [OF assms this, of 0] False show ?thesis
    by (auto simp: loadBalanceOrder_def filter_id_conv cong: filter_cong)
qed

section \<open>The selection pipeline\<close>

definition probe_needed :: "world \<Rightarrow> bool" where
  "probe_needed w \<longleftrightarrow>
     list_ex needs_probe (map compile_rule (sort_key rule_key (filter rule_Enabled (w_rules w))))"

definition selected_rule :: "probe option \<Rightarrow> route_input \<Rightarrow> world \<Rightarrow> routing_rule option" where
  "selected_rule pb inp w = first_rule inp (snd (run_probe pb (probe_needed w) inp)) (w_rules w)"

definition candidates_of :: "routing_rule option \<Rightarrow> string \<Rightarrow> world \<Rightarrow> channel list" where
  "candidates_of rule m w =
     filter (\<lambda>ch. ch_Status ch = ChannelEnabled \<and> keep_channel rule m ch) (w_channels w)"

text \<open>The documented meaning of a rule's targets.\<close>

definition may_serve :: "routing_rule option \<Rightarrow> string \<Rightarrow> channel \<Rightarrow> bool" where
  "may_serve rule m ch \<longleftrightarrow>
     (if allow_ids rule \<noteq> [] then ch_ID ch \<in> set (allow_ids rule)
      else if allow_group rule \<noteq> [] then ch_Group ch = allow_group rule
      else m \<in> set (decodeModels (ch_Models ch)) \<or> m \<in> dom (decodeMapping (ch_ModelMapping ch)))"

lemma keep_channel_iff: "keep_channel rule m ch \<longleftrightarrow> may_serve rule m ch"
  by (auto simp: keep_channel_def may_serve_def channelServes_def Let_def list_ex_iff dom_def)

lemma candidateChannels_Inr:
  "candidateChannels rule m w = (Inr cs, w') \<Longrightarrow> cs = candidates_of rule m w \<and> same_data w w'"
  by (auto simp: candidateChannels_def candidates_of_def conj_commute elim!: bindM_InrE
      dest!: db_read_Inr)

lemma candidateChannels_ok:
  "w_faults w = [] \<Longrightarrow> candidateChannels rule m w = (Inr (candidates_of rule m w), w)"
  by (simp add: candidateChannels_def candidates_of_def bindM_def conj_commute)

lemma candidates_of_data: "same_data w w' \<Longrightarrow> candidates_of rule m w' = candidates_of rule m w"
  by (simp add: candidates_of_def same_dataD)

lemma sum_weights_candidates:
  "sum_weights (w_channels w) < 2 ^ 63 \<Longrightarrow> sum_weights (candidates_of rule m w) < 2 ^ 63"
  unfolding candidates_of_def by (meson le_less_trans sum_weights_filter)

lemma maxRetries_Inr: "maxRetries w = (r, w') \<Longrightarrow> \<exists>n > 0. r = Inr n \<and> same_data w w'"
  by (auto simp: maxRetries_def bindM_def DefaultMaxRetries_def
      dest: GetOption_data GetOption_no_error split: prod.splits sum.splits option.splits)

lemma maxRetries_ok: "w_faults w = [] \<Longrightarrow> \<exists>n > 0. maxRetries w = (Inr n, w)"
  by (auto simp: maxRetries_def bindM_def GetOption_def tryM_def DefaultMaxRetries_def
      split: option.splits)

lemma matched_eq:
  "map_option fst (matchRuleExpr rules (map compile_rule rules) (ri_Group inp) (ri_Model inp)
     (ri_EstTokens inp) vs) = find (rule_applies inp vs) rules"
  by (simp add: matchRuleExpr_find option.map_comp comp_def option.map_ident)

lemma SelectChannelCtx_unfold:
  "SelectChannelCtx intn pb inp = bindM enabledRulesByPriority (\<lambda>rules.
     let pr = run_probe pb (list_ex needs_probe (map compile_rule rules)) inp;
         matched = find (rule_applies inp (snd pr)) rules;
         em = effective_model matched (ri_Model inp)
     in bindM (candidateChannels matched em) (\<lambda>candidates.
       if candidates = [] then failM (no_candidate_error matched (ri_Model inp))
       else case loadBalanceOrder intn candidates of
         None \<Rightarrow> failM GoPanic
       | Some ordered \<Rightarrow> bindM maxRetries (\<lambda>n.
           retM \<lparr>sel_Rule = matched, sel_Model = ri_Model inp, sel_Probe = fst pr,
                 sel_effectiveModel = em, sel_candidates = ordered,
                 sel_maxRetries = n, sel_cursor = 0\<rparr>)))"
  unfolding SelectChannelCtx_def Let_def case_prod_beta matched_eq by (rule refl)

lemma EffectiveModel_effective:
  "sel_effectiveModel s = effective_model r (sel_Model s) \<Longrightarrow>
     EffectiveModel s = effective_model r (sel_Model s)"
  by (auto simp: EffectiveModel_def effective_model_def Let_def split: option.splits)

lemma SelectChannelCtx_Inr:
  assumes rand: "rand_ok intn" and wt: "sum_weights (w_channels w) < 2 ^ 63"
    and run: "SelectChannelCtx intn pb inp w = (Inr sel, w')"
  shows "same_data w w' \<and> sel_Rule sel = selected_rule pb inp w \<and> sel_Model sel = ri_Model inp
    \<and> EffectiveModel sel = effective_model (sel_Rule sel) (ri_Model inp)
    \<and> sel_Probe sel = fst (run_probe pb (probe_needed w) inp)
    \<and> mset (sel_candidates sel) = mset (candidates_of (sel_Rule sel) (EffectiveModel sel) w)
    \<and> sorted_wrt (\<lambda>a b. ch_Priority b \<le> ch_Priority a) (sel_candidates sel)
    \<and> sel_candidates sel \<noteq> [] \<and> 0 < sel_maxRetries sel \<and> sel_cursor sel = 0"
proof -
  from run obtain rules w1 where rules: "enabledRulesByPriority w = (Inr rules, w1)"
    and run1: "(let pr = run_probe pb (list_ex needs_probe (map compile_rule rules)) inp;
         matched = find (rule_applies inp (snd pr)) rules;
         em = effective_model matched (ri_Model inp)
     in bindM (candidateChannels matched em) (\<lambda>candidates.
       if candidates = [] then failM (no_candidate_error matched (ri_Model inp))
       else case loadBalanceOrder intn candidates of
         None \<Rightarrow> failM GoPanic
       | Some ordered \<Rightarrow> bindM maxRetries (\<lambda>n.
           retM \<lparr>sel_Rule = matched, sel_Model = ri_Model inp, sel_Probe = fst pr,
                 sel_effectiveModel = em, sel_candidates = ordered,
                 sel_maxRetries = n, sel_cursor = 0\<rparr>))) w1 = (Inr sel, w')"
    unfolding SelectChannelCtx_unfold by (rule bindM_InrE)
  have rs: "rules = sort_key rule_key (filter rule_Enabled (w_rules w))" and d1: "same_data w w1"
    using db_read_Inr [OF rules [unfolded enabledRulesByPriority_def]] by auto
  define m where "m = selected_rule pb inp w"
  define em where "em = effective_model m (ri_Model inp)"
  have m: "find (rule_applies inp (snd (run_probe pb (list_ex needs_probe (map compile_rule rules)) inp)))
      rules = m"
    by (simp add: m_def selected_rule_def first_rule_def probe_needed_def rs)
  from run1 obtain cs w2 where cs: "candidateChannels m em w1 = (Inr cs, w2)"
    and run2: "(if cs = [] then failM (no_candidate_error m (ri_Model inp))
       else case loadBalanceOrder intn cs of
         None \<Rightarrow> failM GoPanic
       | Some ordered \<Rightarrow> bindM maxRetries (\<lambda>n.
           retM \<lparr>sel_Rule = m, sel_Model = ri_Model inp,
                 sel_Probe = fst (run_probe pb (list_ex needs_probe (map compile_rule rules)) inp),
                 sel_effectiveModel = em, sel_candidates = ordered,
                 sel_maxRetries = n, sel_cursor = 0\<rparr>)) w2 = (Inr sel, w')"
    unfolding Let_def m em_def [symmetric] by (rule bindM_InrE)
  have c: "cs = candidates_of m em w" and d2: "same_data w w2"
    using candidateChannels_Inr [OF cs] candidates_of_data [OF d1] same_data_trans [OF d1] by auto
  obtain out where out: "loadBalanceOrder intn cs = Some out" "mset out = mset cs"
      "sorted_wrt (\<lambda>a b. ch_Priority b \<le> ch_Priority a) out"
    using loadBalanceOrder_spec [OF rand sum_weights_candidates [OF wt], of m em] c by auto
  have ne: "cs \<noteq> []" using run2 by auto
  from run2 ne out(1) obtain n where n: "maxRetries w2 = (Inr n, w')"
    and sel: "sel = \<lparr>sel_Rule = m, sel_Model = ri_Model inp,
        sel_Probe = fst (run_probe pb (list_ex needs_probe (map compile_rule rules)) inp),
        sel_effectiveModel = em, sel_candidates = out, sel_maxRetries = n, sel_cursor = 0\<rparr>"
    by (auto elim!: bindM_InrE)
  have "EffectiveModel sel = em" unfolding em_def
    by (subst EffectiveModel_effective [of sel m]) (simp_all add: sel em_def)
  moreover have "0 < n \<and> same_data w w'"
    using maxRetries_Inr [OF n] same_data_trans [OF d2] by auto
  moreover have "out \<noteq> []" using out(2) ne by auto
  ultimately show ?thesis using out c by (simp add: sel m_def em_def probe_needed_def rs)
qed

lemma SelectChannelCtx_no_faults:
  fixes pb :: "probe option" and inp :: route_input
  assumes rand: "rand_ok intn" and wt: "sum_weights (w_channels w) < 2 ^ 63"
    and nf: "w_faults w = []"
  defines "m \<equiv> selected_rule pb inp w"
  defines "cs \<equiv> candidates_of m (effective_model m (ri_Model inp)) w"
  shows "if cs = [] then SelectChannelCtx intn pb inp w = (Inl (no_candidate_error m (ri_Model inp)), w)
    else \<exists>sel. SelectChannelCtx intn pb inp w = (Inr sel, w)"
proof -
  obtain out where out: "loadBalanceOrder intn cs = Some out"
    using loadBalanceOrder_spec [OF rand sum_weights_candidates [OF wt]] cs_def by blast
  obtain n where "maxRetries w = (Inr n, w)" using maxRetries_ok [OF nf] by blast
  with out nf show ?thesis
    by (simp add: SelectChannelCtx_unfold enabledRulesByPriority_def bindM_def Let_def
        candidateChannels_ok m_def cs_def selected_rule_def first_rule_def probe_needed_def)
qed


section \<open>Weighted choice: proportions\<close>

text \<open>\<open>first_draw x\<close>: the generator whose first result is \<open>x\<close>.\<close>

definition first_draw :: "int \<Rightarrow> nat \<Rightarrow> int \<Rightarrow> int" where
  "first_draw x k n = (if k = 0 then x else 0)"

lemma weightedShuffle_total:
  assumes "\<And>k' n. k \<le> k' \<Longrightarrow> 0 < n \<Longrightarrow> 0 \<le> intn k' n \<and> intn k' n < n"
    and "sum_weights pool < 2 ^ 63"
  shows "weightedShuffle intn k pool \<noteq> None"
proof -
  have "weightedShuffle intn k pool = weightedShuffle (\<lambda>k' n. if k \<le> k' then intn k' n else 0) k pool"
    (is "?l = ?r")
  proof -
    have "j \<ge> k \<Longrightarrow> weightedShuffle intn j p
        = weightedShuffle (\<lambda>k' n. if k \<le> k' then intn k' n else 0) j p" for j p
      by (induction intn j p rule: weightedShuffle.induct)
        (subst (1 2) weightedShuffle.simps, auto simp: Let_def)
    then show ?thesis by simp
  qed
  moreover have "rand_ok (\<lambda>k' n. if k \<le> k' then intn k' n else 0)"
    using assms(1) by (auto simp: rand_ok_def)
  ultimately show ?thesis
    using weightedShuffle_perm [OF _ assms(2), of _ k] by fastforce
qed

lemma card_atLeastLessThan_int': "a \<le> b \<Longrightarrow> int (card {a ..< b :: int}) = b - a"
  by simp

lemma weightedShuffle_head:
  assumes wt: "sum_weights pool < 2 ^ 63" and d: "distinct pool" and j: "j < length pool"
    and x: "0 \<le> x" "x < sum_weights pool"
  shows "map_option hd (weightedShuffle (first_draw x) 0 pool) = Some (pool ! j)
    \<longleftrightarrow> sum_weights (take j pool) \<le> x \<and> x < sum_weights (take (Suc j) pool)"
proof -
  define i where "i = pick_from 0 pool x"
  have i: "i < length pool" using pick_from_less [OF x] by (simp add: i_def)
  let ?rest = "take i pool @ drop (Suc i) pool"
  have "weightedShuffle (first_draw x) (Suc 0) ?rest \<noteq> None"
    using sum_weights_remove [OF i] weight_ge1 [of "pool ! i"] wt
    by (intro weightedShuffle_total) (auto simp: first_draw_def)
  moreover have "pool \<noteq> []" using j by auto
  ultimately have "map_option hd (weightedShuffle (first_draw x) 0 pool) = Some (pool ! i)"
    using i x wt
    by (subst weightedShuffle.simps) (auto simp: Let_def total_weight_exact i_def first_draw_def)
  then show ?thesis
    using d i j pick_from_iff [OF x j] by (auto simp: i_def nth_eq_iff_index_eq)
qed

lemma weighted_pick_card:
  assumes wt: "sum_weights pool < 2 ^ 63" and d: "distinct pool" and j: "j < length pool"
  shows "int (card {x \<in> {0 ..< sum_weights pool}.
      map_option hd (weightedShuffle (first_draw x) 0 pool) = Some (pool ! j)}) = weight_of (pool ! j)"
proof -
  have le: "sum_weights (take (Suc j) pool) \<le> sum_weights pool" "0 \<le> sum_weights (take j pool)"
    using sum_weights_take_mono [of "Suc j" "length pool" pool] j sum_weights_nonneg by auto
  have "{x \<in> {0 ..< sum_weights pool}.
      map_option hd (weightedShuffle (first_draw x) 0 pool) = Some (pool ! j)}
    = {sum_weights (take j pool) ..< sum_weights (take (Suc j) pool)}"
  proof (intro set_eqI iffI)
    fix x
    assume "x \<in> {x \<in> {0 ..< sum_weights pool}.
        map_option hd (weightedShuffle (first_draw x) 0 pool) = Some (pool ! j)}"
    then show "x \<in> {sum_weights (take j pool) ..< sum_weights (take (Suc j) pool)}"
      using weightedShuffle_head [OF wt d j, of x] by simp
  next
    fix x
    assume "x \<in> {sum_weights (take j pool) ..< sum_weights (take (Suc j) pool)}"
    then show "x \<in> {x \<in> {0 ..< sum_weights pool}.
        map_option hd (weightedShuffle (first_draw x) 0 pool) = Some (pool ! j)}"
      using weightedShuffle_head [OF wt d j, of x] le by simp
  qed
  moreover have "sum_weights (take (Suc j) pool) = sum_weights (take j pool) + weight_of (pool ! j)"
    using j by (simp add: take_Suc_conv_app_nth sum_weights_def)
  ultimately show ?thesis using weight_ge1 [of "pool ! j"] by simp
qed

section \<open>Failover\<close>

text \<open>The results of n successive calls of \<open>Next\<close>, and the selection they leave.\<close>

fun drain :: "nat \<Rightarrow> selection \<Rightarrow> (err + channel) list \<times> selection" where
  "drain 0 s = ([], s)"
| "drain (Suc n) s =
     (let (r, s1) = next_channel s; (rs, s2) = drain n s1 in (r # rs, s2))"

definition failover_budget :: "selection \<Rightarrow> nat" where
  "failover_budget s = min (length (sel_candidates s)) (nat (sel_maxRetries s))"

lemma next_channel_simps:
  "sel_cursor s < failover_budget s \<Longrightarrow>
     next_channel s = (Inr (sel_candidates s ! sel_cursor s), s\<lparr>sel_cursor := Suc (sel_cursor s)\<rparr>)"
  "failover_budget s \<le> sel_cursor s \<Longrightarrow> next_channel s = (Inl ErrFailoverExhausted, s)"
  by (auto simp: next_channel_def failover_budget_def)

lemma drain_exhausted:
  "failover_budget s \<le> sel_cursor s \<Longrightarrow> drain n s = (replicate n (Inl ErrFailoverExhausted), s)"
  by (induction n) (simp_all add: next_channel_simps)

lemma drain_upto:
  "sel_cursor s + n \<le> failover_budget s \<Longrightarrow>
     drain n s = (map (\<lambda>i. Inr (sel_candidates s ! i)) [sel_cursor s ..< sel_cursor s + n],
                  s\<lparr>sel_cursor := sel_cursor s + n\<rparr>)"
proof (induction n arbitrary: s)
  case (Suc n)
  have "drain n (s\<lparr>sel_cursor := Suc (sel_cursor s)\<rparr>) =
      (map (\<lambda>i. Inr (sel_candidates s ! i)) [Suc (sel_cursor s) ..< Suc (sel_cursor s) + n],
       s\<lparr>sel_cursor := Suc (sel_cursor s) + n\<rparr>)"
    using Suc.IH [of "s\<lparr>sel_cursor := Suc (sel_cursor s)\<rparr>"] Suc.prems
    by (simp add: failover_budget_def)
  with Suc.prems show ?case by (simp add: next_channel_simps upt_conv_Cons del: upt_Suc)
qed simp

lemma drain_add:
  "drain (m + n) s = (let (rs, s1) = drain m s; (qs, s2) = drain n s1 in (rs @ qs, s2))"
  by (induction m arbitrary: s) (auto simp: Let_def split: prod.splits)

lemma drain_all:
  assumes "sel_cursor s = 0"
  shows "fst (drain (failover_budget s + n) s) =
    map Inr (take (failover_budget s) (sel_candidates s)) @ replicate n (Inl ErrFailoverExhausted)"
proof -
  have d1: "drain (failover_budget s) s =
      (map (\<lambda>i. Inr (sel_candidates s ! i)) [0 ..< failover_budget s],
       s\<lparr>sel_cursor := failover_budget s\<rparr>)"
    using drain_upto [of s "failover_budget s"] assms by simp
  have d2: "drain n (s\<lparr>sel_cursor := failover_budget s\<rparr>)
      = (replicate n (Inl ErrFailoverExhausted), s\<lparr>sel_cursor := failover_budget s\<rparr>)"
    by (rule drain_exhausted) (simp add: failover_budget_def)
  have "map (\<lambda>i. sel_candidates s ! i) [0 ..< failover_budget s]
      = take (failover_budget s) (sel_candidates s)"
    by (rule nth_equalityI) (auto simp: failover_budget_def)
  then have "map (\<lambda>i. Inr (sel_candidates s ! i)) [0 ..< failover_budget s]
      = map Inr (take (failover_budget s) (sel_candidates s))"
    by (metis (no_types, lifting) map_map comp_def map_eq_conv)
  with d1 d2 show ?thesis by (simp add: drain_add)
qed

section \<open>The probe prompt\<close>

lemma length_truncateMiddle: "length (truncateMiddle s mx) \<le> 4 * mx"
proof (cases "length (runes s) \<le> mx")
  case True
  then show ?thesis using length_runes [of s] by (simp add: truncateMiddle_def)
next
  case False
  define r where "r = runes s"
  have marker: "length (runes trunc_marker) = 13" "length trunc_marker = 17"
    by code_simp+
  show ?thesis
  proof (cases "int mx - 13 < 2")
    case True
    with False length_unrunes [of "take mx r"] show ?thesis
      by (simp add: truncateMiddle_def Let_def marker r_def)
  next
    case False2: False
    define h where "h = nat ((int mx - 13) div 2)"
    define t where "t = nat (int mx - 13) - h"
    have "h + t = mx - 13" "h \<le> mx - 13" using False2 by (auto simp: h_def t_def)
    moreover have "length (unrunes (take h r)) \<le> 4 * h"
      using length_unrunes [of "take h r"] by simp
    moreover have "length (unrunes (drop (length r - t) r)) \<le> 4 * t"
      using length_unrunes [of "drop (length r - t) r"] by simp
    ultimately show ?thesis
      using False False2
      by (simp add: truncateMiddle_def Let_def marker r_def [symmetric] h_def [symmetric]
          t_def [symmetric])
  qed
qed

definition seg :: "string \<times> string \<Rightarrow> string" where
  "seg t = renderTurn (fst t) (snd t)"

lemma seg_pair: "renderTurn rl tx = seg (rl, tx)"
  by (simp add: seg_def)

lemma walk_turns_char:
  "rendered \<noteq> [] \<Longrightarrow> used = length (concat rendered) \<Longrightarrow> used \<le> b \<Longrightarrow>
     \<exists>n. walk_turns b ts rendered used =
           (rendered @ map seg (take n ts), length (concat (rendered @ map seg (take n ts))))
       \<and> length (concat (rendered @ map seg (take n ts))) \<le> b"
proof (induction ts arbitrary: rendered used)
  case Nil
  then show ?case by (intro exI [of _ 0]) simp
next
  case (Cons t ts)
  obtain rl tx where t: "t = (rl, tx)" by (cases t)
  show ?case
  proof (cases "used + length (seg t) > b")
    case True
    with Cons.prems t show ?thesis by (intro exI [of _ 0]) (simp add: seg_pair Let_def)
  next
    case False
    with Cons.IH [of "rendered @ [seg t]" "used + length (seg t)"] Cons.prems obtain n
      where n: "walk_turns b ts (rendered @ [seg t]) (used + length (seg t)) =
          ((rendered @ [seg t]) @ map seg (take n ts),
           length (concat ((rendered @ [seg t]) @ map seg (take n ts))))"
        "length (concat ((rendered @ [seg t]) @ map seg (take n ts))) \<le> b"
      by auto
    with False t show ?thesis by (intro exI [of _ "Suc n"]) (simp add: seg_pair Let_def)
  qed
qed

text \<open>The turns kept are the newest ones; they fit the budget, or there is only one.\<close>

lemma walk_turns_spec:
  "\<exists>n. walk_turns b ts [] 0 = (map seg (take n ts), length (concat (map seg (take n ts))))
     \<and> (ts \<noteq> [] \<longrightarrow> 1 \<le> n) \<and> (length (concat (map seg (take n ts))) \<le> b \<or> n = 1)"
proof (cases ts)
  case Nil
  then show ?thesis by (intro exI [of _ 0]) simp
next
  case (Cons t us)
  obtain rl tx where t: "t = (rl, tx)" by (cases t)
  show ?thesis
  proof (cases "length (seg t) \<le> b")
    case True
    with walk_turns_char [of "[seg t]" "length (seg t)" b us] obtain n
      where "walk_turns b us [seg t] (length (seg t)) =
          ([seg t] @ map seg (take n us), length (concat ([seg t] @ map seg (take n us))))"
      "length (concat ([seg t] @ map seg (take n us))) \<le> b"
      by auto
    with t Cons show ?thesis by (intro exI [of _ "Suc n"]) (simp add: seg_pair Let_def)
  next
    case False
    then have "walk_turns b us [seg t] (length (seg t)) = ([seg t], length (seg t))"
      by (cases us) (auto simp: seg_pair Let_def split: prod.splits)
    with t Cons show ?thesis by (intro exI [of _ 1]) (simp add: seg_pair Let_def)
  qed
qed

section \<open>Probe signals\<close>

text \<open>An absent probe signal reads as zero.\<close>

lemma eval_zero_signals:
  assumes "vars_Int v ''w'' = None" "vars_Int v ''t'' = None"
  shows "eval (v\<lparr>vars_Int := (vars_Int v)(''w'' \<mapsto> 0, ''t'' \<mapsto> 0)\<rparr>) n = eval v n"
  using assms by (induction n) auto

lemma Eval_zero_signals:
  assumes "vars_Int v ''w'' = None" "vars_Int v ''t'' = None"
  shows "Eval p (v\<lparr>vars_Int := (vars_Int v)(''w'' \<mapsto> 0, ''t'' \<mapsto> 0)\<rparr>) = Eval p v"
  using eval_zero_signals [OF assms] by (simp add: Eval_def split: option.splits)

lemma run_probe_zero:
  assumes "probe_Predict p (ri_Prompt inp) = Inl e" "probe_Predict q (ri_Prompt inp) = Inr (0, 0)"
  shows "Eval r (snd (run_probe (Some p) b inp)) = Eval r (snd (run_probe (Some q) b inp))"
  using assms Eval_zero_signals [of "base_vars inp" r]
  by (cases b) (auto simp: run_probe_def base_vars_def)

lemma selected_rule_cong:
  assumes "\<And>r. Eval r (snd (run_probe pb (probe_needed w) inp))
             = Eval r (snd (run_probe pb' (probe_needed w) inp))"
  shows "selected_rule pb inp w = selected_rule pb' inp w"
proof -
  have "rule_applies inp (snd (run_probe pb (probe_needed w) inp))
      = rule_applies inp (snd (run_probe pb' (probe_needed w) inp))"
    using assms by (auto simp: rule_applies_def fun_eq_iff split: sum.splits)
  then show ?thesis by (simp add: selected_rule_def first_rule_def)
qed

text \<open>The pipeline depends on the probe only through \<open>run_probe\<close>.\<close>

lemma SelectChannelCtx_probe_cong:
  assumes "run_probe pb (probe_needed w) inp = run_probe pb' (probe_needed w) inp"
  shows "SelectChannelCtx intn pb inp w = SelectChannelCtx intn pb' inp w"
proof -
  have "enabledRulesByPriority w = (Inr rules, w1) \<Longrightarrow>
      run_probe pb (list_ex needs_probe (map compile_rule rules)) inp
      = run_probe pb' (list_ex needs_probe (map compile_rule rules)) inp" for rules w1
    using assms by (auto simp: enabledRulesByPriority_def probe_needed_def dest!: db_read_Inr)
  then show ?thesis
    unfolding SelectChannelCtx_unfold bindM_def [of enabledRulesByPriority]
    by (cases "enabledRulesByPriority w") (auto split: sum.splits)
qed

section \<open>Properties\<close>

text \<open>A sample configuration: two channels and one rule that sends group vip to the first.\<close>

definition sample_channel :: "nat \<Rightarrow> int \<Rightarrow> channel" where
  "sample_channel i wgt =
     \<lparr>ch_ID = i, ch_Name = ''c'', ch_Type = ''openai'', ch_BaseURL = [], ch_Key = [], ch_Region = [],
      ch_Models = Some (JArr [JStr ''m'']), ch_ModelMapping = None, ch_UseInferenceProfile = False,
      ch_AutoCacheSystem = False, ch_Group = ''default'', ch_Priority = 0, ch_Weight = wgt,
      ch_Status = ChannelEnabled\<rparr>"

definition sample_rule :: routing_rule where
  "sample_rule =
     \<lparr>rule_ID = 1, rule_Name = ''vip'', rule_Enabled = True, rule_Priority = 0,
      rule_Match = Some (JObj [(''groups'', JArr [JStr ''vip''])]),
      rule_TargetChannelIDs = Some (JArr [JInt 1]), rule_TargetGroup = [], rule_Expr = [],
      rule_TargetModel = []\<rparr>"

definition sample_world :: world where
  "sample_world =
     \<lparr>w_users = [], w_tokens = [], w_channels = [sample_channel 1 1, sample_channel 2 3],
      w_rules = [sample_rule], w_prices = [], w_options = Map.empty, w_logs = [],
      w_seq = (\<lambda>_. 1), w_redis = None, w_dirtyTokens = [], w_dirtyUsers = [], w_faults = [],
      w_now = 0\<rparr>"

definition sample_input :: route_input where
  "sample_input = \<lparr>ri_Group = ''vip'', ri_Model = ''m'', ri_EstTokens = 5, ri_Prompt = []\<rparr>"

lemma rand_ok_zero [simp]: "rand_ok (\<lambda>_ _. 0)"
  by (simp add: rand_ok_def)

lemma sample_weights: "sum_weights (w_channels sample_world) = 4"
  by code_simp

lemma sample_run:
  "SelectChannelCtx (\<lambda>_ _. 0) None sample_input sample_world =
     (Inr \<lparr>sel_Rule = Some sample_rule, sel_Model = ''m'', sel_Probe = None,
           sel_effectiveModel = ''m'', sel_candidates = [sample_channel 1 1],
           sel_maxRetries = 3, sel_cursor = 0\<rparr>, sample_world)" (is "?run = (?r, _)")
proof -
  have r: "fst ?run = ?r" by code_simp
  have "w_faults sample_world = []" by (simp add: sample_world_def)
  from SelectChannelCtx_no_faults [OF rand_ok_zero _ this, of None sample_input]
  have "snd ?run = sample_world" by (auto simp: sample_weights split: if_splits)
  with r show ?thesis by (metis prod.collapse)
qed

text \<open>
  C28. A model pattern of a rule means what its comment says: \<open>*\<close> matches any run of
  characters and everything else itself.  The greedy segment search of \<open>wildcardMatch\<close>
  misses no match.
\<close>

theorem modelMatches_glob: "modelMatches pattern m \<longleftrightarrow> glob pattern m"
  by (rule modelMatches_iff)

text \<open>
  C6. A selection is right: the rule is the applicable enabled rule that comes first by
  priority and id (none if no enabled rule applies); the candidates are exactly the enabled
  channels its targets allow (without targets, those that serve the effective model), in
  descending priority; there is at least one, and the retry budget is positive.
\<close>

theorem select_channel_correct:
  assumes "rand_ok intn" and "sum_weights (w_channels w) < 2 ^ 63"
    and "SelectChannelCtx intn pb inp w = (Inr sel, w')"
  shows "(let vs = snd (run_probe pb (probe_needed w) inp);
              applies = (\<lambda>r. r \<in> set (w_rules w) \<and> rule_Enabled r \<and> rule_applies inp vs r) in
          (case sel_Rule sel of
             None \<Rightarrow> \<forall>r. \<not> applies r
           | Some r \<Rightarrow> applies r \<and> (\<forall>q. applies q \<longrightarrow> rule_key r \<le> rule_key q)))
    \<and> mset (sel_candidates sel) =
        mset (filter (\<lambda>ch. ch_Status ch = ChannelEnabled
          \<and> may_serve (sel_Rule sel) (effective_model (sel_Rule sel) (ri_Model inp)) ch) (w_channels w))
    \<and> sorted_wrt (\<lambda>a b. ch_Priority b \<le> ch_Priority a) (sel_candidates sel)
    \<and> sel_candidates sel \<noteq> [] \<and> 0 < sel_maxRetries sel \<and> same_data w w'"
proof -
  note sel = SelectChannelCtx_Inr [OF assms]
  have "case sel_Rule sel of
      None \<Rightarrow> \<forall>r \<in> set (w_rules w). rule_Enabled r \<longrightarrow>
        \<not> rule_applies inp (snd (run_probe pb (probe_needed w) inp)) r
    | Some r \<Rightarrow> r \<in> set (w_rules w) \<and> rule_Enabled r
        \<and> rule_applies inp (snd (run_probe pb (probe_needed w) inp)) r
        \<and> (\<forall>q \<in> set (w_rules w). rule_Enabled q \<longrightarrow>
             rule_applies inp (snd (run_probe pb (probe_needed w) inp)) q \<longrightarrow> rule_key r \<le> rule_key q)"
    using sel first_rule_None [of inp _ "w_rules w"] first_rule_Some [of inp _ "w_rules w"]
    unfolding selected_rule_def by (auto split: option.split)
  then show ?thesis
    using sel unfolding Let_def candidates_of_def keep_channel_iff
    by (auto split: option.splits)
qed

lemma select_channel_correct_witness:
  "sum_weights (w_channels sample_world) = 4 \<and> (sample_channel 1 1) \<in> set (w_channels sample_world)
   \<and> mset [sample_channel 1 1] =
        mset (filter (\<lambda>ch. ch_Status ch = ChannelEnabled
          \<and> may_serve (Some sample_rule) (effective_model (Some sample_rule) ''m'') ch)
          (w_channels sample_world))"
  using select_channel_correct [OF rand_ok_zero _ sample_run] sample_weights
  by (simp add: sample_input_def) (simp add: sample_world_def)

text \<open>
  C20. There is no backtracking and no other failure: without database faults, selection
  succeeds iff some enabled channel may serve the request under the selected rule, and
  otherwise fails with the error that names that rule, even when a later rule has channels.
\<close>

theorem select_channel_final:
  assumes "rand_ok intn" and "sum_weights (w_channels w) < 2 ^ 63" and "w_faults w = []"
  shows "(let m = selected_rule pb inp w in
    if \<exists>ch \<in> set (w_channels w). ch_Status ch = ChannelEnabled
         \<and> may_serve m (effective_model m (ri_Model inp)) ch
    then \<exists>sel. SelectChannelCtx intn pb inp w = (Inr sel, w) \<and> sel_Rule sel = m
    else SelectChannelCtx intn pb inp w = (Inl (no_candidate_error m (ri_Model inp)), w))"
proof -
  let ?m = "selected_rule pb inp w"
  have "candidates_of ?m (effective_model ?m (ri_Model inp)) w = [] \<longleftrightarrow>
      \<not> (\<exists>ch \<in> set (w_channels w). ch_Status ch = ChannelEnabled
         \<and> may_serve ?m (effective_model ?m (ri_Model inp)) ch)"
    by (auto simp: candidates_of_def keep_channel_iff filter_empty_conv)
  moreover have "\<exists>sel. SelectChannelCtx intn pb inp w = (Inr sel, w) \<Longrightarrow>
      \<exists>sel. SelectChannelCtx intn pb inp w = (Inr sel, w) \<and> sel_Rule sel = ?m"
    using SelectChannelCtx_Inr [OF assms(1,2), of pb inp] by blast
  ultimately show ?thesis
    using SelectChannelCtx_no_faults [OF assms, of pb inp] by (simp add: Let_def split: if_splits)
qed

lemma select_channel_final_witness:
  "\<exists>sel. SelectChannelCtx (\<lambda>_ _. 0) None sample_input sample_world = (Inr sel, sample_world)
     \<and> sel_Rule sel = Some sample_rule"
proof -
  have "w_faults sample_world = []" by (simp add: sample_world_def)
  from select_channel_final [OF rand_ok_zero _ this, of None sample_input] sample_weights sample_run
  show ?thesis by (auto simp: Let_def split: if_splits)
qed

text \<open>
  C19. Load balancing is weighted exactly: over the equally likely results of the first
  draw, the number that put a channel first in its priority bucket is its weight (a
  non-positive weight counting as 1), so it is chosen with probability weight over total.
\<close>

theorem weighted_pick_proportional:
  assumes "distinct pool" and "sum_weights pool < 2 ^ 63" and "j < length pool"
  shows "int (card {x \<in> {0 ..< sum_weights pool}.
      map_option hd (weightedShuffle (first_draw x) 0 pool) = Some (pool ! j)})
    = (if ch_Weight (pool ! j) \<le> 0 then 1 else ch_Weight (pool ! j))"
  using weighted_pick_card [OF assms(2,1,3)] by (simp add: weight_of_def effectiveWeight_def)

lemma weighted_pick_proportional_witness:
  "int (card {x \<in> {0 ..< sum_weights [sample_channel 1 1, sample_channel 2 3]}.
      map_option hd (weightedShuffle (first_draw x) 0 [sample_channel 1 1, sample_channel 2 3])
        = Some (sample_channel 2 3)}) = 3"
proof -
  have "distinct [sample_channel 1 1, sample_channel 2 3]" by (simp add: sample_channel_def)
  from weighted_pick_proportional [OF this, of 1] show ?thesis
    by (simp add: sum_weights_def weight_of_def effectiveWeight_def sample_channel_def)
qed

text \<open>
  The probe is consulted only when needed: if no enabled rule's expression mentions w or
  t, the selection is the same whatever the probe would answer, and records no probe.
\<close>

lemma probe_only_when_referenced:
  assumes "\<not> probe_needed w"
  shows "SelectChannelCtx intn pb inp w = SelectChannelCtx intn pb' inp w
    \<and> (rand_ok intn \<longrightarrow> sum_weights (w_channels w) < 2 ^ 63 \<longrightarrow>
        (\<forall>sel w'. SelectChannelCtx intn pb inp w = (Inr sel, w') \<longrightarrow> sel_Probe sel = None))"
proof -
  have run: "run_probe q (probe_needed w) inp = (None, base_vars inp)" for q
    using assms by (simp add: run_probe_def)
  show ?thesis
    using SelectChannelCtx_probe_cong [of pb w inp pb'] SelectChannelCtx_Inr [of intn w pb inp] run
    by (metis fst_conv)
qed

lemma probe_only_when_referenced_witness:
  "SelectChannelCtx (\<lambda>_ _. 0) (Some (MockProbe (Some (1, 2)))) sample_input sample_world
   = SelectChannelCtx (\<lambda>_ _. 0) None sample_input sample_world"
proof -
  have "\<not> probe_needed sample_world" by code_simp
  from probe_only_when_referenced [OF this] show ?thesis by blast
qed

text \<open>
  A failing probe routes as if it had predicted w = 0 and t = 0: the selected rule is
  the same.
\<close>

lemma probe_failure_is_zero:
  assumes "probe_Predict p (ri_Prompt inp) = Inl e" and "probe_Predict q (ri_Prompt inp) = Inr (0, 0)"
  shows "selected_rule (Some p) inp w = selected_rule (Some q) inp w"
  by (rule selected_rule_cong) (rule run_probe_zero [OF assms])

lemma probe_failure_is_zero_witness:
  "selected_rule (Some \<lparr>probe_Name = ''http'', probe_Predict = (\<lambda>_. Inl ''timeout'')\<rparr>)
     sample_input sample_world
   = selected_rule (Some (MockProbe (Some (0, 0)))) sample_input sample_world"
  by (rule probe_failure_is_zero [where e = "''timeout''"]) (simp_all add: MockProbe_def mock_predict_def)

text \<open>
  C13. Failover walks the candidates in order: successive calls of \<open>Next\<close> on a fresh
  selection return the candidates, each once and at most \<open>maxRetries\<close> of them, and from
  then on \<open>ErrFailoverExhausted\<close>.
\<close>

theorem failover_order:
  assumes "sel_cursor s = 0" and "0 \<le> sel_maxRetries s"
    and "k = min (length (sel_candidates s)) (nat (sel_maxRetries s))"
  shows "fst (drain (k + n) s) =
    map Inr (take k (sel_candidates s)) @ replicate n (Inl ErrFailoverExhausted)"
  using drain_all [OF assms(1), of n] assms(3) by (simp add: failover_budget_def)

lemma failover_order_witness:
  "fst (drain (1 + 2) \<lparr>sel_Rule = None, sel_Model = ''m'', sel_Probe = None,
      sel_effectiveModel = ''m'', sel_candidates = [sample_channel 1 1, sample_channel 2 3],
      sel_maxRetries = 1, sel_cursor = 0\<rparr>)
   = [Inr (sample_channel 1 1), Inl ErrFailoverExhausted, Inl ErrFailoverExhausted]"
  by (subst failover_order) (simp_all add: numeral_2_eq_2)

text \<open>
  The classifier's prompt keeps the most recent context: it is the system turn (or
  nothing), then the renderings of the last n turns in order, then the open assistant turn,
  where n is at least 1 if there is a turn.  It has at most 16000 bytes unless the newest
  turn alone exceeds the budget, and then it holds that turn only.
\<close>

lemma probe_prompt_recent:
  "\<exists>n. (turns = [] \<or> 1 \<le> n) \<and>
     (let recent = concat (map (\<lambda>t. renderTurn (fst t) (snd t)) (drop (length turns - n) turns));
          p = RenderProbePrompt system turns in
        (p = recent @ open_turn
         \<or> p = renderTurn ''system'' system @ recent @ open_turn \<and> trim_space system \<noteq> [])
        \<and> (length p \<le> 16000 \<or> n = 1 \<and> p = recent @ open_turn))"
proof -
  define b where "b = maxProbePromptChars - length open_turn"
  have b: "b + length open_turn = 16000" "b < 16000"
    by (simp_all add: b_def maxProbePromptChars_def open_turn_def nl_def)
  obtain n where walk: "walk_turns b (rev turns) [] 0 =
        (map seg (take n (rev turns)), length (concat (map seg (take n (rev turns)))))"
      and n1: "rev turns \<noteq> [] \<longrightarrow> 1 \<le> n"
      and fits: "length (concat (map seg (take n (rev turns)))) \<le> b \<or> n = 1"
    using walk_turns_spec [of b "rev turns"] by blast
  define recent where "recent = concat (map seg (drop (length turns - n) turns))"
  have rev: "concat (rev (map seg (take n (rev turns)))) = recent"
    by (simp add: recent_def take_rev rev_map)
  have "length (concat (rev xs)) = length (concat xs)" for xs :: "string list"
    by (induction xs) auto
  with rev have len: "length (concat (map seg (take n (rev turns)))) = length recent" by metis
  define hs where "hs = (if trim_space system \<noteq> [] then renderTurn ''system'' system else [])"
  define hseg where "hseg = (if hs \<noteq> [] \<and> length recent + length hs \<le> b then hs else [])"
  have p: "RenderProbePrompt system turns = hseg @ recent @ open_turn"
    unfolding RenderProbePrompt_def hseg_def hs_def using walk rev len
    by (simp add: Let_def b_def [symmetric])
  have "hseg = [] \<or> hseg = renderTurn ''system'' system \<and> trim_space system \<noteq> []
      \<and> length recent + length hseg \<le> b"
    by (auto simp: hseg_def hs_def)
  with p b fits len n1 show ?thesis
    by (intro exI [of _ n]) (auto simp: Let_def recent_def seg_def [abs_def])
qed

end
