(* ===== verification/Quota.thy ===== *)
theory Quota
  imports Store
begin

text \<open>
  The two-level quota of \<open>service/quota_service.go\<close>: real-time counters in Redis that are
  loaded lazily from the \<open>used_quota\<close> columns, consumption, reset, and the write-back of
  dirty counters.  With no Redis client (\<open>w_redis w = None\<close>) everything works on the columns.
  What the token and the user level share is proved once, in the locale \<open>counter_level\<close>.
\<close>

section \<open>Keys and columns\<close>

definition tokenUsedKey :: "nat \<Rightarrow> string" where
  "tokenUsedKey i = ''quota:token:used:'' @ dec i"

definition userUsedKey :: "nat \<Rightarrow> string" where
  "userUsedKey i = ''quota:user:used:'' @ dec i"

definition find_token :: "nat \<Rightarrow> world \<Rightarrow> token_row option" where
  "find_token i w = find (\<lambda>t. tok_ID t = i) (w_tokens w)"

definition find_user :: "nat \<Rightarrow> world \<Rightarrow> user option" where
  "find_user i w = find (\<lambda>u. user_ID u = i) (w_users w)"

definition upd_token :: "nat \<Rightarrow> (token_row \<Rightarrow> token_row) \<Rightarrow> world \<Rightarrow> world" where
  "upd_token i f w = w\<lparr>w_tokens := map (\<lambda>t. if tok_ID t = i then f t else t) (w_tokens w)\<rparr>"

definition upd_user :: "nat \<Rightarrow> (user \<Rightarrow> user) \<Rightarrow> world \<Rightarrow> world" where
  "upd_user i f w = w\<lparr>w_users := map (\<lambda>u. if user_ID u = i then f u else u) (w_users w)\<rparr>"

definition set_token_used :: "nat \<Rightarrow> int \<Rightarrow> world \<Rightarrow> world" where
  "set_token_used i v = upd_token i (\<lambda>t. t\<lparr>tok_UsedQuota := v\<rparr>)"

definition set_user_used :: "nat \<Rightarrow> int \<Rightarrow> world \<Rightarrow> world" where
  "set_user_used i v = upd_user i (\<lambda>u. u\<lparr>user_UsedQuota := v\<rparr>)"

definition db_token_used :: "world \<Rightarrow> nat \<Rightarrow> int option" where
  "db_token_used w i = map_option tok_UsedQuota (find_token i w)"

definition db_user_used :: "world \<Rightarrow> nat \<Rightarrow> int option" where
  "db_user_used w i = map_option user_UsedQuota (find_user i w)"

section \<open>Reading the counters\<close>

definition usedCounter :: "string \<Rightarrow> int \<Rightarrow> int db" where
  "usedCounter key dbUsed w =
     (if w_redis w = None then (Inr dbUsed, w)
      else case redis_get key w of
        (Inr v, w1) \<Rightarrow> (Inr v, w1)
      | (Inl e, w1) \<Rightarrow>
          if e \<noteq> RedisNil then (Inl e, w1)
          else bindM (redis_setnx key dbUsed) (\<lambda>_. redis_get key) w1)"

definition tokenQuotaAndUsed :: "nat \<Rightarrow> (int \<times> int) db" where
  "tokenQuotaAndUsed tokenID =
     bindM (db_read (find_token tokenID)) (\<lambda>r.
       case r of
         None \<Rightarrow> failM ErrQuotaTokenNotFound
       | Some tok \<Rightarrow> bindM (usedCounter (tokenUsedKey tokenID) (tok_UsedQuota tok))
           (\<lambda>used. retM (tok_Quota tok, used)))"

definition userQuotaAndUsed :: "nat \<Rightarrow> (int \<times> int) db" where
  "userQuotaAndUsed userID =
     bindM (db_read (find_user userID)) (\<lambda>r.
       case r of
         None \<Rightarrow> failM ErrQuotaUserNotFound
       | Some u \<Rightarrow> bindM (usedCounter (userUsedKey userID) (user_UsedQuota u))
           (\<lambda>used. retM (user_Quota u, used)))"

definition remaining :: "int \<Rightarrow> int \<Rightarrow> int" where
  "remaining quota used =
     (if quota < 0 then - 1 else let r = wrap64 (quota - used) in if r < 0 then 0 else r)"

definition minRemaining :: "int \<Rightarrow> int \<Rightarrow> int" where
  "minRemaining a b =
     (if a < 0 \<and> b < 0 then - 1 else if a < 0 then b else if b < 0 then a
      else if a < b then a else b)"

definition CheckRemaining :: "nat \<Rightarrow> nat \<Rightarrow> int \<Rightarrow> int db" where
  "CheckRemaining tokenID userID estTokens =
     bindM (tokenQuotaAndUsed tokenID) (\<lambda>(tokenQuota, tokenUsed).
     bindM (userQuotaAndUsed userID) (\<lambda>(userQuota, userUsed).
       retM (minRemaining (remaining tokenQuota tokenUsed) (remaining userQuota userUsed))))"

definition HasRemaining :: "nat \<Rightarrow> nat \<Rightarrow> int \<Rightarrow> bool db" where
  "HasRemaining tokenID userID estTokens =
     bindM (CheckRemaining tokenID userID estTokens)
       (\<lambda>rem. retM (if rem < 0 then True else rem \<ge> estTokens))"

section \<open>Consumption\<close>

definition markDirty :: "nat \<Rightarrow> nat \<Rightarrow> world \<Rightarrow> world" where
  "markDirty tokenID userID w =
     w\<lparr>w_dirtyTokens := List.insert tokenID (w_dirtyTokens w),
       w_dirtyUsers := List.insert userID (w_dirtyUsers w)\<rparr>"

text \<open>\<open>used_quota = used_quota + n\<close>, refused when a row's sum is no bigint.\<close>

definition db_add_token_used :: "nat \<Rightarrow> int \<Rightarrow> unit db" where
  "db_add_token_used i n = db_write_if
     (\<lambda>w. list_all (\<lambda>t. tok_ID t = i \<longrightarrow> in_int64 (tok_UsedQuota t + n)) (w_tokens w))
     (upd_token i (\<lambda>t. t\<lparr>tok_UsedQuota := tok_UsedQuota t + n\<rparr>))"

definition db_add_user_used :: "nat \<Rightarrow> int \<Rightarrow> unit db" where
  "db_add_user_used i n = db_write_if
     (\<lambda>w. list_all (\<lambda>u. user_ID u = i \<longrightarrow> in_int64 (user_UsedQuota u + n)) (w_users w))
     (upd_user i (\<lambda>u. u\<lparr>user_UsedQuota := user_UsedQuota u + n\<rparr>))"

definition Consume :: "nat \<Rightarrow> nat \<Rightarrow> int \<Rightarrow> unit db" where
  "Consume tokenID userID actualTokens w =
     (if actualTokens \<le> 0 then (Inr (), w)
      else if w_redis w = None then
        seqM (db_add_token_used tokenID actualTokens) (db_add_user_used userID actualTokens) w
      else
        seqM (tokenQuotaAndUsed tokenID)
       (seqM (userQuotaAndUsed userID)
       (seqM (redis_incrby (tokenUsedKey tokenID) actualTokens)
       (seqM (redis_incrby (userUsedKey userID) actualTokens)
             (modifyM (markDirty tokenID userID))))) w)"

section \<open>Reset\<close>

definition ResetUserUsage :: "nat \<Rightarrow> unit db" where
  "ResetUserUsage userID =
     seqM (db_write (set_user_used userID 0))
    (seqM (modifyM (\<lambda>w. w\<lparr>w_dirtyUsers := removeAll userID (w_dirtyUsers w)\<rparr>))
          (\<lambda>w. if w_redis w = None then (Inr (), w) else redis_del (userUsedKey userID) w))"

section \<open>Write-back\<close>

definition requeueToken :: "nat \<Rightarrow> world \<Rightarrow> world" where
  "requeueToken i w = w\<lparr>w_dirtyTokens := List.insert i (w_dirtyTokens w)\<rparr>"

definition requeueUser :: "nat \<Rightarrow> world \<Rightarrow> world" where
  "requeueUser i w = w\<lparr>w_dirtyUsers := List.insert i (w_dirtyUsers w)\<rparr>"

definition first_err :: "err option \<Rightarrow> err \<Rightarrow> err option" where
  "first_err firstErr e = (case firstErr of None \<Rightarrow> Some e | Some x \<Rightarrow> Some x)"

text \<open>The body of both flush loops, for one entity.\<close>

definition flush_one ::
  "(nat \<Rightarrow> string) \<Rightarrow> (nat \<Rightarrow> int \<Rightarrow> world \<Rightarrow> world) \<Rightarrow> (nat \<Rightarrow> world \<Rightarrow> world) \<Rightarrow> nat \<Rightarrow>
     err option \<times> world \<Rightarrow> err option \<times> world" where
  "flush_one key set_used requeue i st =
     (let (firstErr, w) = st in
      case redis_get (key i) w of
        (Inl e, w1) \<Rightarrow>
          if e = RedisNil then (firstErr, w1) else (first_err firstErr e, requeue i w1)
      | (Inr v, w1) \<Rightarrow>
          (case db_write (set_used i v) w1 of
             (Inl e, w2) \<Rightarrow> (first_err firstErr e, requeue i w2)
           | (Inr _, w2) \<Rightarrow> (firstErr, w2)))"

definition flush_tokens :: "nat list \<Rightarrow> err option \<times> world \<Rightarrow> err option \<times> world" where
  "flush_tokens = fold (flush_one tokenUsedKey set_token_used requeueToken)"

definition flush_users :: "nat list \<Rightarrow> err option \<times> world \<Rightarrow> err option \<times> world" where
  "flush_users = fold (flush_one userUsedKey set_user_used requeueUser)"

definition WriteBack :: "unit db" where
  "WriteBack w =
     (if w_redis w = None then (Inr (), w)
      else
        let ts = w_dirtyTokens w; us = w_dirtyUsers w;
            (firstErr, w') = flush_users us (flush_tokens ts
               (None, w\<lparr>w_dirtyTokens := [], w_dirtyUsers := []\<rparr>))
        in (case firstErr of None \<Rightarrow> Inr () | Some e \<Rightarrow> Inl e, w'))"

section \<open>One level of counters\<close>

text \<open>
  The live count of an entity: its Redis counter, or its column when there is no counter.
\<close>

definition live ::
  "(nat \<Rightarrow> string) \<Rightarrow> (world \<Rightarrow> nat \<Rightarrow> int option) \<Rightarrow> world \<Rightarrow> nat \<Rightarrow> int option" where
  "live key db w i = (case db w i of None \<Rightarrow> None
     | Some d \<Rightarrow> Some (case redis_val w (key i) of Some v \<Rightarrow> v | None \<Rightarrow> d))"

text \<open>\<open>settled\<close>: a counter that is neither dirty nor pending agrees with its column.\<close>

definition settled ::
  "(nat \<Rightarrow> string) \<Rightarrow> (world \<Rightarrow> nat \<Rightarrow> int option) \<Rightarrow> (world \<Rightarrow> nat set) \<Rightarrow> nat set \<Rightarrow> world \<Rightarrow> bool" where
  "settled key db dirty pending w \<longleftrightarrow>
     (\<forall>i v d. i \<notin> dirty w \<longrightarrow> i \<notin> pending \<longrightarrow> redis_val w (key i) = Some v \<longrightarrow> db w i = Some d \<longrightarrow> d = v)"

locale counter_level =
  fixes key :: "nat \<Rightarrow> string"
    and db_used :: "world \<Rightarrow> nat \<Rightarrow> int option"
    and set_used :: "nat \<Rightarrow> int \<Rightarrow> world \<Rightarrow> world"
    and dirty :: "world \<Rightarrow> nat set"
    and requeue :: "nat \<Rightarrow> world \<Rightarrow> world"
  assumes key_inj: "key i = key j \<longleftrightarrow> i = j"
    and db_set: "db_used (set_used i v w) j = (if j = i then map_option (\<lambda>_. v) (db_used w i) else db_used w j)"
    and redis_set: "w_redis (set_used i v w) = w_redis w"
    and dirty_set: "dirty (set_used i v w) = dirty w"
    and db_requeue: "db_used (requeue i w) j = db_used w j"
    and redis_requeue: "w_redis (requeue i w) = w_redis w"
    and dirty_requeue: "dirty (requeue i w) = insert i (dirty w)"
    and db_faults: "db_used (w\<lparr>w_faults := fs\<rparr>) j = db_used w j"
    and dirty_faults: "dirty (w\<lparr>w_faults := fs\<rparr>) = dirty w"
    and db_redis: "db_used (w\<lparr>w_redis := m\<rparr>) j = db_used w j"
    and dirty_redis: "dirty (w\<lparr>w_redis := m\<rparr>) = dirty w"
begin

lemmas level_simps = db_set redis_set dirty_set db_requeue redis_requeue dirty_requeue
  db_faults dirty_faults db_redis dirty_redis key_inj

lemma redis_val_level [simp]:
  "redis_val (set_used i v w) k = redis_val w k" "redis_val (requeue i w) k = redis_val w k"
  "redis_val (w\<lparr>w_faults := fs\<rparr>) k = redis_val w k"
  by (simp_all add: redis_val_def redis_set redis_requeue)

lemma redis_get_cases:
  obtains (found) v fs where "redis_get (key i) w = (Inr v, w\<lparr>w_faults := fs\<rparr>)"
      "redis_val w (key i) = Some v"
  | (missing) fs where "redis_get (key i) w = (Inl RedisNil, w\<lparr>w_faults := fs\<rparr>)"
      "redis_val w (key i) = None"
  | (failed) fs where "redis_get (key i) w = (Inl ErrRedis, w\<lparr>w_faults := fs\<rparr>)"
proof (cases rule: io_cases [of ErrRedis w])
  case (ok fs)
  show thesis
  proof (cases "redis_val w (key i)")
    case None
    with ok show thesis by (intro missing [of fs]) (simp_all add: redis_get_def bindM_def)
  next
    case (Some v)
    with ok show thesis by (intro found [of v fs]) (simp_all add: redis_get_def bindM_def)
  qed
next
  case (fail fs)
  then show thesis by (intro failed [of fs]) (simp add: redis_get_def bindM_def)
qed

lemma db_write_cases:
  obtains (ok) fs where "db_write f w = (Inr (), f (w\<lparr>w_faults := fs\<rparr>))"
  | (fail) fs where "db_write f w = (Inl ErrDB, w\<lparr>w_faults := fs\<rparr>)"
  by (cases rule: io_cases [of ErrDB w]) (auto simp: db_write_def bindM_def)

text \<open>Flushing one counter changes no live count and settles it, or leaves it dirty.\<close>

lemma flush_one_step:
  assumes "flush_one key set_used requeue i (fe, w) = (fe', w')"
  shows "live key db_used w' j = live key db_used w j \<and> w_redis w' = w_redis w
    \<and> (settled key db_used dirty (insert i P) w \<longrightarrow> settled key db_used dirty P w')"
proof (cases rule: redis_get_cases [of i w])
  case (found v fs)
  let ?w1 = "w\<lparr>w_faults := fs\<rparr>"
  show ?thesis
  proof (cases rule: db_write_cases [of "set_used i v" ?w1])
    case (ok gs)
    with found assms have "w' = set_used i v (w\<lparr>w_faults := gs\<rparr>)"
      by (simp add: flush_one_def)
    with found show ?thesis
      by (auto simp: live_def settled_def level_simps split: option.splits)
  next
    case (fail gs)
    with found assms have "w' = requeue i (w\<lparr>w_faults := gs\<rparr>)"
      by (simp add: flush_one_def)
    then show ?thesis by (auto simp: live_def settled_def level_simps split: option.splits)
  qed
next
  case (missing fs)
  with assms have "w' = w\<lparr>w_faults := fs\<rparr>" by (simp add: flush_one_def)
  with missing show ?thesis by (auto simp: live_def settled_def level_simps split: option.splits)
next
  case (failed fs)
  with assms have "w' = requeue i (w\<lparr>w_faults := fs\<rparr>)" by (simp add: flush_one_def)
  then show ?thesis by (auto simp: live_def settled_def level_simps split: option.splits)
qed

lemma flush_all:
  "fold (flush_one key set_used requeue) is (fe, w) = (fe', w') \<Longrightarrow>
     live key db_used w' j = live key db_used w j \<and> w_redis w' = w_redis w
     \<and> (settled key db_used dirty (set is \<union> P) w \<longrightarrow> settled key db_used dirty P w')"
proof (induction "is" arbitrary: fe w)
  case (Cons i "is")
  obtain fe1 w1 where s: "flush_one key set_used requeue i (fe, w) = (fe1, w1)" by fastforce
  with Cons.prems have r: "fold (flush_one key set_used requeue) is (fe1, w1) = (fe', w')"
    by simp
  from flush_one_step [OF s, of j "set is \<union> P"] Cons.IH [OF r] show ?case by simp
qed simp

lemma flush_one_ok:
  assumes "w_faults w = []"
  shows "flush_one key set_used requeue i (fe, w) =
    (fe, case redis_val w (key i) of None \<Rightarrow> w | Some v \<Rightarrow> set_used i v w)"
  using assms by (simp add: flush_one_def redis_get_ok split: option.splits)

text \<open>Adding to a counter that is loaded adds to the live count of that entity only.\<close>

lemma live_incr:
  assumes "w_redis w \<noteq> None" and "redis_val w (key i) = Some u"
  shows "live key db_used (redis_upd (key i) (Some (u + n)) w) j =
    (if j = i then map_option (\<lambda>x. x + n) (live key db_used w i) else live key db_used w j)"
proof -
  have "db_used (redis_upd (key i) x w) j = db_used w j" for x j
    unfolding redis_upd_def by (rule db_redis)
  with assms show ?thesis by (auto simp: live_def key_inj split: option.splits)
qed

text \<open>When nothing is pending or dirty, losing the counters loses no usage.\<close>

lemma wipe_safe:
  assumes "settled key db_used dirty {} w" and "dirty w = {}"
  shows "live key db_used (w\<lparr>w_redis := Some Map.empty\<rparr>) i = live key db_used w i"
proof -
  have "redis_val (w\<lparr>w_redis := Some Map.empty\<rparr>) k = None" for k by (simp add: redis_val_def)
  with assms show ?thesis
    by (auto simp: live_def settled_def level_simps split: option.splits)
qed

end

lemma find_map_upd:
  "(\<And>x. idf (f x) = idf x) \<Longrightarrow>
     find (\<lambda>x. idf x = j) (map (\<lambda>x. if idf x = i then f x else x) xs) =
       (if j = i then map_option f (find (\<lambda>x. idf x = i) xs) else find (\<lambda>x. idf x = j) xs)"
  by (induction xs) auto

interpretation tok: counter_level tokenUsedKey db_token_used set_token_used
  "\<lambda>w. set (w_dirtyTokens w)" requeueToken
  by unfold_locales
    (auto simp: tokenUsedKey_def db_token_used_def set_token_used_def upd_token_def find_token_def
      requeueToken_def find_map_upd option.map_comp comp_def)

interpretation usr: counter_level userUsedKey db_user_used set_user_used
  "\<lambda>w. set (w_dirtyUsers w)" requeueUser
  by unfold_locales
    (auto simp: userUsedKey_def db_user_used_def set_user_used_def upd_user_def find_user_def
      requeueUser_def find_map_upd option.map_comp comp_def)

lemma user_token_keys [simp]:
  "userUsedKey i \<noteq> tokenUsedKey j" "tokenUsedKey j \<noteq> userUsedKey i"
  by (simp_all add: tokenUsedKey_def userUsedKey_def)

lemma key_inj [simp]:
  "userUsedKey i = userUsedKey j \<longleftrightarrow> i = j" "tokenUsedKey i = tokenUsedKey j \<longleftrightarrow> i = j"
  by (simp_all add: tokenUsedKey_def userUsedKey_def)

abbreviation live_token :: "world \<Rightarrow> nat \<Rightarrow> int option" where
  "live_token \<equiv> live tokenUsedKey db_token_used"

abbreviation live_user :: "world \<Rightarrow> nat \<Rightarrow> int option" where
  "live_user \<equiv> live userUsedKey db_user_used"

text \<open>
  \<open>sound\<close>: at both levels every counter that is not dirty agrees with its column, so that
  the write-back loop misses nothing.
\<close>

definition sound :: "world \<Rightarrow> bool" where
  "sound w \<longleftrightarrow>
     settled tokenUsedKey db_token_used (\<lambda>w. set (w_dirtyTokens w)) {} w
     \<and> settled userUsedKey db_user_used (\<lambda>w. set (w_dirtyUsers w)) {} w"

section \<open>Lazy loading\<close>

text \<open>The only change a read makes: counters that were missing appear, with the column's value.\<close>

definition backing :: "world \<Rightarrow> string \<Rightarrow> int \<Rightarrow> bool" where
  "backing w k v \<longleftrightarrow> (\<forall>i. k = tokenUsedKey i \<longrightarrow> db_token_used w i = Some v)
     \<and> (\<forall>i. k = userUsedKey i \<longrightarrow> db_user_used w i = Some v)"

definition lazy_load :: "world \<Rightarrow> world \<Rightarrow> bool" where
  "lazy_load w w' \<longleftrightarrow>
     (\<exists>m fs. w' = w\<lparr>w_redis := m, w_faults := fs\<rparr>) \<and> (w_redis w' = None \<longleftrightarrow> w_redis w = None)
     \<and> (\<forall>k. redis_val w' k = redis_val w k
          \<or> redis_val w k = None \<and> (\<exists>v. redis_val w' k = Some v \<and> backing w k v))"

lemma lazy_load_frame:
  assumes "lazy_load w w'"
  shows "w_users w' = w_users w" "w_tokens w' = w_tokens w" "w_prices w' = w_prices w"
    "w_logs w' = w_logs w" "w_channels w' = w_channels w" "w_rules w' = w_rules w"
    "w_options w' = w_options w" "w_dirtyTokens w' = w_dirtyTokens w"
    "w_dirtyUsers w' = w_dirtyUsers w" "w_now w' = w_now w" "w_seq w' = w_seq w"
    "find_token i w' = find_token i w" "find_user j w' = find_user j w"
    "db_token_used w' = db_token_used w" "db_user_used w' = db_user_used w"
  using assms
  by (auto simp: lazy_load_def find_token_def find_user_def db_token_used_def db_user_used_def
      fun_eq_iff)

lemma lazy_load_refl [simp]: "lazy_load w w"
  unfolding lazy_load_def by (auto intro!: exI [of _ "w_redis w"] exI [of _ "w_faults w"])

lemma lazy_load_faults [simp]: "lazy_load w (w\<lparr>w_faults := fs\<rparr>)"
  unfolding lazy_load_def by (auto simp: redis_val_def intro!: exI [of _ "w_redis w"])

lemma lazy_load_same: "same_data w w' \<Longrightarrow> lazy_load w w'"
  by (metis same_data_def lazy_load_faults)

lemma lazy_load_val:
  assumes "lazy_load w w'"
  shows "redis_val w' k = redis_val w k
    \<or> redis_val w k = None \<and> (\<exists>v. redis_val w' k = Some v \<and> backing w k v)"
  using assms unfolding lazy_load_def by blast

lemma lazy_load_on: "lazy_load w w' \<Longrightarrow> w_redis w' = None \<longleftrightarrow> w_redis w = None"
  unfolding lazy_load_def by (elim conjE)

lemma lazy_load_trans [trans]:
  assumes "lazy_load w v" "lazy_load v u"
  shows "lazy_load w u"
  unfolding lazy_load_def
proof (intro conjI allI)
  show "\<exists>m fs. u = w\<lparr>w_redis := m, w_faults := fs\<rparr>"
  proof -
    obtain m fs where v: "v = w\<lparr>w_redis := m, w_faults := fs\<rparr>"
      using assms(1) unfolding lazy_load_def by blast
    obtain m' fs' where "u = v\<lparr>w_redis := m', w_faults := fs'\<rparr>"
      using assms(2) unfolding lazy_load_def by blast
    with v have "u = w\<lparr>w_redis := m', w_faults := fs'\<rparr>" by simp
    then show ?thesis by blast
  qed
  show "(w_redis u = None) = (w_redis w = None)" using lazy_load_on [OF assms(1)] lazy_load_on [OF assms(2)] by simp
  fix k
  have b: "backing v k x = backing w k x" for x
    using lazy_load_frame [OF assms(1)] by (simp add: backing_def)
  show "redis_val u k = redis_val w k
      \<or> redis_val w k = None \<and> (\<exists>x. redis_val u k = Some x \<and> backing w k x)"
    using lazy_load_val [OF assms(1), of k] lazy_load_val [OF assms(2), of k] b by auto
qed

lemma lazy_load_live:
  assumes "lazy_load w w'"
  shows "live_token w' i = live_token w i" "live_user w' j = live_user w j"
proof -
  note db = lazy_load_frame(14,15) [OF assms]
  show "live_token w' i = live_token w i"
    using lazy_load_val [OF assms, of "tokenUsedKey i"] db
    by (auto simp: live_def backing_def split: option.split)
  show "live_user w' j = live_user w j"
    using lazy_load_val [OF assms, of "userUsedKey j"] db
    by (auto simp: live_def backing_def split: option.split)
qed

lemma lazy_load_sound:
  assumes "lazy_load w w'" "sound w"
  shows "sound w'"
proof -
  note db = lazy_load_frame [OF assms(1)]
  have "settled tokenUsedKey db_token_used (\<lambda>w. set (w_dirtyTokens w)) {} w'"
    unfolding settled_def
  proof (intro allI impI)
    fix i v d
    assume "i \<notin> set (w_dirtyTokens w')" "redis_val w' (tokenUsedKey i) = Some v"
      "db_token_used w' i = Some d"
    with lazy_load_val [OF assms(1), of "tokenUsedKey i"] assms(2) db show "d = v"
      by (auto simp: sound_def settled_def backing_def)
  qed
  moreover have "settled userUsedKey db_user_used (\<lambda>w. set (w_dirtyUsers w)) {} w'"
    unfolding settled_def
  proof (intro allI impI)
    fix i v d
    assume "i \<notin> set (w_dirtyUsers w')" "redis_val w' (userUsedKey i) = Some v"
      "db_user_used w' i = Some d"
    with lazy_load_val [OF assms(1), of "userUsedKey i"] assms(2) db show "d = v"
      by (auto simp: sound_def settled_def backing_def)
  qed
  ultimately show ?thesis by (simp add: sound_def)
qed

lemma redis_val_faults [simp]: "redis_val (w\<lparr>w_faults := fs\<rparr>) k = redis_val w k"
  by (simp add: redis_val_def)

lemma redis_get_step:
  "redis_get k w = (r, w') \<Longrightarrow> same_data w w' \<and>
     (r = Inl ErrRedis \<or> r = (case redis_val w k of None \<Rightarrow> Inl RedisNil | Some v \<Rightarrow> Inr v))"
  by (cases rule: io_cases [of ErrRedis w])
    (auto simp: redis_get_def bindM_def split: option.splits)

lemma lazy_load_upd:
  assumes "w_redis w \<noteq> None" "redis_val w k = None" "backing w k d"
  shows "lazy_load w (redis_upd k (Some d) w)"
  unfolding lazy_load_def
proof (intro conjI allI)
  show "\<exists>m fs. redis_upd k (Some d) w = w\<lparr>w_redis := m, w_faults := fs\<rparr>"
    by (auto simp: redis_upd_def intro!: exI [of _ "w_faults w"])
qed (use assms in auto)

lemma redis_setnx_step:
  assumes "redis_setnx k d w = (r, w')" "w_redis w \<noteq> None" "backing w k d"
  shows "lazy_load w w' \<and> (r = Inr () \<longrightarrow> redis_val w' k = Some (case redis_val w k of None \<Rightarrow> d | Some v \<Rightarrow> v))"
proof (cases rule: io_cases [of ErrRedis w])
  case (ok fs)
  let ?w = "w\<lparr>w_faults := fs\<rparr>"
  have b: "backing ?w k d"
    using assms(3) lazy_load_frame [OF lazy_load_faults [of w fs]] by (simp add: backing_def)
  show ?thesis
  proof (cases "redis_val w k")
    case None
    with ok assms have w': "w' = redis_upd k (Some d) ?w" by (auto simp: redis_setnx_def bindM_def)
    have "lazy_load w w'"
      unfolding w' using lazy_load_trans [OF lazy_load_faults lazy_load_upd [of ?w k d]] assms(2) b None
      by simp
    then show ?thesis using None assms(2) by (simp add: w')
  next
    case (Some v)
    with ok assms show ?thesis by (auto simp: redis_setnx_def bindM_def)
  qed
next
  case (fail fs)
  with assms show ?thesis by (auto simp: redis_setnx_def bindM_def)
qed

lemma usedCounter_step:
  assumes "usedCounter k d w = (r, w')" and "backing w k d"
  shows "lazy_load w w' \<and> (\<forall>v. r = Inr v \<longrightarrow> v = (case redis_val w k of Some x \<Rightarrow> x | None \<Rightarrow> d)
         \<and> (w_redis w \<noteq> None \<longrightarrow> redis_val w' k = Some v))"
proof (cases "w_redis w = None")
  case True
  with assms show ?thesis by (auto simp: usedCounter_def redis_val_def)
next
  case on: False
  obtain r1 w1 where g: "redis_get k w = (r1, w1)" by fastforce
  note g1 = redis_get_step [OF g]
  from g1 have val1: "redis_val w1 = redis_val w" and on1: "w_redis w1 \<noteq> None"
      and b1: "backing w1 k d" and ll1: "lazy_load w w1"
    using on assms(2) lazy_load_frame [OF lazy_load_same [of w w1]]
    by (auto simp: fun_eq_iff redis_val_data same_dataD backing_def lazy_load_same)
  show ?thesis
  proof (cases "r1 = Inl RedisNil")
    case False
    with g on assms have "r = r1 \<and> w' = w1"
      by (auto simp: usedCounter_def split: sum.splits if_splits)
    with g1 val1 ll1 False show ?thesis by (auto split: option.splits)
  next
    case True
    with g1 have none: "redis_val w k = None" by (auto split: option.splits)
    from True g on assms have run: "bindM (redis_setnx k d) (\<lambda>_. redis_get k) w1 = (r, w')"
      by (simp add: usedCounter_def del: not_None_eq)
    obtain r2 w2 where s: "redis_setnx k d w1 = (r2, w2)" by fastforce
    note s1 = redis_setnx_step [OF s on1 b1]
    show ?thesis
    proof (cases r2)
      case (Inl e)
      with s run have "r = Inl e" "w' = w2" by (auto simp: bindM_def)
      with s1 ll1 lazy_load_trans show ?thesis by blast
    next
      case (Inr u)
      with s run have g3: "redis_get k w2 = (r, w')" by (simp add: bindM_def)
      from s1 Inr none val1 have v2: "redis_val w2 k = Some d" by simp
      from redis_get_step [OF g3] v2 have "lazy_load w2 w'"
          and "r = Inl ErrRedis \<or> r = Inr d" and "redis_val w' k = Some d"
        by (auto simp: lazy_load_same redis_val_data)
      with s1 ll1 lazy_load_trans none show ?thesis by (auto intro: lazy_load_trans)
    qed
  qed
qed

lemma usedCounter_ok:
  assumes "w_faults w = []"
  shows "\<exists>v w'. usedCounter k d w = (Inr v, w') \<and> w_faults w' = []"
  using assms
  by (auto simp: usedCounter_def redis_get_ok redis_setnx_def bindM_def redis_val_def redis_upd_def
      split: option.splits)

lemma tokenQuotaAndUsed_step:
  assumes "tokenQuotaAndUsed i w = (r, w')"
  shows "lazy_load w w' \<and> (\<forall>q u. r = Inr (q, u) \<longrightarrow>
     (\<exists>tok. find_token i w = Some tok \<and> q = tok_Quota tok \<and> live_token w i = Some u
       \<and> (w_redis w \<noteq> None \<longrightarrow> redis_val w' (tokenUsedKey i) = Some u)))"
proof -
  obtain r1 w1 where d: "db_read (find_token i) w = (r1, w1)" by fastforce
  have sd: "same_data w w1" by (rule db_read_data [OF d])
  show ?thesis
  proof (cases "\<exists>tok. r1 = Inr (Some tok)")
    case False
    with d assms show ?thesis using lazy_load_same [OF sd]
      by (auto simp: tokenQuotaAndUsed_def bindM_def split: sum.splits option.splits)
  next
    case True
    then obtain t where t: "r1 = Inr (Some t)" by blast
    with d have ft: "find_token i w = Some t"
      using db_read_Inr [of "find_token i" w "Some t" w1] by (simp add: find_token_def)
    with d t assms have run: "bindM (usedCounter (tokenUsedKey i) (tok_UsedQuota t))
        (\<lambda>used. retM (tok_Quota t, used)) w1 = (r, w')"
      by (simp add: tokenQuotaAndUsed_def bindM_def)
    obtain r2 where u: "usedCounter (tokenUsedKey i) (tok_UsedQuota t) w1 = (r2, w')"
      and r: "r = (case r2 of Inl e \<Rightarrow> Inl e | Inr x \<Rightarrow> Inr (tok_Quota t, x))"
      using run by (auto simp: bindM_def split: prod.splits sum.splits)
    have b: "backing w1 (tokenUsedKey i) (tok_UsedQuota t)"
      using ft lazy_load_frame [OF lazy_load_same [OF sd]] by (simp add: backing_def db_token_used_def)
    from usedCounter_step [OF u b] lazy_load_same [OF sd] ft r show ?thesis
      using redis_val_data [OF sd] same_dataD [OF sd]
      by (auto simp: live_def db_token_used_def intro: lazy_load_trans split: sum.splits option.splits)
  qed
qed

lemma userQuotaAndUsed_step:
  assumes "userQuotaAndUsed i w = (r, w')"
  shows "lazy_load w w' \<and> (\<forall>q u. r = Inr (q, u) \<longrightarrow>
     (\<exists>usr. find_user i w = Some usr \<and> q = user_Quota usr \<and> live_user w i = Some u
       \<and> (w_redis w \<noteq> None \<longrightarrow> redis_val w' (userUsedKey i) = Some u)))"
proof -
  obtain r1 w1 where d: "db_read (find_user i) w = (r1, w1)" by fastforce
  have sd: "same_data w w1" by (rule db_read_data [OF d])
  show ?thesis
  proof (cases "\<exists>usr. r1 = Inr (Some usr)")
    case False
    with d assms show ?thesis using lazy_load_same [OF sd]
      by (auto simp: userQuotaAndUsed_def bindM_def split: sum.splits option.splits)
  next
    case True
    then obtain t where t: "r1 = Inr (Some t)" by blast
    with d have ft: "find_user i w = Some t"
      using db_read_Inr [of "find_user i" w "Some t" w1] by (simp add: find_user_def)
    with d t assms have run: "bindM (usedCounter (userUsedKey i) (user_UsedQuota t))
        (\<lambda>used. retM (user_Quota t, used)) w1 = (r, w')"
      by (simp add: userQuotaAndUsed_def bindM_def)
    obtain r2 where u: "usedCounter (userUsedKey i) (user_UsedQuota t) w1 = (r2, w')"
      and r: "r = (case r2 of Inl e \<Rightarrow> Inl e | Inr x \<Rightarrow> Inr (user_Quota t, x))"
      using run by (auto simp: bindM_def split: prod.splits sum.splits)
    have b: "backing w1 (userUsedKey i) (user_UsedQuota t)"
      using ft lazy_load_frame [OF lazy_load_same [OF sd]] by (simp add: backing_def db_user_used_def)
    from usedCounter_step [OF u b] lazy_load_same [OF sd] ft r show ?thesis
      using redis_val_data [OF sd] same_dataD [OF sd]
      by (auto simp: live_def db_user_used_def intro: lazy_load_trans split: sum.splits option.splits)
  qed
qed

section \<open>Operations without failures\<close>

lemma tokenQuotaAndUsed_ok:
  assumes "w_faults w = []" "find_token i w = Some tok" "live_token w i = Some u"
  shows "\<exists>w'. tokenQuotaAndUsed i w = (Inr (tok_Quota tok, u), w') \<and> w_faults w' = []
    \<and> lazy_load w w' \<and> (w_redis w \<noteq> None \<longrightarrow> redis_val w' (tokenUsedKey i) = Some u)"
proof -
  obtain v w' where "usedCounter (tokenUsedKey i) (tok_UsedQuota tok) w = (Inr v, w')" "w_faults w' = []"
    using usedCounter_ok [OF assms(1)] by blast
  with assms have run: "tokenQuotaAndUsed i w = (Inr (tok_Quota tok, v), w')"
    by (simp add: tokenQuotaAndUsed_def bindM_def)
  from tokenQuotaAndUsed_step [OF run] assms run \<open>w_faults w' = []\<close> show ?thesis by auto
qed

lemma userQuotaAndUsed_ok:
  assumes "w_faults w = []" "find_user i w = Some usr" "live_user w i = Some u"
  shows "\<exists>w'. userQuotaAndUsed i w = (Inr (user_Quota usr, u), w') \<and> w_faults w' = []
    \<and> lazy_load w w' \<and> (w_redis w \<noteq> None \<longrightarrow> redis_val w' (userUsedKey i) = Some u)"
proof -
  obtain v w' where "usedCounter (userUsedKey i) (user_UsedQuota usr) w = (Inr v, w')" "w_faults w' = []"
    using usedCounter_ok [OF assms(1)] by blast
  with assms have run: "userQuotaAndUsed i w = (Inr (user_Quota usr, v), w')"
    by (simp add: userQuotaAndUsed_def bindM_def)
  from userQuotaAndUsed_step [OF run] assms run \<open>w_faults w' = []\<close> show ?thesis by auto
qed

text \<open>Both levels loaded, one after the other.\<close>

lemma both_loaded:
  assumes "w_faults w = []" "find_token i w = Some tok" "find_user j w = Some usr"
    "live_token w i = Some tu" "live_user w j = Some uu"
  shows "\<exists>w1 w2. tokenQuotaAndUsed i w = (Inr (tok_Quota tok, tu), w1)
    \<and> userQuotaAndUsed j w1 = (Inr (user_Quota usr, uu), w2) \<and> w_faults w2 = [] \<and> lazy_load w w2
    \<and> (w_redis w \<noteq> None \<longrightarrow> redis_val w2 (tokenUsedKey i) = Some tu \<and> redis_val w2 (userUsedKey j) = Some uu)"
proof -
  obtain w1 where 1: "tokenQuotaAndUsed i w = (Inr (tok_Quota tok, tu), w1)" "w_faults w1 = []"
      "lazy_load w w1" "w_redis w \<noteq> None \<longrightarrow> redis_val w1 (tokenUsedKey i) = Some tu"
    using tokenQuotaAndUsed_ok [OF assms(1,2,4)] by blast
  have "find_user j w1 = Some usr" "live_user w1 j = Some uu"
    using assms lazy_load_frame [OF 1(3)] lazy_load_live [OF 1(3)] by auto
  then obtain w2 where 2: "userQuotaAndUsed j w1 = (Inr (user_Quota usr, uu), w2)" "w_faults w2 = []"
      "lazy_load w1 w2" "w_redis w1 \<noteq> None \<longrightarrow> redis_val w2 (userUsedKey j) = Some uu"
    using userQuotaAndUsed_ok [OF 1(2)] by blast
  have "w_redis w \<noteq> None \<longrightarrow> redis_val w2 (tokenUsedKey i) = Some tu"
    using 1(4) lazy_load_val [OF 2(3), of "tokenUsedKey i"] by auto
  with 1 2 lazy_load_on [OF 1(3)] lazy_load_trans [OF 1(3) 2(3)] show ?thesis by auto
qed

lemma remaining_exact:
  "0 \<le> u \<Longrightarrow> q < 2 ^ 63 \<Longrightarrow> u < 2 ^ 63 \<Longrightarrow> remaining q u = (if q < 0 then - 1 else max 0 (q - u))"
  by (simp add: remaining_def in_int64_def Let_def)

lemma CheckRemaining_ok:
  assumes "w_faults w = []" "find_token i w = Some tok" "find_user j w = Some usr"
    "live_token w i = Some tu" "live_user w j = Some uu"
  shows "\<exists>w'. CheckRemaining i j est w =
      (Inr (minRemaining (remaining (tok_Quota tok) tu) (remaining (user_Quota usr) uu)), w')
    \<and> lazy_load w w' \<and> w_faults w' = []"
  using both_loaded [OF assms] by (auto simp: CheckRemaining_def bindM_def)

lemma CheckRemaining_lazy: "CheckRemaining i j est w = (r, w') \<Longrightarrow> lazy_load w w'"
  by (auto simp: CheckRemaining_def bindM_def split: prod.splits sum.splits
      dest!: tokenQuotaAndUsed_step userQuotaAndUsed_step intro: lazy_load_trans)

lemma upd_token_map:
  "distinct (map tok_ID (w_tokens w)) \<Longrightarrow> find_token i w = Some t \<Longrightarrow>
     list_all (\<lambda>x. tok_ID x = i \<longrightarrow> P x) (w_tokens w) = P t"
proof -
  assume d: "distinct (map tok_ID (w_tokens w))" and f: "find_token i w = Some t"
  from f have t: "t \<in> set (w_tokens w)" "tok_ID t = i"
    by (auto simp: find_token_def find_Some_iff)
  have "x = t" if "x \<in> set (w_tokens w)" "tok_ID x = i" for x
    using d that t by (metis distinct_map inj_onD)
  with t show ?thesis unfolding list_all_iff by blast
qed

lemma upd_user_map:
  "distinct (map user_ID (w_users w)) \<Longrightarrow> find_user i w = Some t \<Longrightarrow>
     list_all (\<lambda>x. user_ID x = i \<longrightarrow> P x) (w_users w) = P t"
proof -
  assume d: "distinct (map user_ID (w_users w))" and f: "find_user i w = Some t"
  from f have t: "t \<in> set (w_users w)" "user_ID t = i"
    by (auto simp: find_user_def find_Some_iff)
  have "x = t" if "x \<in> set (w_users w)" "user_ID x = i" for x
    using d that t by (metis distinct_map inj_onD)
  with t show ?thesis unfolding list_all_iff by blast
qed

lemma find_token_upd [simp]:
  "(\<And>t. tok_ID (f t) = tok_ID t) \<Longrightarrow>
     find_token j (upd_token i f w) = (if j = i then map_option f (find_token i w) else find_token j w)"
  by (simp add: find_token_def upd_token_def find_map_upd)

lemma find_user_upd [simp]:
  "(\<And>u. user_ID (f u) = user_ID u) \<Longrightarrow>
     find_user j (upd_user i f w) = (if j = i then map_option f (find_user i w) else find_user j w)"
  by (simp add: find_user_def upd_user_def find_map_upd)

lemma upd_sel [simp]:
  "w_users (upd_token i f w) = w_users w" "w_tokens (upd_user i g w) = w_tokens w"
  "w_faults (upd_token i f w) = w_faults w" "w_faults (upd_user i g w) = w_faults w"
  "w_redis (upd_token i f w) = w_redis w" "w_redis (upd_user i g w) = w_redis w"
  "find_token k (upd_user i g w) = find_token k w" "find_user k (upd_token i f w) = find_user k w"
  "w_dirtyTokens (upd_token i f w) = w_dirtyTokens w" "w_dirtyUsers (upd_user i g w) = w_dirtyUsers w"
  "w_dirtyTokens (upd_user i g w) = w_dirtyTokens w" "w_dirtyUsers (upd_token i f w) = w_dirtyUsers w"
  by (simp_all add: upd_token_def upd_user_def find_token_def find_user_def)

lemma redis_val_on_none [simp]: "w_redis w = None \<Longrightarrow> redis_val w k = None"
  by (simp add: redis_val_def)

definition add_to :: "nat \<Rightarrow> int \<Rightarrow> (nat \<Rightarrow> int option) \<Rightarrow> nat \<Rightarrow> int option" where
  "add_to i n f j = (if j = i then map_option (\<lambda>x. x + n) (f i) else f j)"

lemma Consume_db_eq:
  assumes "w_faults w = []" "w_redis w = None" "0 < n"
    "distinct (map tok_ID (w_tokens w))" "distinct (map user_ID (w_users w))"
    "find_token i w = Some tok" "find_user j w = Some usr"
    "in_int64 (tok_UsedQuota tok + n)" "in_int64 (user_UsedQuota usr + n)"
  shows "Consume i j n w = (Inr (),
      upd_user j (\<lambda>u. u\<lparr>user_UsedQuota := user_UsedQuota u + n\<rparr>)
        (upd_token i (\<lambda>t. t\<lparr>tok_UsedQuota := tok_UsedQuota t + n\<rparr>) w))"
  using assms by (simp add: Consume_def seqM_def bindM_def db_add_token_used_def db_add_user_used_def
      db_write_if_def upd_token_map upd_user_map)

lemma Consume_db:
  assumes "w_faults w = []" "w_redis w = None" "0 < n"
    "distinct (map tok_ID (w_tokens w))" "distinct (map user_ID (w_users w))"
    "find_token i w = Some tok" "find_user j w = Some usr"
    "live_token w i = Some tu" "live_user w j = Some uu" "in_int64 (tu + n)" "in_int64 (uu + n)"
  shows "\<exists>w'. Consume i j n w = (Inr (), w') \<and> live_token w' = add_to i n (live_token w)
    \<and> live_user w' = add_to j n (live_user w) \<and> w_redis w' = None"
proof -
  have "tok_UsedQuota tok = tu" "user_UsedQuota usr = uu"
    using assms by (simp_all add: live_def db_token_used_def db_user_used_def)
  with assms have "Consume i j n w = (Inr (),
      upd_user j (\<lambda>u. u\<lparr>user_UsedQuota := user_UsedQuota u + n\<rparr>)
        (upd_token i (\<lambda>t. t\<lparr>tok_UsedQuota := tok_UsedQuota t + n\<rparr>) w))"
    by (simp add: Consume_db_eq)
  with assms show ?thesis
    by (auto simp: live_def db_token_used_def db_user_used_def add_to_def fun_eq_iff
        option.map_comp comp_def split: option.split)
qed

lemma redis_incrby_ok:
  assumes "w_faults w = []" "redis_val w k = Some v" "in_int64 (v + n)"
  shows "redis_incrby k n w = (Inr (), redis_upd k (Some (v + n)) w)"
  using assms by (simp add: redis_incrby_def bindM_def)

lemma live_markDirty [simp]:
  "live_token (markDirty i j w) = live_token w" "live_user (markDirty i j w) = live_user w"
  "redis_val (markDirty i j w) k = redis_val w k" "w_redis (markDirty i j w) = w_redis w"
  by (auto simp: markDirty_def live_def db_token_used_def db_user_used_def find_token_def
      find_user_def redis_val_def fun_eq_iff split: option.split)

lemma markDirty_sel [simp]:
  "set (w_dirtyTokens (markDirty i j w)) = insert i (set (w_dirtyTokens w))"
  "set (w_dirtyUsers (markDirty i j w)) = insert j (set (w_dirtyUsers w))"
  by (simp_all add: markDirty_def)

lemma db_used_redis_upd [simp]:
  "db_token_used (redis_upd k v w) = db_token_used w" "db_user_used (redis_upd k v w) = db_user_used w"
  by (auto simp: redis_upd_def db_token_used_def db_user_used_def find_token_def find_user_def fun_eq_iff)

lemma live_redis_upd:
  fixes n :: int
  assumes "w_redis w \<noteq> None" "live_token w i = Some tu" "live_user w j = Some uu"
    "redis_val w (tokenUsedKey i) = Some tu" "redis_val w (userUsedKey j) = Some uu"
  defines "w' \<equiv> redis_upd (userUsedKey j) (Some (uu + n)) (redis_upd (tokenUsedKey i) (Some (tu + n)) w)"
  shows "live_token w' = add_to i n (live_token w) \<and> live_user w' = add_to j n (live_user w)"
proof -
  have "w_redis (redis_upd (tokenUsedKey i) (Some (tu + n)) w) \<noteq> None" using assms(1) by simp
  with assms show ?thesis
    by (auto simp: live_def add_to_def fun_eq_iff split: option.splits)
qed

lemma Consume_redis:
  assumes "w_faults w = []" "w_redis w \<noteq> None" "0 < n"
    "find_token i w = Some tok" "find_user j w = Some usr"
    "live_token w i = Some tu" "live_user w j = Some uu" "in_int64 (tu + n)" "in_int64 (uu + n)"
  shows "\<exists>w'. Consume i j n w = (Inr (), w') \<and> live_token w' = add_to i n (live_token w)
    \<and> live_user w' = add_to j n (live_user w) \<and> w_redis w' \<noteq> None \<and> (sound w \<longrightarrow> sound w')
    \<and> i \<in> set (w_dirtyTokens w') \<and> j \<in> set (w_dirtyUsers w')"
proof -
  obtain w1 w2 where 1: "tokenQuotaAndUsed i w = (Inr (tok_Quota tok, tu), w1)"
      "userQuotaAndUsed j w1 = (Inr (user_Quota usr, uu), w2)" and f2: "w_faults w2 = []"
      and l2: "lazy_load w w2"
      and v2: "redis_val w2 (tokenUsedKey i) = Some tu" "redis_val w2 (userUsedKey j) = Some uu"
    using both_loaded [OF assms(1,4,5,6,7)] assms(2) by blast
  have on2: "w_redis w2 \<noteq> None" using lazy_load_on [OF l2] assms(2) by simp
  let ?w3 = "redis_upd (tokenUsedKey i) (Some (tu + n)) w2"
  let ?w4 = "redis_upd (userUsedKey j) (Some (uu + n)) ?w3"
  have "redis_incrby (tokenUsedKey i) n w2 = (Inr (), ?w3)"
    using redis_incrby_ok [OF f2 v2(1) assms(8)] .
  moreover have "redis_incrby (userUsedKey j) n ?w3 = (Inr (), ?w4)"
    using redis_incrby_ok [of ?w3 "userUsedKey j" uu n] f2 v2 on2 assms(9) by simp
  ultimately have run: "Consume i j n w = (Inr (), markDirty i j ?w4)"
    using assms(2,3) 1 by (simp add: Consume_def seqM_def bindM_def del: not_None_eq)
  have lv: "live_token w2 = live_token w" "live_user w2 = live_user w"
    using lazy_load_live [OF l2] by (auto simp: fun_eq_iff)
  have "sound (markDirty i j ?w4)" if "sound w"
  proof -
    have "sound w2" using lazy_load_sound [OF l2 that] .
    have db: "db_token_used (markDirty i j v) = db_token_used v"
      "db_user_used (markDirty i j v) = db_user_used v" for v
      by (auto simp: markDirty_def db_token_used_def db_user_used_def find_token_def find_user_def
          fun_eq_iff)
    have rv: "redis_val ?w4 k = (if k = userUsedKey j then Some (uu + n)
        else if k = tokenUsedKey i then Some (tu + n) else redis_val w2 k)" for k
      using on2 by simp
    show ?thesis
      using \<open>sound w2\<close> unfolding sound_def settled_def by (simp add: db rv) blast
  qed
  moreover have "live_token ?w4 = add_to i n (live_token w) \<and> live_user ?w4 = add_to j n (live_user w)"
    using live_redis_upd [OF on2 _ _ v2, of n] assms(6,7) lv by simp
  ultimately show ?thesis
    using run on2 by (intro exI [of _ "markDirty i j ?w4"]) auto
qed

section \<open>Write-back\<close>

lemma db_used_frame [simp]:
  "db_token_used (set_user_used i v w) = db_token_used w" "db_user_used (set_token_used i v w) = db_user_used w"
  "db_token_used (requeueUser i w) = db_token_used w" "db_user_used (requeueToken i w) = db_user_used w"
  "db_token_used (w\<lparr>w_faults := fs\<rparr>) = db_token_used w" "db_user_used (w\<lparr>w_faults := fs\<rparr>) = db_user_used w"
  by (auto simp: set_user_used_def set_token_used_def upd_user_def upd_token_def requeueUser_def
      requeueToken_def db_token_used_def db_user_used_def find_token_def find_user_def fun_eq_iff)

lemma dirty_frame [simp]:
  "w_dirtyTokens (set_user_used i v w) = w_dirtyTokens w" "w_dirtyUsers (set_token_used i v w) = w_dirtyUsers w"
  "w_dirtyTokens (requeueUser i w) = w_dirtyTokens w" "w_dirtyUsers (requeueToken i w) = w_dirtyUsers w"
  by (simp_all add: set_user_used_def set_token_used_def upd_user_def upd_token_def requeueUser_def
      requeueToken_def)

lemma flush_one_frame:
  assumes "\<And>v w. f (set_used i v w) = f w" "\<And>w. f (requeue i w) = f w"
    "\<And>w fs. f (w\<lparr>w_faults := fs\<rparr>) = f w"
  shows "f (snd (flush_one key set_used requeue i (fe, w))) = f w"
proof -
  have g: "f (snd (io e v)) = f v" for e v
    by (cases rule: io_cases [of e v]) (simp_all add: assms)
  have "f (snd (redis_get k v)) = f v" for k v
    using g [of ErrRedis v] by (auto simp: redis_get_def bindM_def split: prod.splits sum.splits option.splits)
  moreover have "f (snd (db_write h v)) = f (h v) \<or> f (snd (db_write h v)) = f v"
    if "\<And>v fs. f (h (v\<lparr>w_faults := fs\<rparr>)) = f (h v)" for h v
    by (cases rule: io_cases [of ErrDB v]) (simp_all add: db_write_def bindM_def assms that)
  ultimately show ?thesis
    using assms by (auto simp: flush_one_def Let_def split: prod.splits sum.splits) (metis snd_conv)+
qed

lemma flush_fold_frame:
  assumes "\<And>i v w. f (set_used i v w) = f w" "\<And>i w. f (requeue i w) = f w"
    "\<And>w fs. f (w\<lparr>w_faults := fs\<rparr>) = f w"
  shows "f (snd (fold (flush_one key set_used requeue) is st)) = f (snd st)"
proof (induction "is" arbitrary: st)
  case (Cons i "is")
  have "f (snd (flush_one key set_used requeue i st)) = f (snd st)"
    using flush_one_frame [of f set_used i requeue key "fst st" "snd st"] assms by simp
  with Cons show ?case by simp
qed simp

lemma flush_tokens_frame:
  assumes "flush_tokens ts (fe, w) = (fe', w')"
  shows "w_users w' = w_users w" "w_dirtyUsers w' = w_dirtyUsers w" "w_redis w' = w_redis w"
  using flush_fold_frame [of "\<lambda>w. (w_users w, w_dirtyUsers w, w_redis w)" set_token_used requeueToken
      tokenUsedKey ts "(fe, w)"] assms
  by (simp_all add: flush_tokens_def set_token_used_def requeueToken_def)

lemma flush_users_frame:
  assumes "flush_users us (fe, w) = (fe', w')"
  shows "w_tokens w' = w_tokens w" "w_dirtyTokens w' = w_dirtyTokens w" "w_redis w' = w_redis w"
  using flush_fold_frame [of "\<lambda>w. (w_tokens w, w_dirtyTokens w, w_redis w)" set_user_used requeueUser
      userUsedKey us "(fe, w)"] assms
  by (simp_all add: flush_users_def set_user_used_def requeueUser_def)

lemma level_cong:
  assumes "w_tokens w' = w_tokens w" "w_redis w' = w_redis w"
  shows "live_token w' = live_token w"
    and "w_dirtyTokens w' = w_dirtyTokens w \<Longrightarrow>
       settled tokenUsedKey db_token_used (\<lambda>w. set (w_dirtyTokens w)) P w'
       = settled tokenUsedKey db_token_used (\<lambda>w. set (w_dirtyTokens w)) P w"
proof -
  have eq: "redis_val w' = redis_val w" "db_token_used w' = db_token_used w"
    using assms by (simp_all add: fun_eq_iff redis_val_def db_token_used_def find_token_def)
  show "live_token w' = live_token w" unfolding live_def fun_eq_iff eq by simp
  show "w_dirtyTokens w' = w_dirtyTokens w \<Longrightarrow>
       settled tokenUsedKey db_token_used (\<lambda>w. set (w_dirtyTokens w)) P w'
       = settled tokenUsedKey db_token_used (\<lambda>w. set (w_dirtyTokens w)) P w"
    by (simp add: settled_def eq)
qed

lemma level_cong_user:
  assumes "w_users w' = w_users w" "w_redis w' = w_redis w"
  shows "live_user w' = live_user w"
    and "w_dirtyUsers w' = w_dirtyUsers w \<Longrightarrow>
       settled userUsedKey db_user_used (\<lambda>w. set (w_dirtyUsers w)) P w'
       = settled userUsedKey db_user_used (\<lambda>w. set (w_dirtyUsers w)) P w"
proof -
  have eq: "redis_val w' = redis_val w" "db_user_used w' = db_user_used w"
    using assms by (simp_all add: fun_eq_iff redis_val_def db_user_used_def find_user_def)
  show "live_user w' = live_user w" unfolding live_def fun_eq_iff eq by simp
  show "w_dirtyUsers w' = w_dirtyUsers w \<Longrightarrow>
       settled userUsedKey db_user_used (\<lambda>w. set (w_dirtyUsers w)) P w'
       = settled userUsedKey db_user_used (\<lambda>w. set (w_dirtyUsers w)) P w"
    by (simp add: settled_def eq)
qed

text \<open>The two flush loops of a write-back pass, whatever calls fail.\<close>

lemma WriteBack_step:
  assumes "WriteBack w = (r, w')"
  shows "live_token w' = live_token w \<and> live_user w' = live_user w \<and> w_redis w' = w_redis w
    \<and> (sound w \<longrightarrow> sound w')"
proof (cases "w_redis w = None")
  case True
  with assms show ?thesis by (simp add: WriteBack_def)
next
  case False
  define ts us where "ts = w_dirtyTokens w" and "us = w_dirtyUsers w"
  define w0 where "w0 = w\<lparr>w_dirtyTokens := [], w_dirtyUsers := []\<rparr>"
  obtain e1 w1 where f1: "flush_tokens ts (None, w0) = (e1, w1)" by fastforce
  obtain e2 where f2: "flush_users us (e1, w1) = (e2, w')"
    using assms False f1 by (auto simp: WriteBack_def ts_def us_def w0_def Let_def split: prod.splits)
  note t = tok.flush_all [OF f1 [unfolded flush_tokens_def]]
  note u = usr.flush_all [OF f2 [unfolded flush_users_def]]
  note fr1 = flush_tokens_frame [OF f1] and fr2 = flush_users_frame [OF f2]
  have lt: "live_token w' = live_token w"
    using t level_cong(1) [of w' w1] fr2 level_cong(1) [of w0 w] by (auto simp: w0_def fun_eq_iff)
  have lu: "live_user w' = live_user w"
    using u level_cong_user(1) [of w1 w0] fr1 level_cong_user(1) [of w0 w]
    by (auto simp: w0_def fun_eq_iff)
  have "sound w'" if "sound w"
  proof -
    have s0: "settled tokenUsedKey db_token_used (\<lambda>w. set (w_dirtyTokens w)) (set ts) w0"
      "settled userUsedKey db_user_used (\<lambda>w. set (w_dirtyUsers w)) (set us) w0"
      using that level_cong [of w0 w] level_cong_user [of w0 w]
      by (auto simp: sound_def settled_def w0_def ts_def us_def db_token_used_def db_user_used_def
          find_token_def find_user_def redis_val_def)
    have "settled tokenUsedKey db_token_used (\<lambda>w. set (w_dirtyTokens w)) {} w1"
      using t [of _ "{}"] s0(1) by simp
    moreover have "settled userUsedKey db_user_used (\<lambda>w. set (w_dirtyUsers w)) {} w'"
      using u [of _ "{}"] s0(2) level_cong_user(2) [of w1 w0 "set us"] fr1 by simp
    ultimately show ?thesis
      using level_cong(2) [of w' w1 "{}"] fr2 by (simp add: sound_def)
  qed
  with lt lu fr1 fr2 show ?thesis by (simp add: w0_def)
qed

lemma flush_fold_ok:
  assumes "\<And>i v w. w_faults (set_used i v w) = w_faults w"
    "\<And>i v w. w_dirtyTokens (set_used i v w) = w_dirtyTokens w"
    "\<And>i v w. w_dirtyUsers (set_used i v w) = w_dirtyUsers w"
    and "w_faults w = []"
  shows "\<exists>w'. fold (flush_one key set_used requeue) is (fe, w) = (fe, w') \<and> w_faults w' = []
    \<and> w_dirtyTokens w' = w_dirtyTokens w \<and> w_dirtyUsers w' = w_dirtyUsers w"
  using assms(4)
proof (induction "is" arbitrary: w)
  case (Cons i "is")
  have "flush_one key set_used requeue i (fe, w)
      = (fe, case redis_val w (key i) of None \<Rightarrow> w | Some v \<Rightarrow> set_used i v w)"
    using Cons.prems by (simp add: flush_one_def redis_get_ok split: option.splits)
  with Cons.IH [of "case redis_val w (key i) of None \<Rightarrow> w | Some v \<Rightarrow> set_used i v w"] Cons.prems assms
  show ?case by (cases "redis_val w (key i)") auto
qed simp

lemma WriteBack_ok:
  assumes "w_faults w = []" "w_redis w \<noteq> None"
  shows "\<exists>w'. WriteBack w = (Inr (), w') \<and> w_dirtyTokens w' = [] \<and> w_dirtyUsers w' = []"
proof -
  let ?w0 = "w\<lparr>w_dirtyTokens := [], w_dirtyUsers := []\<rparr>"
  obtain w1 where 1: "flush_tokens (w_dirtyTokens w) (None, ?w0) = (None, w1)" "w_faults w1 = []"
      "w_dirtyTokens w1 = []" "w_dirtyUsers w1 = []"
    unfolding flush_tokens_def
    using flush_fold_ok [of set_token_used ?w0 tokenUsedKey requeueToken "w_dirtyTokens w" None] assms(1)
    by (auto simp: set_token_used_def)
  obtain w2 where 2: "flush_users (w_dirtyUsers w) (None, w1) = (None, w2)"
      "w_dirtyTokens w2 = []" "w_dirtyUsers w2 = []"
    unfolding flush_users_def
    using flush_fold_ok [of set_user_used w1 userUsedKey requeueUser "w_dirtyUsers w" None] 1
    by (auto simp: set_user_used_def)
  from 1 2 assms show ?thesis by (simp add: WriteBack_def Let_def del: not_None_eq)
qed

section \<open>Reset\<close>

text \<open>The contract that the user service relies on, \<open>userUsageResetter\<close>.\<close>

locale usage_resetter =
  fixes reset :: "nat \<Rightarrow> unit db"
    and usage :: "world \<Rightarrow> nat \<Rightarrow> int option"
  assumes reset_zero: "reset i w = (Inr (), w') \<Longrightarrow> usage w' i = map_option (\<lambda>_. 0) (usage w i)"
    and reset_other: "reset i w = (r, w') \<Longrightarrow> j \<noteq> i \<Longrightarrow> usage w' j = usage w j"
    and reset_ok: "w_faults w = [] \<Longrightarrow> \<exists>w'. reset i w = (Inr (), w') \<and> w_faults w' = []"
    and reset_users: "reset i w = (r, w') \<Longrightarrow>
      map (\<lambda>u. u\<lparr>user_UsedQuota := 0\<rparr>) (w_users w') = map (\<lambda>u. u\<lparr>user_UsedQuota := 0\<rparr>) (w_users w)"
begin

text \<open>Resetting twice is resetting once.\<close>

lemma reset_twice:
  assumes "reset i w = (Inr (), w1)" "reset i w1 = (Inr (), w2)"
  shows "usage w2 = usage w1"
proof
  fix j
  show "usage w2 j = usage w1 j"
    using reset_zero [OF assms(1)] reset_zero [OF assms(2)] reset_other [OF assms(2), of j]
    by (cases "j = i") (auto simp: option.map_comp comp_def)
qed

lemma reset_exists:
  assumes "w_faults w = []" "usage w i = Some u"
  shows "\<exists>w'. reset i w = (Inr (), w') \<and> usage w' i = Some 0 \<and> (\<forall>j. j \<noteq> i \<longrightarrow> usage w' j = usage w j)
    \<and> w_faults w' = []"
  using reset_ok [OF assms(1), of i] reset_zero reset_other assms(2) by fastforce

end

lemma set_used_sel [simp]:
  "w_redis (set_user_used i v w) = w_redis w" "w_dirtyUsers (set_user_used i v w) = w_dirtyUsers w"
  "w_faults (set_user_used i v w) = w_faults w"
  by (simp_all add: set_user_used_def)

lemma ResetUserUsage_cases:
  assumes "ResetUserUsage i w = (r, w')"
  obtains (none) fs where "r \<noteq> Inr ()" "w' = w\<lparr>w_faults := fs\<rparr>"
  | (db) fs where "w_redis w \<noteq> None \<longrightarrow> r \<noteq> Inr ()"
      "w' = (set_user_used i 0 (w\<lparr>w_faults := fs\<rparr>))\<lparr>w_dirtyUsers := removeAll i (w_dirtyUsers w)\<rparr>"
  | (both) fs where "w_redis w \<noteq> None" "r = Inr ()"
      "w' = redis_upd (userUsedKey i) None
        ((set_user_used i 0 (w\<lparr>w_faults := fs\<rparr>))\<lparr>w_dirtyUsers := removeAll i (w_dirtyUsers w)\<rparr>)"
proof (cases rule: io_cases [of ErrDB w])
  case (fail fs)
  with assms show thesis
    by (intro none [of fs]) (auto simp: ResetUserUsage_def seqM_def bindM_def db_write_def)
next
  case (ok fs)
  define v where "v = (set_user_used i 0 (w\<lparr>w_faults := fs\<rparr>))\<lparr>w_dirtyUsers := removeAll i (w_dirtyUsers w)\<rparr>"
  have vr: "w_redis v = w_redis w" by (simp add: v_def set_user_used_def)
  from ok assms have run: "(if w_redis v = None then (Inr (), v) else redis_del (userUsedKey i) v) = (r, w')"
    by (simp add: ResetUserUsage_def seqM_def bindM_def db_write_def v_def cong: if_cong)
  show thesis
  proof (cases "w_redis w = None")
    case True
    with run vr show thesis by (intro db [of fs]) (simp_all add: v_def)
  next
    case False
    with run vr have del: "redis_del (userUsedKey i) v = (r, w')" by simp
    have f: "v\<lparr>w_faults := gs\<rparr>
        = (set_user_used i 0 (w\<lparr>w_faults := gs\<rparr>))\<lparr>w_dirtyUsers := removeAll i (w_dirtyUsers w)\<rparr>" for gs
      by (simp add: v_def set_user_used_def upd_user_def)
    show thesis
    proof (cases rule: io_cases [of ErrRedis v])
      case (ok gs)
      with del False show thesis
        by (intro both [of gs]) (auto simp: redis_del_def bindM_def f)
    next
      case (fail gs)
      with del False show thesis by (intro db [of gs]) (auto simp: redis_del_def bindM_def f)
    qed
  qed
qed


lemma db_user_used_set:
  "db_user_used (set_user_used i v w) j =
     (if j = i then map_option (\<lambda>_. v) (db_user_used w i) else db_user_used w j)"
  by (rule usr.db_set)

lemma db_user_used_dirty [simp]: "db_user_used (w\<lparr>w_dirtyUsers := ds\<rparr>) = db_user_used w"
  by (simp add: db_user_used_def find_user_def fun_eq_iff)

lemma redis_val_dirty [simp]: "redis_val (w\<lparr>w_dirtyUsers := ds\<rparr>) k = redis_val w k"
  by (simp add: redis_val_def)

lemma redis_val_set_used [simp]: "redis_val (set_user_used i v w) k = redis_val w k"
  by (rule usr.redis_val_level)

text \<open>The quota service fulfils the contract.\<close>

interpretation quota_reset: usage_resetter ResetUserUsage live_user
proof
  fix i j w r w'
  show "live_user w' i = map_option (\<lambda>_. 0) (live_user w i)" if "ResetUserUsage i w = (Inr (), w')"
    using that
    by (cases rule: ResetUserUsage_cases)
      (auto simp: live_def db_user_used_set split: option.splits)
  show "live_user w' j = live_user w j" if "ResetUserUsage i w = (r, w')" "j \<noteq> i"
    using that(1)
    by (cases rule: ResetUserUsage_cases)
      (use that(2) in \<open>auto simp: live_def db_user_used_set split: option.splits\<close>)
  show "\<exists>w'. ResetUserUsage i w = (Inr (), w') \<and> w_faults w' = []" if "w_faults w = []"
    using that by (auto simp: ResetUserUsage_def seqM_def bindM_def redis_del_def)
  show "map (\<lambda>u. u\<lparr>user_UsedQuota := 0\<rparr>) (w_users w') = map (\<lambda>u. u\<lparr>user_UsedQuota := 0\<rparr>) (w_users w)"
    if "ResetUserUsage i w = (r, w')"
    using that by (cases rule: ResetUserUsage_cases) (auto simp: set_user_used_def upd_user_def)
qed

lemma ResetUserUsage_sound:
  assumes "ResetUserUsage i w = (Inr (), w')" "sound w"
  shows "sound w'"
proof -
  have tok: "db_token_used (redis_upd k v u) = db_token_used u"
    "db_token_used (u\<lparr>w_dirtyUsers := ds\<rparr>) = db_token_used u" for k v u ds
    by (simp_all add: db_token_used_def find_token_def fun_eq_iff)
  show ?thesis
    using assms
    by (cases rule: ResetUserUsage_cases)
      (auto simp: sound_def settled_def db_user_used_set tok split: if_splits)
qed

section \<open>The write-back goroutine beside other requests\<close>

text \<open>
  The user half of a write-back pass, one Redis or database call per step: the ids still
  to flush, and the value that has been read and not yet written.  Between its steps other
  goroutines consume and, when \<open>resets\<close> is set, reset a user's usage.
\<close>

type_synonym wb_state = "world \<times> nat list \<times> (nat \<times> int) option"

inductive wb_step :: "bool \<Rightarrow> wb_state \<Rightarrow> wb_state \<Rightarrow> bool" for resets where
  snapshot: "wb_step resets (w, [], None) (w\<lparr>w_dirtyUsers := []\<rparr>, w_dirtyUsers w, None)"
| got: "redis_get (userUsedKey i) w = (Inr v, w') \<Longrightarrow>
    wb_step resets (w, i # is, None) (w', is, Some (i, v))"
| absent: "redis_get (userUsedKey i) w = (Inl RedisNil, w') \<Longrightarrow>
    wb_step resets (w, i # is, None) (w', is, None)"
| get_failed: "redis_get (userUsedKey i) w = (Inl e, w') \<Longrightarrow> e \<noteq> RedisNil \<Longrightarrow>
    wb_step resets (w, i # is, None) (requeueUser i w', is, None)"
| put: "db_write (set_user_used i v) w = (Inr (), w') \<Longrightarrow>
    wb_step resets (w, is, Some (i, v)) (w', is, None)"
| put_failed: "db_write (set_user_used i v) w = (Inl e, w') \<Longrightarrow>
    wb_step resets (w, is, Some (i, v)) (requeueUser i w', is, None)"
| consume: "Consume t u n w = (r, w') \<Longrightarrow> wb_step resets (w, is, p) (w', is, p)"
| reset: "resets \<Longrightarrow> ResetUserUsage u w = (r, w') \<Longrightarrow> wb_step resets (w, is, p) (w', is, p)"

inductive_cases wb_step_E: "wb_step resets (w, is, p) (w', is', p')"

definition user_settled :: "nat set \<Rightarrow> world \<Rightarrow> bool" where
  "user_settled P = settled userUsedKey db_user_used (\<lambda>w. set (w_dirtyUsers w)) P"

text \<open>The invariant: a counter that disagrees with its column is dirty or about to be flushed.\<close>

fun wb_inv :: "wb_state \<Rightarrow> bool" where
  "wb_inv (w, is, None) = user_settled (set is) w"
| "wb_inv (w, is, Some (i, v)) =
     (user_settled (insert i (set is)) w
      \<and> (i \<in> set (w_dirtyUsers w) \<or> i \<in> set is
         \<or> redis_val w (userUsedKey i) = Some v))"

lemma user_settledD:
  "user_settled P w \<Longrightarrow> i \<notin> set (w_dirtyUsers w) \<Longrightarrow> i \<notin> P \<Longrightarrow>
     redis_val w (userUsedKey i) = Some v \<Longrightarrow> db_user_used w i = Some d \<Longrightarrow> d = v"
  by (auto simp: user_settled_def settled_def)

lemma user_settledI:
  "(\<And>i v d. i \<notin> set (w_dirtyUsers w) \<Longrightarrow> i \<notin> P \<Longrightarrow> redis_val w (userUsedKey i) = Some v \<Longrightarrow>
     db_user_used w i = Some d \<Longrightarrow> d = v) \<Longrightarrow> user_settled P w"
  by (auto simp: user_settled_def settled_def)

lemma user_settled_same: "same_data w w' \<Longrightarrow> user_settled P w' = user_settled P w"
  by (cases w, cases w') (auto simp: same_data_def user_settled_def settled_def redis_val_def
      db_user_used_def find_user_def)

text \<open>What \<open>Consume\<close> can do to the user level, whatever fails.\<close>

definition user_consumed :: "nat \<Rightarrow> world \<Rightarrow> world \<Rightarrow> bool" where
  "user_consumed u w w' \<longleftrightarrow>
     (\<exists>w1. lazy_load w w1 \<and> db_user_used w' = db_user_used w
       \<and> (\<forall>i. redis_val w' (userUsedKey i) = redis_val w1 (userUsedKey i)
              \<or> i = u \<and> u \<in> set (w_dirtyUsers w'))
       \<and> set (w_dirtyUsers w) \<subseteq> set (w_dirtyUsers w')
       \<and> (w_redis w' = None \<longleftrightarrow> w_redis w = None))"

lemma user_consumedI:
  "lazy_load w w' \<Longrightarrow> user_consumed u w w'"
  using lazy_load_frame [of w w'] lazy_load_on [of w w']
  by (auto simp: user_consumed_def simp del: not_None_eq)

lemma redis_incrby_step:
  assumes "redis_incrby k n w = (r, w')"
  shows "(\<exists>fs. w' = w\<lparr>w_faults := fs\<rparr> \<and> r \<noteq> Inr ())
    \<or> (\<exists>fs v. w' = redis_upd k (Some v) (w\<lparr>w_faults := fs\<rparr>) \<and> r = Inr ())"
proof (cases rule: io_cases [of ErrRedis w])
  case (ok fs)
  let ?v = "(case redis_val w k of None \<Rightarrow> 0 | Some v \<Rightarrow> v) + n"
  show ?thesis
  proof (cases "in_int64 ?v")
    case True
    with ok assms have "w' = redis_upd k (Some ?v) (w\<lparr>w_faults := fs\<rparr>) \<and> r = Inr ()"
      by (simp add: redis_incrby_def bindM_def Let_def)
    then show ?thesis by blast
  next
    case False
    with ok assms have "w' = w\<lparr>w_faults := fs\<rparr> \<and> r \<noteq> Inr ()"
      by (auto simp: redis_incrby_def bindM_def Let_def)
    then show ?thesis by blast
  qed
next
  case (fail fs)
  with assms have "w' = w\<lparr>w_faults := fs\<rparr> \<and> r \<noteq> Inr ()"
    by (auto simp: redis_incrby_def bindM_def)
  then show ?thesis by blast
qed

lemma redis_incrby_frame:
  assumes "redis_incrby k n w = (r, w')"
  shows "db_user_used w' = db_user_used w \<and> w_dirtyUsers w' = w_dirtyUsers w
    \<and> (w_redis w' = None \<longleftrightarrow> w_redis w = None)
    \<and> (\<forall>k'. k' \<noteq> k \<or> r \<noteq> Inr () \<longrightarrow> redis_val w' k' = redis_val w k')"
  using redis_incrby_step [OF assms]
proof (elim disjE exE conjE)
  fix fs v
  assume w': "w' = redis_upd k (Some v) (w\<lparr>w_faults := fs\<rparr>)" and "r = Inr ()"
  then show ?thesis by (cases "w_redis w") (auto simp: redis_upd_def redis_val_def
      db_user_used_def find_user_def fun_eq_iff)
qed simp

lemma Consume_user:
  assumes run: "Consume t u n w = (r, w')" and on: "w_redis w \<noteq> None"
  shows "user_consumed u w w'"
proof (cases "n \<le> 0")
  case True
  with run show ?thesis by (simp add: Consume_def user_consumedI)
next
  case False
  obtain r1 w1 where 1: "tokenQuotaAndUsed t w = (r1, w1)" by fastforce
  obtain r2 w2 where 2: "userQuotaAndUsed u w1 = (r2, w2)" by fastforce
  obtain r3 w3 where 3: "redis_incrby (tokenUsedKey t) n w2 = (r3, w3)" by fastforce
  obtain r4 w4 where 4: "redis_incrby (userUsedKey u) n w3 = (r4, w4)" by fastforce
  have l1: "lazy_load w w1" and l2: "lazy_load w w2"
    using tokenQuotaAndUsed_step [OF 1] userQuotaAndUsed_step [OF 2] lazy_load_trans by blast+
  note fr = lazy_load_frame [OF l2]
  have run': "w' = (case r1 of Inl e \<Rightarrow> w1 | Inr _ \<Rightarrow> case r2 of Inl e \<Rightarrow> w2 | Inr _ \<Rightarrow>
      case r3 of Inl e \<Rightarrow> w3 | Inr _ \<Rightarrow> case r4 of Inl e \<Rightarrow> w4 | Inr _ \<Rightarrow> markDirty t u w4)"
    using run on False 1 2 3 4
    by (auto simp: Consume_def seqM_def bindM_def simp del: not_None_eq split: sum.splits)
  note f3 = redis_incrby_frame [OF 3] and f4 = redis_incrby_frame [OF 4]
  have v3: "db_user_used w3 = db_user_used w" "w_dirtyUsers w3 = w_dirtyUsers w"
    "redis_val w3 (userUsedKey i) = redis_val w2 (userUsedKey i)"
    "w_redis w3 = None \<longleftrightarrow> w_redis w = None" for i
    using f3 fr lazy_load_on [OF l2] by simp_all
  have v4: "db_user_used w4 = db_user_used w" "w_dirtyUsers w4 = w_dirtyUsers w"
    "w_redis w4 = None \<longleftrightarrow> w_redis w = None"
    "i \<noteq> u \<or> r4 \<noteq> Inr () \<Longrightarrow> redis_val w4 (userUsedKey i) = redis_val w2 (userUsedKey i)" for i
    using f4 v3 by simp_all
  show ?thesis
  proof (cases "(\<exists>e. r1 = Inl e) \<or> (\<exists>e. r2 = Inl e)")
    case True
    then have "w' = w1 \<or> w' = w2" using run' by (auto split: sum.splits)
    with l1 l2 show ?thesis by (auto intro: user_consumedI)
  next
    case False
    then consider "w' = w3" | "w' = w4" "r4 \<noteq> Inr ()" | "w' = markDirty t u w4"
      using run' by (auto split: sum.splits)
    then show ?thesis
    proof cases
      case 1
      then show ?thesis unfolding user_consumed_def
        by (intro exI [of _ w2]) (use l2 v3 in \<open>auto simp del: not_None_eq\<close>)
    next
      case 2
      then show ?thesis unfolding user_consumed_def
        by (intro exI [of _ w2]) (use l2 v4 in \<open>auto simp del: not_None_eq\<close>)
    next
      case 3
      have "db_user_used (markDirty t u w4) = db_user_used w4"
        by (simp add: markDirty_def db_user_used_def find_user_def fun_eq_iff)
      with 3 show ?thesis unfolding user_consumed_def
        by (intro exI [of _ w2]) (use l2 v4 in \<open>auto simp del: not_None_eq\<close>)
    qed
  qed
qed

lemma user_consumed_settled:
  assumes "user_consumed u w w'" "user_settled P w"
  shows "user_settled P w'"
proof (rule user_settledI)
  fix i v d
  assume i: "i \<notin> set (w_dirtyUsers w')" "i \<notin> P" and v: "redis_val w' (userUsedKey i) = Some v"
    and d: "db_user_used w' i = Some d"
  from assms(1) obtain w1 where w1: "lazy_load w w1" "db_user_used w' = db_user_used w"
      "redis_val w' (userUsedKey i) = redis_val w1 (userUsedKey i) \<or> i = u \<and> u \<in> set (w_dirtyUsers w')"
      "set (w_dirtyUsers w) \<subseteq> set (w_dirtyUsers w')"
    unfolding user_consumed_def by blast
  with i have "redis_val w' (userUsedKey i) = redis_val w1 (userUsedKey i)" "i \<notin> set (w_dirtyUsers w)"
    by auto
  with lazy_load_val [OF w1(1), of "userUsedKey i"] v d w1(2) user_settledD [OF assms(2) _ i(2)]
  show "d = v" by (auto simp: backing_def)
qed

lemma user_consumed_value:
  assumes "user_consumed u w w'" "redis_val w (userUsedKey i) = Some v"
  shows "i \<in> set (w_dirtyUsers w') \<or> redis_val w' (userUsedKey i) = Some v"
proof -
  from assms(1) obtain w1 where "lazy_load w w1"
      "redis_val w' (userUsedKey i) = redis_val w1 (userUsedKey i) \<or> i = u \<and> u \<in> set (w_dirtyUsers w')"
    unfolding user_consumed_def by blast
  with lazy_load_val [of w w1 "userUsedKey i"] assms(2) show ?thesis by auto
qed

lemma user_consumed_dirty:
  "user_consumed u w w' \<Longrightarrow> set (w_dirtyUsers w) \<subseteq> set (w_dirtyUsers w')"
  by (auto simp: user_consumed_def)

lemma db_write_step:
  assumes "db_write f w = (r, w')"
  shows "(\<exists>fs. r = Inr () \<and> w' = f (w\<lparr>w_faults := fs\<rparr>)) \<or> (\<exists>fs. r = Inl ErrDB \<and> w' = w\<lparr>w_faults := fs\<rparr>)"
  using assms by (cases rule: io_cases [of ErrDB w]) (auto simp: db_write_def bindM_def)

lemma requeue_settled: "user_settled (insert i P) w \<Longrightarrow> user_settled P (requeueUser i w)"
  by (auto simp: user_settled_def settled_def requeueUser_def redis_val_def db_user_used_def find_user_def)

text \<open>One step without resets preserves the invariant.\<close>

lemma wb_step_inv:
  assumes "wb_step False s s'" "wb_inv s" "w_redis (fst s) \<noteq> None"
  shows "wb_inv s' \<and> w_redis (fst s') \<noteq> None"
  using assms
proof (induction rule: wb_step.induct)
  case (snapshot w)
  then show ?case
    by (auto simp: user_settled_def settled_def redis_val_def)
next
  case (got i w v w' "is")
  then show ?case
    using redis_get_step [OF got(1)] by (auto simp: user_settled_same redis_val_data same_dataD split: option.splits)
next
  case (absent i w w' "is")
  have sd: "same_data w w'" and none: "redis_val w (userUsedKey i) = None"
    using redis_get_step [OF absent(1)] by (auto split: option.splits)
  have "user_settled (set is) w"
    using absent(2) none by (auto simp: user_settled_def settled_def)
  with sd absent show ?case by (simp add: same_dataD user_settled_same)
next
  case (get_failed i w e w' "is")
  then show ?case
    using redis_get_step [OF get_failed(1)] requeue_settled [of i "set is" w']
    by (auto simp: user_settled_same same_dataD requeueUser_def)
next
  case (put i v w w' "is")
  then obtain fs where w': "w' = set_user_used i v (w\<lparr>w_faults := fs\<rparr>)"
    using db_write_step [OF put(1)] by auto
  have "user_settled (set is) w'"
  proof (rule user_settledI)
    fix j x d
    assume j: "j \<notin> set (w_dirtyUsers w')" "j \<notin> set is" "redis_val w' (userUsedKey j) = Some x"
      "db_user_used w' j = Some d"
    show "d = x"
    proof (cases "j = i")
      case True
      with j put(2) show ?thesis by (auto simp: w' db_user_used_set)
    next
      case False
      with j put(2) user_settledD [of "insert i (set is)" w j x d] show ?thesis
        by (simp add: w' db_user_used_set)
    qed
  qed
  with put(3) show ?case by (simp add: w')
next
  case (put_failed i v w e w' "is")
  then obtain fs where w': "w' = w\<lparr>w_faults := fs\<rparr>"
    using db_write_step [OF put_failed(1)] by auto
  have "user_settled (insert i (set is)) w'"
    using put_failed(2) user_settled_same [of w w'] by (simp add: w')
  with requeue_settled [of i "set is" w'] put_failed(3) show ?case by (simp add: w' requeueUser_def)
next
  case (consume t u n w r w' "is" p)
  have uc: "user_consumed u w w'" using Consume_user [OF consume(1)] consume(3) by simp
  have "w_redis w' \<noteq> None" using uc consume(3) by (auto simp: user_consumed_def)
  moreover have "wb_inv (w', is, p)"
  proof (cases p)
    case None
    with consume(2) user_consumed_settled [OF uc] show ?thesis by simp
  next
    case (Some q)
    obtain i v where "q = (i, v)" by fastforce
    with Some consume(2) user_consumed_settled [OF uc] user_consumed_dirty [OF uc]
      user_consumed_value [OF uc, of i v] show ?thesis by auto
  qed
  ultimately show ?case by simp
qed simp

section \<open>Properties\<close>

definition sample_user :: "nat \<Rightarrow> int \<Rightarrow> int \<Rightarrow> user" where
  "sample_user i q u =
     \<lparr>user_ID = i, user_Username = ''u'', user_Password = [], user_DisplayName = [], user_Email = [],
      user_Role = RoleUser, user_Status = UserEnabled, user_Quota = q, user_UsedQuota = u,
      user_Group = ''default'', user_LastLoginAt = None\<rparr>"

definition sample_token :: "nat \<Rightarrow> nat \<Rightarrow> int \<Rightarrow> int \<Rightarrow> token_row" where
  "sample_token i owner q u =
     \<lparr>tok_ID = i, tok_UserID = owner, tok_Name = ''k'', tok_KeyHash = ''h'', tok_Status = TokenEnabled,
      tok_Quota = q, tok_UsedQuota = u, tok_ExpiredAt = None, tok_Group = ''default'',
      tok_AllowedModels = None, tok_OutputFormat = None\<rparr>"

text \<open>Token 1 (limit 50) of user 7 (limit 100), with live counts 10 and 25 in Redis.\<close>

definition quota_world :: "bool list \<Rightarrow> world" where
  "quota_world faults =
     \<lparr>w_users = [sample_user 7 100 20], w_tokens = [sample_token 1 7 50 10], w_channels = [],
      w_rules = [], w_prices = [], w_options = Map.empty, w_logs = [], w_seq = (\<lambda>_. 1),
      w_redis = Some [userUsedKey 7 \<mapsto> 25, tokenUsedKey 1 \<mapsto> 10],
      w_dirtyTokens = [], w_dirtyUsers = [7], w_faults = faults, w_now = 0\<rparr>"

lemma quota_world_facts:
  "w_faults (quota_world fs) = fs" "w_redis (quota_world fs) \<noteq> None"
  "find_token 1 (quota_world fs) = Some (sample_token 1 7 50 10)"
  "find_user 7 (quota_world fs) = Some (sample_user 7 100 20)"
  "live_token (quota_world fs) 1 = Some 10" "live_user (quota_world fs) 7 = Some 25"
  "distinct (map tok_ID (w_tokens (quota_world fs)))" "distinct (map user_ID (w_users (quota_world fs)))"
  by (simp_all add: quota_world_def find_token_def find_user_def live_def db_token_used_def
      db_user_used_def sample_token_def sample_user_def redis_val_def)

lemma quota_world_sound: "sound (quota_world fs)"
  by (auto simp: sound_def settled_def quota_world_def redis_val_def db_token_used_def
      db_user_used_def find_token_def find_user_def sample_token_def sample_user_def split: if_splits)

text \<open>
  C17. The pre-flight check reports the combined headroom: for an existing token and user
  whose live counts are tu and uu, \<open>CheckRemaining\<close> returns -1 if both quotas are unlimited
  (negative), the headroom max(0, quota - used) of the bounded level if one is, and the
  smaller of the two headrooms otherwise.  It changes no live count.
\<close>

theorem quota_check_correct:
  assumes "w_faults w = []"
    and "find_token i w = Some tok" and "live_token w i = Some tu" and "0 \<le> tu" "tu < 2 ^ 63"
    and "find_user j w = Some usr" and "live_user w j = Some uu" and "0 \<le> uu" "uu < 2 ^ 63"
    and "tok_Quota tok < 2 ^ 63" "user_Quota usr < 2 ^ 63"
  shows "\<exists>w'. CheckRemaining i j est w =
      (Inr (if tok_Quota tok < 0 \<and> user_Quota usr < 0 then - 1
            else if tok_Quota tok < 0 then max 0 (user_Quota usr - uu)
            else if user_Quota usr < 0 then max 0 (tok_Quota tok - tu)
            else min (max 0 (tok_Quota tok - tu)) (max 0 (user_Quota usr - uu))), w')
    \<and> live_token w' = live_token w \<and> live_user w' = live_user w"
proof -
  obtain w' where w': "CheckRemaining i j est w =
      (Inr (minRemaining (remaining (tok_Quota tok) tu) (remaining (user_Quota usr) uu)), w')"
      "lazy_load w w'"
    using CheckRemaining_ok [OF assms(1,2,6,3,7)] by blast
  have "minRemaining (remaining (tok_Quota tok) tu) (remaining (user_Quota usr) uu) =
      (if tok_Quota tok < 0 \<and> user_Quota usr < 0 then - 1
       else if tok_Quota tok < 0 then max 0 (user_Quota usr - uu)
       else if user_Quota usr < 0 then max 0 (tok_Quota tok - tu)
       else min (max 0 (tok_Quota tok - tu)) (max 0 (user_Quota usr - uu)))"
    using assms by (auto simp: remaining_exact minRemaining_def max_def min_def)
  with w' lazy_load_live [OF w'(2)] show ?thesis by (auto simp: fun_eq_iff)
qed

lemma quota_check_correct_witness:
  "\<exists>w'. CheckRemaining 1 7 0 (quota_world []) = (Inr 40, w')"
  using quota_check_correct [OF _ quota_world_facts(3,5) _ _ quota_world_facts(4,6), of "[]" 0]
  by (auto simp: quota_world_facts(1) sample_token_def sample_user_def)

text \<open>
  C16. Consumption is exact: recording n > 0 adds n to the live count of that token and of
  that user and changes no other live count, in both modes; with Redis both counters are
  then marked dirty and write-back soundness is kept.
\<close>

theorem consume_exact:
  assumes "w_faults w = []" and "0 < n"
    and "distinct (map tok_ID (w_tokens w))" and "distinct (map user_ID (w_users w))"
    and "find_token i w = Some tok" and "live_token w i = Some tu" and "in_int64 (tu + n)"
    and "find_user j w = Some usr" and "live_user w j = Some uu" and "in_int64 (uu + n)"
  shows "\<exists>w'. Consume i j n w = (Inr (), w')
    \<and> live_token w' = (live_token w)(i := Some (tu + n))
    \<and> live_user w' = (live_user w)(j := Some (uu + n))
    \<and> (w_redis w \<noteq> None \<longrightarrow> i \<in> set (w_dirtyTokens w') \<and> j \<in> set (w_dirtyUsers w')
         \<and> (sound w \<longrightarrow> sound w'))"
proof -
  have a: "add_to i n (live_token w) = (live_token w)(i := Some (tu + n))"
    "add_to j n (live_user w) = (live_user w)(j := Some (uu + n))"
    using assms(6,9) by (auto simp: add_to_def fun_eq_iff)
  show ?thesis
  proof (cases "w_redis w = None")
    case True
    from Consume_db [OF assms(1) True assms(2-5,8,6,9,7,10)] True show ?thesis unfolding a by blast
  next
    case False
    from Consume_redis [OF assms(1) False assms(2,5,8,6,9,7,10)] show ?thesis unfolding a by blast
  qed
qed

lemma consume_exact_witness:
  "\<exists>w'. Consume 1 7 5 (quota_world []) = (Inr (), w') \<and> live_token w' 1 = Some 15
     \<and> live_user w' 7 = Some 30 \<and> sound w'"
  using consume_exact [OF quota_world_facts(1) _ quota_world_facts(7,8,3,5) _ quota_world_facts(4,6),
      of 5] quota_world_sound quota_world_facts(2)
  by (auto simp: in_int64_def simp del: not_None_eq)

text \<open>
  C29. A write-back pass makes usage durable: from a sound state and without failures it
  empties both dirty sets and changes no live count, and after it a loss of every Redis
  counter changes no live count either.
\<close>

theorem writeback_durable:
  assumes "sound w" and "w_faults w = []" and "w_redis w \<noteq> None"
  shows "\<exists>w'. WriteBack w = (Inr (), w') \<and> w_dirtyTokens w' = [] \<and> w_dirtyUsers w' = []
    \<and> live_token w' = live_token w \<and> live_user w' = live_user w
    \<and> live_token (w'\<lparr>w_redis := Some Map.empty\<rparr>) = live_token w
    \<and> live_user (w'\<lparr>w_redis := Some Map.empty\<rparr>) = live_user w"
proof -
  obtain w' where w': "WriteBack w = (Inr (), w')" "w_dirtyTokens w' = []" "w_dirtyUsers w' = []"
    using WriteBack_ok [OF assms(2,3)] by blast
  note s = WriteBack_step [OF w'(1)]
  with assms(1) have "sound w'" by blast
  with s w' tok.wipe_safe [of w'] usr.wipe_safe [of w'] show ?thesis
    by (auto simp: sound_def fun_eq_iff)
qed

lemma writeback_durable_witness:
  "\<exists>w'. WriteBack (quota_world []) = (Inr (), w')
     \<and> live_user (w'\<lparr>w_redis := Some Map.empty\<rparr>) 7 = Some 25"
  using writeback_durable [OF quota_world_sound quota_world_facts(1,2)] quota_world_facts(6)
  by metis

text \<open>
  C12. Failures during a write-back pass lose nothing: whatever Redis and database calls
  fail, no live count changes and the state stays sound, since what could not be flushed is
  dirty again.
\<close>

theorem writeback_failure_safe:
  assumes "sound w" and "WriteBack w = (r, w')"
  shows "sound w' \<and> live_token w' = live_token w \<and> live_user w' = live_user w"
  using WriteBack_step [OF assms(2)] assms(1) by blast

lemma writeback_failure_safe_witness:
  "live_user (snd (WriteBack (quota_world [True]))) = live_user (quota_world [True])"
  using writeback_failure_safe [OF quota_world_sound prod.collapse [symmetric]] by blast

text \<open>
  Resetting a user's usage works and is not undone by a later write-back pass: without
  failures the user's live count becomes 0, no other user's changes, and both are still so
  after any write-back pass, whatever calls fail in it.
\<close>

lemma reset_not_undone_later:
  assumes "w_faults w = []" and "live_user w i = Some u"
  shows "\<exists>w1. ResetUserUsage i w = (Inr (), w1) \<and> live_user w1 = (live_user w)(i := Some 0)
    \<and> live_user (snd (WriteBack (w1\<lparr>w_faults := fs\<rparr>))) = (live_user w)(i := Some 0)"
proof -
  obtain w1 where w1: "ResetUserUsage i w = (Inr (), w1)" "live_user w1 i = Some 0"
      "\<forall>j. j \<noteq> i \<longrightarrow> live_user w1 j = live_user w j"
    using quota_reset.reset_exists [OF assms] by blast
  then have l1: "live_user w1 = (live_user w)(i := Some 0)" by (auto simp: fun_eq_iff)
  have "live_user (w1\<lparr>w_faults := fs\<rparr>) = live_user w1"
    using lazy_load_live(2) [OF lazy_load_faults [of w1 fs]] by (simp add: fun_eq_iff)
  moreover have "live_user (snd (WriteBack (w1\<lparr>w_faults := fs\<rparr>))) = live_user (w1\<lparr>w_faults := fs\<rparr>)"
    using WriteBack_step [OF prod.collapse [symmetric]] by blast
  ultimately show ?thesis using w1(1) l1 by auto
qed

lemma reset_not_undone_later_witness:
  "\<exists>w1. ResetUserUsage 7 (quota_world []) = (Inr (), w1) \<and> live_user w1 7 = Some 0"
  using reset_not_undone_later [OF quota_world_facts(1,6)] by (metis fun_upd_same)


lemma quota_world_settled: "user_settled {} (quota_world fs)"
  using quota_world_sound by (simp add: sound_def user_settled_def)


text \<open>
  With resets the interleaving is not safe: a write-back pass that has read a user's
  counter when the reset runs writes the old count back afterwards, although the reset
  dropped the dirty flag so that this should not happen.  The user's usage is then the value
  from before the successful reset.
\<close>

lemma reset_race_resurrects:
  "\<exists>w w1 w2 w3 v. sound w \<and> (wb_step True)\<^sup>*\<^sup>* (w, [], None) (w1, [], Some (7, v))
     \<and> ResetUserUsage 7 w1 = (Inr (), w2) \<and> live_user w2 7 = Some 0
     \<and> wb_step True (w2, [], Some (7, v)) (w3, [], None)
     \<and> live_user w3 7 = Some v \<and> v = 25 \<and> w_dirtyUsers w3 = []"
proof -
  let ?w = "quota_world []"
  let ?w1 = "?w\<lparr>w_dirtyUsers := []\<rparr>"
  let ?w2 = "snd (ResetUserUsage 7 ?w1)"
  let ?w3 = "set_user_used 7 25 ?w2"
  have f2: "w_faults ?w2 = []" "ResetUserUsage 7 ?w1 = (Inr (), ?w2)"
    by (simp_all add: ResetUserUsage_def seqM_def bindM_def redis_del_def quota_world_def
        set_user_used_def upd_user_def)
  have l: "live_user ?w2 7 = Some 0" "live_user ?w3 7 = Some 25" "w_dirtyUsers ?w3 = []"
    by code_simp+
  have "wb_step True (?w, [], None) (?w1, [7], None)"
    using wb_step.snapshot [of True ?w] by (simp add: quota_world_def)
  moreover have "redis_get (userUsedKey 7) ?w1 = (Inr 25, ?w1)"
    by (simp add: redis_get_ok quota_world_def redis_val_def)
  then have "wb_step True (?w1, [7], None) (?w1, [], Some (7, 25))" by (rule wb_step.got)
  ultimately have run: "(wb_step True)\<^sup>*\<^sup>* (?w, [], None) (?w1, [], Some (7, 25))"
    by (meson converse_rtranclp_into_rtranclp r_into_rtranclp)
  have put: "wb_step True (?w2, [], Some (7, 25)) (?w3, [], None)"
    by (rule wb_step.put) (rule db_write_ok [OF f2(1)])
  show ?thesis
    by (rule exI [of _ ?w], rule exI [of _ ?w1], rule exI [of _ ?w2], rule exI [of _ ?w3],
        rule exI [of _ 25], intro conjI)
      (rule quota_world_sound run f2(2) put l refl)+
qed

text \<open>
  A partial failure of \<open>Consume\<close> is outside the write-back's reach: when the token
  counter was incremented and the user increment fails, the token's usage is counted but
  not marked dirty, so the state is not sound and the column stays behind.
\<close>

lemma consume_partial_failure:
  "\<exists>w w'. sound w \<and> Consume 1 7 5 w = (Inl ErrRedis, w') \<and> live_token w' 1 = Some 15
     \<and> live_user w' 7 = Some 25 \<and> db_token_used w' 1 = Some 10 \<and> 1 \<notin> set (w_dirtyTokens w')
     \<and> \<not> sound w'"
proof -
  let ?w = "quota_world [False, False, False, False, False, True]"
  let ?w' = "snd (Consume 1 7 5 ?w)"
  have run: "fst (Consume 1 7 5 ?w) = Inl ErrRedis" by code_simp
  have l: "live_token ?w' 1 = Some 15" "live_user ?w' 7 = Some 25" "db_token_used ?w' 1 = Some 10"
    "redis_val ?w' (tokenUsedKey 1) = Some 15" "w_dirtyTokens ?w' = []"
    by code_simp+
  have "\<not> sound ?w'"
  proof
    assume "sound ?w'"
    then have "settled tokenUsedKey db_token_used (\<lambda>w. set (w_dirtyTokens w)) {} ?w'"
      by (simp add: sound_def)
    from this [unfolded settled_def, rule_format, of 1 15 10] l show False by simp
  qed
  with run l quota_world_sound show ?thesis
    by (intro exI [of _ ?w] exI [of _ ?w']) (auto simp: prod_eq_iff)
qed

end
