(* ===== verification/Unified.thy ===== *)
theory Unified
  imports Records
begin

text \<open>
  The provider-agnostic representation of package \<open>adapter\<close> (\<open>adapter.go\<close>, \<open>usage.go\<close>,
  \<open>errors.go\<close> and the stop-reason tables of \<open>transform.go\<close>): requests, responses, stream
  chunks, token usage, upstream errors, and the renderings of a message as plain text and
  as text for the routing probe.  A \<open>json.RawMessage\<close> is kept as its bytes.
\<close>

section \<open>Types\<close>

datatype stop_reason =
    StopEndTurn
  | StopMaxTokens
  | StopStopSequence
  | StopToolUse
  | StopContentFilter
  | StopUnknown

record image_source =
  img_Kind :: string
  img_URL :: string
  img_MediaType :: string
  img_Data :: string

record tool_use_block =
  tu_ID :: string
  tu_Name :: string
  tu_Input :: string

record tool_result_block =
  tr_ToolUseID :: string
  tr_Content :: string
  tr_IsError :: bool

text \<open>\<open>cb_CacheControl\<close> is the type of the marker (\<open>ephemeral\<close>), if there is one.\<close>

record content_block =
  cb_Type :: string
  cb_Text :: string
  cb_Image :: "image_source option"
  cb_ToolUse :: "tool_use_block option"
  cb_ToolResult :: "tool_result_block option"
  cb_CacheControl :: "string option"

record message =
  msg_Role :: string
  msg_Content :: "content_block list"

text \<open>A \<open>float64\<close> is represented by the number \<open>json.Marshal\<close> writes for it.\<close>

record unified_request =
  ur_Model :: string
  ur_System :: string
  ur_Messages :: "message list"
  ur_SystemCacheControl :: "string option"
  ur_Stream :: bool
  ur_MaxTokens :: "int option"
  ur_Temperature :: "string option"
  ur_TopP :: "string option"
  ur_StopSequences :: "string list"
  ur_Tools :: string
  ur_ToolChoice :: string

record usage =
  us_Prompt :: int
  us_Completion :: int
  us_Total :: int
  us_CacheRead :: int
  us_CacheWrite :: int
  us_HasUpstream :: bool
  us_Estimated :: bool

record unified_response =
  resp_Model :: string
  resp_Content :: "content_block list"
  resp_StopReason :: stop_reason
  resp_Usage :: usage

record upstream_error =
  ue_Provider :: string
  ue_StatusCode :: int
  ue_Message :: string
  ue_Body :: string

record tool_call_delta =
  tc_Index :: int
  tc_ID :: string
  tc_Name :: string
  tc_Args :: string

record stream_chunk =
  sc_Delta :: string
  sc_StopReason :: stop_reason
  sc_Usage :: "usage option"
  sc_Done :: bool
  sc_Model :: string
  sc_UpstreamErr :: "upstream_error option"
  sc_ToolCallDelta :: "tool_call_delta option"

definition empty_chunk :: stream_chunk where
  "empty_chunk = \<lparr>sc_Delta = [], sc_StopReason = StopUnknown, sc_Usage = None, sc_Done = False,
     sc_Model = [], sc_UpstreamErr = None, sc_ToolCallDelta = None\<rparr>"

definition empty_usage :: usage where
  "empty_usage = \<lparr>us_Prompt = 0, us_Completion = 0, us_Total = 0, us_CacheRead = 0,
     us_CacheWrite = 0, us_HasUpstream = False, us_Estimated = False\<rparr>"

section \<open>Blocks and messages\<close>

definition blank_block :: "string \<Rightarrow> content_block" where
  "blank_block ty = \<lparr>cb_Type = ty, cb_Text = [], cb_Image = None, cb_ToolUse = None,
     cb_ToolResult = None, cb_CacheControl = None\<rparr>"

definition TextBlock :: "string \<Rightarrow> content_block" where
  "TextBlock t = (blank_block ''text'')\<lparr>cb_Text := t\<rparr>"

definition ImageURLBlock :: "string \<Rightarrow> content_block" where
  "ImageURLBlock url = (blank_block ''image'')\<lparr>cb_Image := Some
     \<lparr>img_Kind = ''url'', img_URL = url, img_MediaType = [], img_Data = []\<rparr>\<rparr>"

definition ImageBase64Block :: "string \<Rightarrow> string \<Rightarrow> content_block" where
  "ImageBase64Block mediaType d = (blank_block ''image'')\<lparr>cb_Image := Some
     \<lparr>img_Kind = ''base64'', img_URL = [], img_MediaType = mediaType, img_Data = d\<rparr>\<rparr>"

definition ToolUseBlockOf :: "string \<Rightarrow> string \<Rightarrow> string \<Rightarrow> content_block" where
  "ToolUseBlockOf i name inp = (blank_block ''tool_use'')\<lparr>cb_ToolUse := Some
     \<lparr>tu_ID = i, tu_Name = name, tu_Input = inp\<rparr>\<rparr>"

definition ToolResultBlockOf :: "string \<Rightarrow> string \<Rightarrow> bool \<Rightarrow> content_block" where
  "ToolResultBlockOf i content isError = (blank_block ''tool_result'')\<lparr>cb_ToolResult := Some
     \<lparr>tr_ToolUseID = i, tr_Content = content, tr_IsError = isError\<rparr>\<rparr>"

definition IsImage :: "content_block \<Rightarrow> bool" where
  "IsImage c \<longleftrightarrow> cb_Type c = ''image'' \<and> cb_Image c \<noteq> None"

definition IsToolUse :: "content_block \<Rightarrow> bool" where
  "IsToolUse c \<longleftrightarrow> cb_Type c = ''tool_use'' \<and> cb_ToolUse c \<noteq> None"

definition IsToolResult :: "content_block \<Rightarrow> bool" where
  "IsToolResult c \<longleftrightarrow> cb_Type c = ''tool_result'' \<and> cb_ToolResult c \<noteq> None"

definition HasImages :: "message \<Rightarrow> bool" where
  "HasImages m = list_ex IsImage (msg_Content m)"

text \<open>
  The loop of \<open>Message.Text\<close> and \<open>UnifiedResponse.Text\<close>: \<open>acc\<close> is what has been written;
  a newline precedes a non-empty text once something has been.
\<close>

fun join_texts :: "string \<Rightarrow> content_block list \<Rightarrow> string" where
  "join_texts acc [] = acc"
| "join_texts acc (c # cs) =
     join_texts (acc @ (if acc \<noteq> [] \<and> cb_Text c \<noteq> [] then [CHR 0x0A] else []) @ cb_Text c) cs"

definition message_Text :: "message \<Rightarrow> string" where
  "message_Text m = join_texts [] (msg_Content m)"

definition response_Text :: "unified_response \<Rightarrow> string" where
  "response_Text r = join_texts [] (resp_Content r)"

lemma join_texts_char:
  "join_texts acc cs =
     str_join [CHR 0x0A] (filter (\<lambda>s. s \<noteq> []) (acc # map cb_Text cs))"
proof (induction acc cs rule: join_texts.induct)
  case (1 acc)
  then show ?case by simp
next
  case (2 acc c cs)
  then show ?case
    by (cases "filter (\<lambda>s. s \<noteq> []) (map cb_Text cs)") (auto simp: Let_def)
qed

text \<open>\<open>json.Marshal\<close> of a string, with its HTML-safe escapes.\<close>

definition json_rune :: "nat \<Rightarrow> string" where
  "json_rune r =
     (if r = 34 then [CHR 0x5C, CHR 0x22]
      else if r = 92 then [CHR 0x5C, CHR 0x5C]
      else if r = 8 then [CHR 0x5C, CHR ''b'']
      else if r = 9 then [CHR 0x5C, CHR ''t'']
      else if r = 10 then [CHR 0x5C, CHR ''n'']
      else if r = 12 then [CHR 0x5C, CHR ''f'']
      else if r = 13 then [CHR 0x5C, CHR ''r'']
      else if r < 32 \<or> r = 60 \<or> r = 62 \<or> r = 38 then
        [CHR 0x5C, CHR ''u'', CHR ''0'', CHR ''0'', hex_digit (r div 16), hex_digit (r mod 16)]
      else if r = 0x2028 then CHR 0x5C # ''u2028''
      else if r = 0x2029 then CHR 0x5C # ''u2029''
      else encode_rune r)"

text \<open>An invalid byte is written as the escape \<open>ufffd\<close>.\<close>

function json_body :: "string \<Rightarrow> string" where
  "json_body s =
     (if s = [] then []
      else (let (r, n) = decode_rune s in
        (if r = 0xFFFD \<and> n = 1 then CHR 0x5C # ''ufffd'' else json_rune r) @ json_body (drop n s)))"
  by pat_completeness auto
termination
proof (relation "measure length")
  fix s :: string and x r n
  assume "s \<noteq> []" "x = decode_rune s" "(r, n) = x"
  then have "1 \<le> n" using decode_rune_width [of s] by (metis snd_conv)
  with \<open>s \<noteq> []\<close> show "(drop n s, s) \<in> measure length" by simp
qed auto

declare json_body.simps [simp del]

definition strconvQuote :: "string \<Rightarrow> string" where
  "strconvQuote s = [CHR 0x22] @ json_body s @ [CHR 0x22]"

text \<open>The part of one block in the probe's rendering, \<open>None\<close> when it has none.\<close>

definition probe_part :: "content_block \<Rightarrow> string option" where
  "probe_part c =
     (if IsToolUse c then
        (let tu = the (cb_ToolUse c); inp = trim_space (tu_Input tu);
             inp = (if inp = [] then ''{}'' else inp) in
         Some (''[tool_use] {'' @ [CHR 0x22] @ ''input'' @ [CHR 0x22] @ '':'' @ inp @ '','' @ [CHR 0x22]
               @ ''name'' @ [CHR 0x22] @ '':'' @ strconvQuote (tu_Name tu) @ ''}''))
      else if IsToolResult c then
        (let content = trim_space (tr_Content (the (cb_ToolResult c)));
             content = (if content = [] then [CHR 0x22, CHR 0x22] else content) in
         Some (''[tool_result] '' @ content))
      else if cb_Text c \<noteq> [] then Some (cb_Text c)
      else None)"

definition ProbeText :: "message \<Rightarrow> string" where
  "ProbeText m = str_join [CHR 0x0A] (List.map_filter probe_part (msg_Content m))"

section \<open>Usage\<close>

definition normalize :: "usage \<Rightarrow> usage" where
  "normalize u =
     (if us_Total u = 0 then u\<lparr>us_Total := add64 (us_Prompt u) (us_Completion u)\<rparr> else u)"

record openai_usage =
  oa_Prompt :: int
  oa_Completion :: int
  oa_Total :: int
  oa_Cached :: "int option"

record bedrock_usage =
  bu_Input :: int
  bu_Output :: int
  bu_Total :: int
  bu_CacheRead :: int
  bu_CacheWrite :: int

record anthropic_usage =
  au_Input :: int
  au_Output :: int
  au_CacheRead :: int
  au_CacheCreation :: int

definition usageFromOpenAI :: "openai_usage option \<Rightarrow> usage" where
  "usageFromOpenAI u =
     (case u of
        None \<Rightarrow> empty_usage
      | Some u \<Rightarrow> normalize
          (let out = \<lparr>us_Prompt = oa_Prompt u, us_Completion = oa_Completion u, us_Total = oa_Total u,
                      us_CacheRead = 0, us_CacheWrite = 0, us_HasUpstream = True, us_Estimated = False\<rparr>
           in case oa_Cached u of None \<Rightarrow> out | Some c \<Rightarrow> out\<lparr>us_CacheRead := c\<rparr>))"

definition usageFromBedrock :: "bedrock_usage option \<Rightarrow> usage" where
  "usageFromBedrock u =
     (case u of
        None \<Rightarrow> empty_usage
      | Some u \<Rightarrow> normalize
          \<lparr>us_Prompt = bu_Input u, us_Completion = bu_Output u, us_Total = bu_Total u,
           us_CacheRead = bu_CacheRead u, us_CacheWrite = bu_CacheWrite u,
           us_HasUpstream = True, us_Estimated = False\<rparr>)"

definition usageFromAnthropic :: "anthropic_usage option \<Rightarrow> usage" where
  "usageFromAnthropic u =
     (case u of
        None \<Rightarrow> empty_usage
      | Some u \<Rightarrow> normalize
          \<lparr>us_Prompt = au_Input u, us_Completion = au_Output u, us_Total = 0,
           us_CacheRead = au_CacheRead u, us_CacheWrite = au_CacheCreation u,
           us_HasUpstream = True, us_Estimated = False\<rparr>)"

definition estimateTokens :: "string \<Rightarrow> int" where
  "estimateTokens t = (if t = [] then 0 else (int (length t) + 3) div 4)"

definition estimateUsageFromText :: "string \<Rightarrow> string \<Rightarrow> usage" where
  "estimateUsageFromText promptText completionText =
     (let p = estimateTokens promptText; c = estimateTokens completionText in
      \<lparr>us_Prompt = p, us_Completion = c, us_Total = p + c, us_CacheRead = 0, us_CacheWrite = 0,
       us_HasUpstream = False, us_Estimated = True\<rparr>)"

definition EstimateSystemTokens :: "string \<Rightarrow> int" where
  "EstimateSystemTokens s = estimateTokens s"

definition EstimatePromptTokens :: "unified_request \<Rightarrow> int" where
  "EstimatePromptTokens uni =
     fold (\<lambda>m total. total + estimateTokens (message_Text m)) (ur_Messages uni)
       (estimateTokens (ur_System uni))"

lemma estimateTokens_ceil:
  "4 * estimateTokens t < int (length t) + 4" "int (length t) \<le> 4 * estimateTokens t"
  by (auto simp: estimateTokens_def)

lemma estimateTokens_nonneg [simp]: "0 \<le> estimateTokens t"
  by (simp add: estimateTokens_def pos_imp_zdiv_nonneg_iff)

lemma EstimatePromptTokens_nonneg: "0 \<le> EstimatePromptTokens uni"
proof -
  have "0 \<le> acc \<Longrightarrow> 0 \<le> fold (\<lambda>m total. total + estimateTokens (message_Text m)) ms acc" for ms acc
    by (induction ms arbitrary: acc) auto
  then show ?thesis by (simp add: EstimatePromptTokens_def)
qed

section \<open>Upstream errors\<close>

definition Retryable :: "upstream_error \<Rightarrow> bool" where
  "Retryable e \<longleftrightarrow> ue_StatusCode e = 429 \<or> (ue_StatusCode e \<ge> 500 \<and> ue_StatusCode e \<le> 599)"

definition upstream_Error :: "upstream_error \<Rightarrow> string" where
  "upstream_Error e =
     (if ue_StatusCode e \<noteq> 0 then
        ue_Provider e @ '' upstream error (status '' @ dec_int (ue_StatusCode e) @ ''): '' @ ue_Message e
      else ue_Provider e @ '' upstream error: '' @ ue_Message e)"

definition snippet :: "string \<Rightarrow> string" where
  "snippet s = (if length s > 500 then take 500 s @ [CHR 0xE2, CHR 0x80, CHR 0xA6] else s)"

section \<open>Stop reasons\<close>

definition openAIFinishToStop :: "string \<Rightarrow> stop_reason" where
  "openAIFinishToStop s =
     (if s = ''stop'' then StopEndTurn
      else if s = ''length'' then StopMaxTokens
      else if s = ''tool_calls'' \<or> s = ''function_call'' then StopToolUse
      else if s = ''content_filter'' then StopContentFilter
      else if s = [] then StopUnknown
      else StopEndTurn)"

fun stopToOpenAIFinish :: "stop_reason \<Rightarrow> string" where
  "stopToOpenAIFinish StopEndTurn = ''stop''"
| "stopToOpenAIFinish StopStopSequence = ''stop''"
| "stopToOpenAIFinish StopMaxTokens = ''length''"
| "stopToOpenAIFinish StopToolUse = ''tool_calls''"
| "stopToOpenAIFinish StopContentFilter = ''content_filter''"
| "stopToOpenAIFinish StopUnknown = ''stop''"

definition anthropicStopToUnified :: "string \<Rightarrow> stop_reason" where
  "anthropicStopToUnified s =
     (if s = ''end_turn'' then StopEndTurn
      else if s = ''max_tokens'' then StopMaxTokens
      else if s = ''stop_sequence'' then StopStopSequence
      else if s = ''tool_use'' then StopToolUse
      else if s = [] then StopUnknown
      else StopEndTurn)"

fun stopToAnthropic :: "stop_reason \<Rightarrow> string" where
  "stopToAnthropic StopEndTurn = ''end_turn''"
| "stopToAnthropic StopMaxTokens = ''max_tokens''"
| "stopToAnthropic StopStopSequence = ''stop_sequence''"
| "stopToAnthropic StopToolUse = ''tool_use''"
| "stopToAnthropic StopContentFilter = ''end_turn''"
| "stopToAnthropic StopUnknown = ''end_turn''"

definition bedrockStopToUnified :: "string \<Rightarrow> stop_reason" where
  "bedrockStopToUnified s =
     (if s = ''end_turn'' then StopEndTurn
      else if s = ''max_tokens'' then StopMaxTokens
      else if s = ''stop_sequence'' then StopStopSequence
      else if s = ''tool_use'' then StopToolUse
      else if s = ''content_filtered'' \<or> s = ''guardrail_intervened'' then StopContentFilter
      else if s = [] then StopUnknown
      else StopEndTurn)"

fun stopToBedrock :: "stop_reason \<Rightarrow> string" where
  "stopToBedrock StopEndTurn = ''end_turn''"
| "stopToBedrock StopMaxTokens = ''max_tokens''"
| "stopToBedrock StopStopSequence = ''stop_sequence''"
| "stopToBedrock StopToolUse = ''tool_use''"
| "stopToBedrock StopContentFilter = ''content_filtered''"
| "stopToBedrock StopUnknown = ''end_turn''"

lemma stop_roundtrips:
  "bedrockStopToUnified (stopToBedrock s) = (if s = StopUnknown then StopEndTurn else s)"
  "anthropicStopToUnified (stopToAnthropic s) =
     (if s = StopUnknown \<or> s = StopContentFilter then StopEndTurn else s)"
  "openAIFinishToStop (stopToOpenAIFinish s) =
     (if s = StopUnknown \<or> s = StopStopSequence then StopEndTurn else s)"
  by (cases s; simp add: bedrockStopToUnified_def anthropicStopToUnified_def openAIFinishToStop_def)+

end
