(* ===== verification/Pricing.thy ===== *)
theory Pricing
  imports Store Unified "HOL-Library.Signed_Division"
begin

text \<open>
  The price table and the cost computation of \<open>service/pricing_service.go\<close>.  Prices are
  micro-USD per million tokens, costs micro-USD; the arithmetic is Go's \<open>int64\<close>, with
  \<open>sdiv\<close> the division that truncates towards zero.
\<close>

section \<open>Cost\<close>

definition microUSDPerMillionDivisor :: int where
  "microUSDPerMillionDivisor = 1000000"

definition numerator :: "model_price \<Rightarrow> usage \<Rightarrow> int" where
  "numerator p u =
     add64 (add64 (add64 (mul64 (us_Prompt u) (price_Input p))
                         (mul64 (us_Completion u) (price_Output p)))
                  (mul64 (us_CacheRead u) (price_CacheRead p)))
           (mul64 (us_CacheWrite u) (price_CacheWrite p))"

definition Cost :: "model_price option \<Rightarrow> usage \<Rightarrow> int" where
  "Cost price u =
     (case price of
        None \<Rightarrow> 0
      | Some p \<Rightarrow>
          if numerator p u \<le> 0 then 0
          else add64 (add64 (numerator p u) microUSDPerMillionDivisor) (- 1)
            sdiv microUSDPerMillionDivisor)"

section \<open>The table\<close>

definition price_row :: "nat \<Rightarrow> string \<Rightarrow> world \<Rightarrow> model_price option" where
  "price_row channelID m w =
     find (\<lambda>p. price_ChannelID p = channelID \<and> price_Model p = m) (w_prices w)"

definition Lookup :: "nat \<Rightarrow> string \<Rightarrow> model_price option db" where
  "Lookup channelID modelName =
     bindM (db_read (price_row channelID modelName)) (\<lambda>r.
       retM (case r of
         None \<Rightarrow> None
       | Some p \<Rightarrow> if price_Input p \<le> 0 \<or> price_Output p \<le> 0 then None else Some p))"

text \<open>\<open>coll\<close> is the rank of a string in the database's collation.\<close>

definition ListByChannel :: "(string \<Rightarrow> nat) \<Rightarrow> nat \<Rightarrow> model_price list db" where
  "ListByChannel coll channelID =
     db_read (\<lambda>w. sort_key (\<lambda>p. coll (price_Model p))
       (filter (\<lambda>p. price_ChannelID p = channelID) (w_prices w)))"

definition list_prices :: "(string \<Rightarrow> nat) \<Rightarrow> model_price list db" where
  "list_prices coll =
     db_read (\<lambda>w. sort_key price_ChannelID (sort_key (\<lambda>p. coll (price_Model p)) (w_prices w)))"

definition seq_prices :: string where "seq_prices = ''model_prices''"

definition create_price :: "model_price \<Rightarrow> model_price db" where
  "create_price p =
     bindM (io ErrDB) (\<lambda>_ w.
       let p' = p\<lparr>price_ID := w_seq w seq_prices\<rparr> in
       (Inr p', w\<lparr>w_prices := w_prices w @ [p'],
                  w_seq := (w_seq w)(seq_prices := Suc (w_seq w seq_prices))\<rparr>))"

definition save_price :: "model_price \<Rightarrow> unit db" where
  "save_price p = db_write (\<lambda>w.
     w\<lparr>w_prices := map (\<lambda>q. if price_ID q = price_ID p then p else q) (w_prices w)\<rparr>)"

definition Upsert :: "nat \<Rightarrow> string \<Rightarrow> int \<Rightarrow> int \<Rightarrow> int \<Rightarrow> int \<Rightarrow> model_price db" where
  "Upsert channelID modelName inp out cacheRead cacheWrite =
     bindM (db_read (price_row channelID modelName)) (\<lambda>r.
       case r of
         None \<Rightarrow> create_price
           \<lparr>price_ID = 0, price_ChannelID = channelID, price_Model = modelName, price_Input = inp,
            price_Output = out, price_CacheRead = cacheRead, price_CacheWrite = cacheWrite\<rparr>
       | Some p \<Rightarrow>
           let p' = p\<lparr>price_Input := inp, price_Output := out, price_CacheRead := cacheRead,
                      price_CacheWrite := cacheWrite\<rparr>
           in seqM (save_price p') (retM p'))"

definition delete_price :: "nat \<Rightarrow> unit db" where
  "delete_price i =
     bindM (db_read (\<lambda>w. list_ex (\<lambda>p. price_ID p = i) (w_prices w))) (\<lambda>found w.
       if found then (Inr (), w\<lparr>w_prices := filter (\<lambda>p. price_ID p \<noteq> i) (w_prices w)\<rparr>)
       else (Inl ErrPriceNotConfigured, w))"

section \<open>Cost is the rounded-up sum\<close>

definition exact_total :: "model_price \<Rightarrow> usage \<Rightarrow> int" where
  "exact_total p u = us_Prompt u * price_Input p + us_Completion u * price_Output p
     + us_CacheRead u * price_CacheRead p + us_CacheWrite u * price_CacheWrite p"

definition nonneg_usage :: "usage \<Rightarrow> bool" where
  "nonneg_usage u \<longleftrightarrow> 0 \<le> us_Prompt u \<and> 0 \<le> us_Completion u \<and> 0 \<le> us_CacheRead u \<and> 0 \<le> us_CacheWrite u"

definition nonneg_price :: "model_price \<Rightarrow> bool" where
  "nonneg_price p \<longleftrightarrow> 0 \<le> price_Input p \<and> 0 \<le> price_Output p \<and> 0 \<le> price_CacheRead p \<and> 0 \<le> price_CacheWrite p"

lemma wrap64_mod: "wrap64 a mod 2 ^ 64 = a mod 2 ^ 64"
proof -
  have "((a + 2 ^ 63) mod 2 ^ 64 - 2 ^ 63) mod 2 ^ 64 = (a + 2 ^ 63 - 2 ^ 63) mod (2 ^ 64 :: int)"
    by (rule mod_diff_left_eq)
  then show ?thesis by (simp add: wrap64_def)
qed

lemma wrap64_cong: "a mod 2 ^ 64 = b mod 2 ^ 64 \<Longrightarrow> wrap64 a = wrap64 b"
  unfolding wrap64_def by (metis mod_add_left_eq)

lemma wrap64_add: "wrap64 (wrap64 a + b) = wrap64 (a + b)" "wrap64 (a + wrap64 b) = wrap64 (a + b)"
  by (rule wrap64_cong, rule mod_add_cong; simp only: wrap64_mod)+

text \<open>Intermediate wrap-around does not matter: the numerator is the exact sum, wrapped once.\<close>

lemma numerator_wrap: "numerator p u = wrap64 (exact_total p u)"
  by (simp add: numerator_def exact_total_def add64_def mul64_def wrap64_add)

lemma exact_total_nonneg: "nonneg_usage u \<Longrightarrow> nonneg_price p \<Longrightarrow> 0 \<le> exact_total p u"
  by (simp add: exact_total_def nonneg_usage_def nonneg_price_def)

lemma Cost_exact:
  assumes "0 \<le> exact_total p u" "exact_total p u < 2 ^ 63 - 1000000"
  shows "Cost (Some p) u = (exact_total p u + 999999) div 1000000"
proof -
  have n: "numerator p u = exact_total p u"
    using assms by (simp add: numerator_wrap in_int64_def)
  show ?thesis
  proof (cases "exact_total p u = 0")
    case True
    then show ?thesis by (simp add: Cost_def n)
  next
    case False
    then have "add64 (add64 (exact_total p u) 1000000) (- 1) = exact_total p u + 999999"
      using assms by (simp add: add64_def in_int64_def)
    with False assms show ?thesis
      by (simp add: Cost_def n microUSDPerMillionDivisor_def signed_divide_int_def)
  qed
qed

section \<open>The table invariant\<close>

definition price_key :: "model_price \<Rightarrow> nat \<times> string" where
  "price_key p = (price_ChannelID p, price_Model p)"

definition prices_ok :: "world \<Rightarrow> bool" where
  "prices_ok w \<longleftrightarrow> distinct (map price_ID (w_prices w)) \<and> distinct (map price_key (w_prices w))
     \<and> (\<forall>p \<in> set (w_prices w). price_ID p < w_seq w seq_prices)"

lemma price_row_None: "price_row c m w = None \<longleftrightarrow> (c, m) \<notin> price_key ` set (w_prices w)"
  by (auto simp: price_row_def find_None_iff price_key_def)

lemma price_row_Some:
  assumes "prices_ok w"
  shows "price_row c m w = Some p \<longleftrightarrow> p \<in> set (w_prices w) \<and> price_key p = (c, m)"
proof
  assume "price_row c m w = Some p"
  then show "p \<in> set (w_prices w) \<and> price_key p = (c, m)"
    by (auto simp: price_row_def find_Some_iff price_key_def)
next
  assume p: "p \<in> set (w_prices w) \<and> price_key p = (c, m)"
  then obtain q where q: "price_row c m w = Some q"
    using price_row_None [of c m w] by (metis image_eqI option.exhaust)
  then have "q \<in> set (w_prices w)" "price_key q = (c, m)"
    by (auto simp: price_row_def find_Some_iff price_key_def)
  with p assms q show "price_row c m w = Some p"
    unfolding prices_ok_def by (metis distinct_map inj_onD)
qed

lemma Upsert_ok:
  assumes ok: "prices_ok w" and nf: "w_faults w = []"
  shows "\<exists>p w'. Upsert c m i o' cr cw w = (Inr p, w') \<and> prices_ok w' \<and> price_row c m w' = Some p
    \<and> price_Input p = i \<and> price_Output p = o' \<and> price_CacheRead p = cr \<and> price_CacheWrite p = cw
    \<and> (\<forall>c' m'. (c', m') \<noteq> (c, m) \<longrightarrow> price_row c' m' w' = price_row c' m' w) \<and> w_faults w' = []"
proof (cases "price_row c m w")
  case None
  define p where "p = \<lparr>price_ID = w_seq w seq_prices, price_ChannelID = c, price_Model = m,
    price_Input = i, price_Output = o', price_CacheRead = cr, price_CacheWrite = cw\<rparr>"
  define w' where "w' = w\<lparr>w_prices := w_prices w @ [p],
    w_seq := (w_seq w)(seq_prices := Suc (w_seq w seq_prices))\<rparr>"
  have run: "Upsert c m i o' cr cw w = (Inr p, w')"
    using None nf by (simp add: Upsert_def create_price_def bindM_def Let_def p_def w'_def)
  have "prices_ok w'"
    using ok None unfolding prices_ok_def price_row_None w'_def
    by (auto simp: p_def price_key_def less_Suc_eq)
  moreover have "price_row c m w' = Some p"
    using None by (simp add: price_row_def w'_def find_append p_def)
  moreover have "price_row c' m' w' = price_row c' m' w" if "(c', m') \<noteq> (c, m)" for c' m'
    using that unfolding price_row_def w'_def p_def
    by (auto simp: find_append split: option.split)
  ultimately show ?thesis
    using run nf by (intro exI [of _ p] exI [of _ w']) (auto simp: p_def w'_def)
next
  case (Some q)
  define p where "p = q\<lparr>price_Input := i, price_Output := o', price_CacheRead := cr,
    price_CacheWrite := cw\<rparr>"
  define f where "f = (\<lambda>x. if price_ID x = price_ID p then p else x)"
  define w' where "w' = w\<lparr>w_prices := map f (w_prices w)\<rparr>"
  have q: "q \<in> set (w_prices w)" "price_key q = (c, m)"
    using Some price_row_Some [OF ok] by auto
  have pk: "price_ID p = price_ID q" "price_key p = price_key q"
    by (simp_all add: p_def price_key_def)
  have run: "Upsert c m i o' cr cw w = (Inr p, w')"
    using Some nf by (simp add: Upsert_def save_price_def seqM_def bindM_def Let_def p_def f_def w'_def)
  have same: "price_ID (f x) = price_ID x \<and> price_key (f x) = price_key x" if "x \<in> set (w_prices w)" for x
    using that q(1) ok pk unfolding f_def prices_ok_def by (metis distinct_map inj_onD)
  then have maps: "map price_ID (map f (w_prices w)) = map price_ID (w_prices w)"
    "map price_key (map f (w_prices w)) = map price_key (w_prices w)"
    by auto
  have ok': "prices_ok w'"
    using ok same unfolding prices_ok_def w'_def by (auto simp: maps simp del: map_map)
  have row: "price_row c m w' = Some p"
    using price_row_Some [OF ok', of c m p] q pk by (auto simp: w'_def f_def image_iff)
  have "price_row c' m' w' = price_row c' m' w" if ne: "(c', m') \<noteq> (c, m)" for c' m'
  proof (cases "price_row c' m' w")
    case None
    then have "price_row c' m' w' = None"
      using same unfolding price_row_None by (auto simp: w'_def image_iff)
    with None show ?thesis by simp
  next
    case (Some x)
    then have "x \<in> set (w_prices w)" "price_key x = (c', m')"
      using price_row_Some [OF ok] by auto
    moreover from this have "f x = x"
      using ne q ok pk unfolding f_def prices_ok_def by (metis distinct_map inj_onD)
    ultimately show ?thesis
      using Some price_row_Some [OF ok', of c' m' x] by (auto simp: w'_def image_iff) (metis)
  qed
  with ok' row run nf show ?thesis
    by (intro exI [of _ p] exI [of _ w']) (auto simp: p_def w'_def)
qed

section \<open>Properties\<close>

definition sample_price :: model_price where
  "sample_price = \<lparr>price_ID = 1, price_ChannelID = 1, price_Model = ''m'', price_Input = 3000000,
     price_Output = 15000000, price_CacheRead = 300000, price_CacheWrite = 3750000\<rparr>"

definition sample_usage :: usage where
  "sample_usage = \<lparr>us_Prompt = 1, us_Completion = 2, us_Total = 3, us_CacheRead = 1, us_CacheWrite = 0,
     us_HasUpstream = True, us_Estimated = False\<rparr>"

text \<open>
  C18. A cost is the sum of tokens times prices over one million, rounded up to the next
  micro-USD, for non-negative usage and prices whose exact sum is below 2^63 - 1000000:
  intermediate wrap-around never shows, the cost is 0 only if the sum is, and no more than
  one micro-USD is added.
\<close>

theorem cost_ceiling:
  assumes "nonneg_usage u" and "nonneg_price p" and "exact_total p u < 2 ^ 63 - 1000000"
  shows "exact_total p u \<le> 1000000 * Cost (Some p) u
    \<and> 1000000 * Cost (Some p) u < exact_total p u + 1000000
    \<and> (Cost (Some p) u = 0 \<longleftrightarrow> exact_total p u = 0)"
  using Cost_exact [OF exact_total_nonneg [OF assms(1,2)] assms(3)] exact_total_nonneg [OF assms(1,2)]
  by linarith

lemma cost_ceiling_witness:
  "Cost (Some sample_price) sample_usage = 34 \<and> exact_total sample_price sample_usage = 33300000"
proof -
  have t: "exact_total sample_price sample_usage = 33300000"
    by (simp add: exact_total_def sample_price_def sample_usage_def)
  have "nonneg_usage sample_usage" "nonneg_price sample_price"
    by (simp_all add: nonneg_usage_def nonneg_price_def sample_price_def sample_usage_def)
  from cost_ceiling [OF this] t show ?thesis by auto
qed

text \<open>
  \<open>Upsert\<close> then \<open>Lookup\<close>: without failures, the price row of a (channel, model) is
  afterwards the one given, every other pair keeps its row, ids and pairs stay unique, and
  \<open>Lookup\<close> returns the row iff its input and output prices are positive.
\<close>

lemma upsert_lookup:
  assumes "prices_ok w" and "w_faults w = []"
  shows "\<exists>p w'. Upsert c m i out cr cw w = (Inr p, w') \<and> prices_ok w'
    \<and> (price_Input p, price_Output p, price_CacheRead p, price_CacheWrite p) = (i, out, cr, cw)
    \<and> Lookup c m w' = (Inr (if 0 < i \<and> 0 < out then Some p else None), w')
    \<and> (\<forall>c' m'. (c', m') \<noteq> (c, m) \<longrightarrow> fst (Lookup c' m' w') = fst (Lookup c' m' w))"
proof -
  obtain p w' where w': "Upsert c m i out cr cw w = (Inr p, w')" "prices_ok w'"
    "price_row c m w' = Some p" "price_Input p = i" "price_Output p = out" "price_CacheRead p = cr"
    "price_CacheWrite p = cw" "w_faults w' = []"
    "\<forall>c' m'. (c', m') \<noteq> (c, m) \<longrightarrow> price_row c' m' w' = price_row c' m' w"
    using Upsert_ok [OF assms] by blast
  then have "Lookup c m w' = (Inr (if 0 < i \<and> 0 < out then Some p else None), w')"
    by (auto simp: Lookup_def bindM_def)
  moreover have "fst (Lookup c' m' w') = fst (Lookup c' m' w)" if "(c', m') \<noteq> (c, m)" for c' m'
    using that w'(8,9) assms(2) by (auto simp: Lookup_def bindM_def)
  ultimately show ?thesis using w' by (intro exI [of _ p] exI [of _ w']) auto
qed

definition price_world :: world where
  "price_world =
     \<lparr>w_users = [], w_tokens = [], w_channels = [], w_rules = [], w_prices = [sample_price],
      w_options = Map.empty, w_logs = [], w_seq = (\<lambda>_. 2), w_redis = None,
      w_dirtyTokens = [], w_dirtyUsers = [], w_faults = [], w_now = 0\<rparr>"

lemma upsert_lookup_witness:
  "\<exists>p w'. Upsert 2 ''n'' 5 6 0 0 price_world = (Inr p, w')
     \<and> Lookup 2 ''n'' w' = (Inr (Some p), w') \<and> prices_ok w'"
proof -
  have "prices_ok price_world" "w_faults price_world = []"
    by (simp_all add: prices_ok_def price_world_def sample_price_def)
  from upsert_lookup [OF this, of 2 "''n''" 5 6 0 0] show ?thesis by auto
qed

end
