(* ===== verification/Sha256.thy ===== *)
theory Sha256
  imports Prelude
begin

text \<open>
  The SHA-256 digest of Go's \<open>crypto/sha256\<close> (FIPS 180-4) over bytes, which
  \<open>service.HashKey\<close> applies to downstream keys.
\<close>

type_synonym w32 = "32 word"

text \<open>The round constants and the initial state, as decimal numerals: the leading 32 bits of the
  fractional parts of the cube roots, and of the square roots, of the first primes.\<close>

definition sha_K :: "w32 list" where
  "sha_K =
    [1116352408, 1899447441, 3049323471, 3921009573, 961987163, 1508970993, 2453635748, 2870763221,
     3624381080, 310598401, 607225278, 1426881987, 1925078388, 2162078206, 2614888103, 3248222580,
     3835390401, 4022224774, 264347078, 604807628, 770255983, 1249150122, 1555081692, 1996064986,
     2554220882, 2821834349, 2952996808, 3210313671, 3336571891, 3584528711, 113926993, 338241895,
     666307205, 773529912, 1294757372, 1396182291, 1695183700, 1986661051, 2177026350, 2456956037,
     2730485921, 2820302411, 3259730800, 3345764771, 3516065817, 3600352804, 4094571909, 275423344,
     430227734, 506948616, 659060556, 883997877, 958139571, 1322822218, 1537002063, 1747873779,
     1955562222, 2024104815, 2227730452, 2361852424, 2428436474, 2756734187, 3204031479, 3329325298]"

definition sha_init :: "w32 list" where
  "sha_init = [1779033703, 3144134277, 1013904242, 2773480762, 1359893119, 2600822924, 528734635, 1541459225]"

unbundle bit_operations_syntax

definition sha_pad :: "nat list \<Rightarrow> nat list" where
  "sha_pad bs = bs @ [0x80] @ replicate ((119 - length bs mod 64) mod 64) 0
     @ map (\<lambda>i. unat (drop_bit (56 - 8 * i) (word_of_nat (8 * length bs) :: 64 word) AND 255)) [0..<8]"

fun be_words :: "nat list \<Rightarrow> w32 list" where
  "be_words (a # b # c # d # bs) =
     (push_bit 24 (word_of_nat a) OR push_bit 16 (word_of_nat b) OR push_bit 8 (word_of_nat c)
        OR word_of_nat d) # be_words bs"
| "be_words _ = []"

fun sha_schedule :: "nat \<Rightarrow> w32 list \<Rightarrow> w32 list" where
  "sha_schedule 0 ws = ws"
| "sha_schedule (Suc n) ws =
     (let t = length ws;
          s0 = (let x = ws ! (t - 15) in word_rotr 7 x XOR word_rotr 18 x XOR drop_bit 3 x);
          s1 = (let x = ws ! (t - 2) in word_rotr 17 x XOR word_rotr 19 x XOR drop_bit 10 x)
      in sha_schedule n (ws @ [s1 + ws ! (t - 7) + s0 + ws ! (t - 16)]))"

fun sha_round :: "w32 \<times> w32 \<Rightarrow> w32 list \<Rightarrow> w32 list" where
  "sha_round (k, w) [a, b, c, d, e, f, g, h] =
     (let t1 = h + (word_rotr 6 e XOR word_rotr 11 e XOR word_rotr 25 e)
               + ((e AND f) XOR (NOT e AND g)) + k + w;
          t2 = (word_rotr 2 a XOR word_rotr 13 a XOR word_rotr 22 a)
               + ((a AND b) XOR (a AND c) XOR (b AND c))
      in [t1 + t2, a, b, c, d + t1, e, f, g])"
| "sha_round _ st = st"

definition sha_block :: "w32 list \<Rightarrow> w32 list \<Rightarrow> w32 list" where
  "sha_block blk st = map2 (+) st (fold sha_round (zip sha_K (sha_schedule 48 blk)) st)"

fun sha_blocks :: "nat \<Rightarrow> w32 list \<Rightarrow> w32 list \<Rightarrow> w32 list" where
  "sha_blocks 0 ws st = st"
| "sha_blocks (Suc n) ws st = sha_blocks n (drop 16 ws) (sha_block (take 16 ws) st)"

definition be_bytes :: "w32 \<Rightarrow> nat list" where
  "be_bytes x = map (\<lambda>k. unat (drop_bit k x AND 255)) [24, 16, 8, 0]"

definition sha256_bytes :: "nat list \<Rightarrow> nat list" where
  "sha256_bytes bs =
     (let ws = be_words (sha_pad bs) in
      concat (map be_bytes (sha_blocks (length ws div 16) ws sha_init)))"

lemma length_be_bytes [simp]: "length (be_bytes x) = 4"
  by (simp add: be_bytes_def)

lemma length_sha_round [simp]: "length (sha_round kw st) = length st"
  by (cases "(kw, st)" rule: sha_round.cases) (auto simp: Let_def)

lemma length_fold_sha_round [simp]: "length (fold sha_round kws st) = length st"
  by (induction kws arbitrary: st) auto

lemma length_sha_blocks [simp]: "length (sha_blocks n ws st) = length st"
  by (induction n arbitrary: ws st) (auto simp: sha_block_def)

text \<open>A digest is 32 bytes.\<close>

lemma length_concat_be_bytes: "length (concat (map be_bytes xs)) = 4 * length xs"
  by (induction xs) auto

lemma length_sha256: "length (sha256_bytes bs) = 32"
  unfolding sha256_bytes_def Let_def length_concat_be_bytes length_sha_blocks
  by (simp add: sha_init_def)

end
