(* ===== verification/Tokens.thy ===== *)
theory Tokens
  imports Quota Sha256 "HOL-Library.List_Lexorder" "HOL-Library.Char_ord"
begin

text \<open>
  Downstream API keys: \<open>service/token_service.go\<close>.  A token row stores only the SHA-256 hash
  of its key.  The random bytes of \<open>crypto/rand\<close> are an argument, \<open>None\<close> when reading them
  fails.
\<close>

section \<open>Keys\<close>

definition tokenKeyPrefix :: string where "tokenKeyPrefix = ''sk-''"
definition tokenRandomBytes :: nat where "tokenRandomBytes = 32"

definition HashKey :: "string \<Rightarrow> string" where
  "HashKey plain = hex_encode (sha256_bytes (map of_char plain))"

definition GenerateKey :: "nat list option \<Rightarrow> err + string" where
  "GenerateKey rnd = (case rnd of None \<Rightarrow> Inl ErrRand | Some buf \<Rightarrow> Inr (tokenKeyPrefix @ hex_encode buf))"

definition maskFromHash :: "string \<Rightarrow> string" where
  "maskFromHash keyHash =
     (if keyHash = [] then []
      else tokenKeyPrefix @ ''****'' @ (if length keyHash > 6 then drop (length keyHash - 6) keyHash else keyHash))"

record token_view =
  tv_Token :: token_row
  tv_KeyMasked :: string

definition toView :: "token_row \<Rightarrow> token_view" where
  "toView t = \<lparr>tv_Token = t, tv_KeyMasked = maskFromHash (tok_KeyHash t)\<rparr>"

section \<open>Input\<close>

text \<open>\<open>None\<close> is a nil pointer: the field is left unchanged.  An expiry of 0 is the zero time.\<close>

record token_input =
  ti_Name :: "string option"
  ti_Status :: "string option"
  ti_Quota :: "int option"
  ti_ExpiredAt :: "int option"
  ti_Group :: "string option"
  ti_AllowedModels :: "string list option"
  ti_OutputFormat :: "string option"

definition toJSONArray :: "string list \<Rightarrow> json" where
  "toJSONArray items = marshal_strs items"

definition set_if :: "'a option \<Rightarrow> ('a \<Rightarrow> 'b \<Rightarrow> 'b) \<Rightarrow> 'b \<Rightarrow> 'b" where
  "set_if x f t = (case x of None \<Rightarrow> t | Some v \<Rightarrow> f v t)"

definition default_group :: "string \<Rightarrow> string" where
  "default_group g = (if trim_space g = [] then ''default'' else trim_space g)"

definition applyInput :: "token_input \<Rightarrow> token_row \<Rightarrow> token_row" where
  "applyInput inp t =
     set_if (ti_OutputFormat inp)
       (\<lambda>v t. t\<lparr>tok_OutputFormat := (if trim_space v = [] then None else Some (trim_space v))\<rparr>)
    (set_if (ti_AllowedModels inp) (\<lambda>ms t. t\<lparr>tok_AllowedModels := Some (toJSONArray ms)\<rparr>)
    (set_if (ti_Group inp) (\<lambda>g t. t\<lparr>tok_Group := default_group g\<rparr>)
    (set_if (ti_ExpiredAt inp) (\<lambda>ea t. t\<lparr>tok_ExpiredAt := (if ea = 0 then None else Some ea)\<rparr>)
    (set_if (ti_Quota inp) (\<lambda>q t. t\<lparr>tok_Quota := q\<rparr>)
    (set_if (ti_Status inp) (\<lambda>st t. t\<lparr>tok_Status := st\<rparr>)
    (set_if (ti_Name inp) (\<lambda>n t. t\<lparr>tok_Name := trim_space n\<rparr>) t))))))"

section \<open>Operations\<close>

definition seq_tokens :: string where "seq_tokens = ''tokens''"

definition userGroup :: "nat \<Rightarrow> string db" where
  "userGroup userID =
     bindM (tryM (db_read (find_user userID)))
       (\<lambda>r. retM (case r of Inr (Some u) \<Rightarrow> trim_space (user_Group u) | _ \<Rightarrow> []))"

text \<open>
  \<open>db.Create\<close>: GORM leaves a zero-valued field with a \<open>default\<close> tag to the database, so an
  empty status, a quota of 0 and an empty group take the column's default.  A key hash
  already in the table violates the unique index.
\<close>

definition gorm_token_defaults :: "token_row \<Rightarrow> token_row" where
  "gorm_token_defaults t =
     t\<lparr>tok_Status := (if tok_Status t = [] then TokenEnabled else tok_Status t),
       tok_Quota := (if tok_Quota t = 0 then QuotaUnlimited else tok_Quota t),
       tok_Group := (if tok_Group t = [] then ''default'' else tok_Group t)\<rparr>"

definition create_token :: "token_row \<Rightarrow> token_row db" where
  "create_token t =
     bindM (io ErrDB) (\<lambda>_ w.
       let t' = (gorm_token_defaults t)\<lparr>tok_ID := w_seq w seq_tokens\<rparr>;
           w' = w\<lparr>w_seq := (w_seq w)(seq_tokens := Suc (w_seq w seq_tokens))\<rparr> in
       if list_ex (\<lambda>x. tok_KeyHash x = tok_KeyHash t) (w_tokens w) then (Inl ErrDB, w')
       else (Inr t', w'\<lparr>w_tokens := w_tokens w @ [t']\<rparr>))"

text \<open>\<open>db.Save\<close> of a row that was read: every column is written.\<close>

definition save_token :: "token_row \<Rightarrow> unit db" where
  "save_token t = db_write (\<lambda>w. w\<lparr>w_tokens := map (\<lambda>x. if tok_ID x = tok_ID t then t else x) (w_tokens w)\<rparr>)"

definition new_token :: "nat \<Rightarrow> string \<Rightarrow> string \<Rightarrow> string \<Rightarrow> token_input \<Rightarrow> token_row" where
  "new_token userID name plain grp inp =
     (let t = (applyInput inp
           \<lparr>tok_ID = 0, tok_UserID = userID, tok_Name = trim_space name, tok_KeyHash = HashKey plain,
            tok_Status = TokenEnabled, tok_Quota = QuotaUnlimited, tok_UsedQuota = 0,
            tok_ExpiredAt = None, tok_Group = [], tok_AllowedModels = None, tok_OutputFormat = None\<rparr>)
           \<lparr>tok_Group := grp\<rparr>
      in if tok_AllowedModels t = None then t\<lparr>tok_AllowedModels := Some (JArr [])\<rparr> else t)"

definition token_group :: "nat \<Rightarrow> token_input \<Rightarrow> string db" where
  "token_group userID inp =
     (case ti_Group inp of
        Some g \<Rightarrow>
          if trim_space g \<noteq> [] then retM (trim_space g)
          else bindM (userGroup userID) (\<lambda>g. retM (if g \<noteq> [] then g else ''default''))
      | None \<Rightarrow> bindM (userGroup userID) (\<lambda>g. retM (if g \<noteq> [] then g else ''default'')))"

definition TokenService_Create :: "nat \<Rightarrow> token_input \<Rightarrow> nat list option \<Rightarrow> (token_view \<times> string) db" where
  "TokenService_Create userID inp rnd =
     (case ti_Name inp of
        None \<Rightarrow> failM (ErrInvalidToken ''name is required'')
      | Some name \<Rightarrow>
          if trim_space name = [] then failM (ErrInvalidToken ''name is required'')
          else case GenerateKey rnd of
            Inl e \<Rightarrow> failM e
          | Inr plain \<Rightarrow>
              bindM (token_group userID inp) (\<lambda>grp.
              bindM (create_token (new_token userID name plain grp inp)) (\<lambda>t.
                retM (toView t, plain))))"

definition getOwned :: "nat \<Rightarrow> nat \<Rightarrow> token_row db" where
  "getOwned userID i =
     bindM (db_read (find_token i)) (\<lambda>r.
       case r of
         None \<Rightarrow> failM ErrTokenNotFound
       | Some t \<Rightarrow> if tok_UserID t \<noteq> userID then failM ErrTokenNotFound else retM t)"

definition TokenService_Update :: "nat \<Rightarrow> nat \<Rightarrow> token_input \<Rightarrow> token_view db" where
  "TokenService_Update userID i inp =
     bindM (getOwned userID i) (\<lambda>t.
       if (case ti_Name inp of None \<Rightarrow> False | Some n \<Rightarrow> trim_space n = [])
       then failM (ErrInvalidToken ''name cannot be empty'')
       else let t' = applyInput inp t in seqM (save_token t') (retM (toView t')))"

definition TokenService_Delete :: "nat \<Rightarrow> nat \<Rightarrow> unit db" where
  "TokenService_Delete userID i =
     bindM (io ErrDB) (\<lambda>_ w.
       let hit = (\<lambda>t. tok_ID t = i \<and> tok_UserID t = userID) in
       if list_ex hit (w_tokens w) then (Inr (), w\<lparr>w_tokens := filter (\<lambda>t. \<not> hit t) (w_tokens w)\<rparr>)
       else (Inl ErrTokenNotFound, w))"

definition TokenService_Get :: "nat \<Rightarrow> nat \<Rightarrow> token_view db" where
  "TokenService_Get userID i = bindM (getOwned userID i) (\<lambda>t. retM (toView t))"

definition TokenService_List :: "nat \<Rightarrow> token_view list db" where
  "TokenService_List userID =
     db_read (\<lambda>w. map toView (filter (\<lambda>t. tok_UserID t = userID) (w_tokens w)))"

definition DistinctGroups :: "string list db" where
  "DistinctGroups =
     bindM (db_read (\<lambda>w. map tok_Group (w_tokens w))) (\<lambda>tg.
     bindM (db_read (\<lambda>w. map ch_Group (w_channels w))) (\<lambda>cg.
       retM (sort (remdups (filter (\<lambda>g. g \<noteq> []) (map trim_space (tg @ cg)))))))"

definition token_by_hash :: "string \<Rightarrow> world \<Rightarrow> token_row option" where
  "token_by_hash h w = find (\<lambda>t. tok_KeyHash t = h) (w_tokens w)"

definition GetByKeyHash :: "string \<Rightarrow> token_row db" where
  "GetByKeyHash h =
     bindM (db_read (token_by_hash h)) (\<lambda>r.
       case r of None \<Rightarrow> failM ErrTokenNotFound | Some t \<Rightarrow> retM t)"

section \<open>What the operations keep\<close>

text \<open>Ids and key hashes are unique, and the id sequence is ahead of every id.\<close>

definition tokens_ok :: "world \<Rightarrow> bool" where
  "tokens_ok w \<longleftrightarrow> distinct (map tok_ID (w_tokens w)) \<and> distinct (map tok_KeyHash (w_tokens w))
     \<and> list_all (\<lambda>t. tok_ID t < w_seq w seq_tokens) (w_tokens w)"

definition others :: "nat \<Rightarrow> world \<Rightarrow> token_row list" where
  "others uid w = filter (\<lambda>t. tok_UserID t \<noteq> uid) (w_tokens w)"

lemma others_data: "same_data w w' \<Longrightarrow> others uid w' = others uid w"
  by (simp add: others_def same_dataD)

lemma tokens_ok_data: "same_data w w' \<Longrightarrow> tokens_ok w' = tokens_ok w"
  by (simp add: tokens_ok_def same_dataD)

lemma applyInput_keeps [simp]:
  "tok_ID (applyInput inp t) = tok_ID t" "tok_UserID (applyInput inp t) = tok_UserID t"
  "tok_KeyHash (applyInput inp t) = tok_KeyHash t"
  "tok_UsedQuota (applyInput inp t) = tok_UsedQuota t"
  by (simp_all add: applyInput_def set_if_def split: option.split)

lemma applyInput_quota [simp]:
  "tok_Quota (applyInput inp t) = (case ti_Quota inp of None \<Rightarrow> tok_Quota t | Some q \<Rightarrow> q)"
  "tok_Status (applyInput inp t) = (case ti_Status inp of None \<Rightarrow> tok_Status t | Some st \<Rightarrow> st)"
  "tok_ExpiredAt (applyInput inp t) =
     (case ti_ExpiredAt inp of None \<Rightarrow> tok_ExpiredAt t | Some ea \<Rightarrow> if ea = 0 then None else Some ea)"
  by (simp_all add: applyInput_def set_if_def split: option.split)

lemma new_token_sel [simp]:
  "tok_UserID (new_token uid name plain grp inp) = uid"
  "tok_KeyHash (new_token uid name plain grp inp) = HashKey plain"
  "tok_UsedQuota (new_token uid name plain grp inp) = 0"
  "tok_Group (new_token uid name plain grp inp) = grp"
  "tok_Quota (new_token uid name plain grp inp) =
     (case ti_Quota inp of None \<Rightarrow> QuotaUnlimited | Some q \<Rightarrow> q)"
  "tok_Status (new_token uid name plain grp inp) =
     (case ti_Status inp of None \<Rightarrow> TokenEnabled | Some st \<Rightarrow> st)"
  "tok_ExpiredAt (new_token uid name plain grp inp) =
     (case ti_ExpiredAt inp of None \<Rightarrow> None | Some ea \<Rightarrow> if ea = 0 then None else Some ea)"
  by (simp_all add: new_token_def Let_def split: option.split)

lemma gorm_token_defaults_sel [simp]:
  "tok_UserID (gorm_token_defaults t) = tok_UserID t"
  "tok_KeyHash (gorm_token_defaults t) = tok_KeyHash t"
  "tok_UsedQuota (gorm_token_defaults t) = tok_UsedQuota t"
  "tok_ExpiredAt (gorm_token_defaults t) = tok_ExpiredAt t"
  by (simp_all add: gorm_token_defaults_def)

lemma tok_ID_upd_sel [simp]:
  "tok_KeyHash (t\<lparr>tok_ID := i\<rparr>) = tok_KeyHash t" "tok_UserID (t\<lparr>tok_ID := i\<rparr>) = tok_UserID t"
  by simp_all

lemma create_token_ok:
  assumes "w_faults w = []" "\<not> list_ex (\<lambda>x. tok_KeyHash x = tok_KeyHash t) (w_tokens w)"
  shows "create_token t w = (Inr ((gorm_token_defaults t)\<lparr>tok_ID := w_seq w seq_tokens\<rparr>),
    w\<lparr>w_seq := (w_seq w)(seq_tokens := Suc (w_seq w seq_tokens)),
      w_tokens := w_tokens w @ [(gorm_token_defaults t)\<lparr>tok_ID := w_seq w seq_tokens\<rparr>]\<rparr>)"
  using assms by (simp add: create_token_def bindM_def Let_def)

lemma create_token_cases:
  assumes "create_token t w = (r, w')"
  obtains (failed) e where "r = Inl e" "w_tokens w' = w_tokens w" "w_redis w' = w_redis w"
      "w_seq w seq_tokens \<le> w_seq w' seq_tokens"
  | (stored) t' where "r = Inr t'" "w_tokens w' = w_tokens w @ [t']"
      "t' = (gorm_token_defaults t)\<lparr>tok_ID := w_seq w seq_tokens\<rparr>"
      "\<not> list_ex (\<lambda>x. tok_KeyHash x = tok_KeyHash t) (w_tokens w)"
      "w_seq w' seq_tokens = Suc (w_seq w seq_tokens)"
proof (cases rule: io_cases [of ErrDB w])
  case (ok fs)
  with assms failed stored show thesis
    by (cases "list_ex (\<lambda>x. tok_KeyHash x = tok_KeyHash t) (w_tokens w)")
      (auto simp: create_token_def bindM_def Let_def)
next
  case (fail fs)
  with assms failed show thesis by (auto simp: create_token_def bindM_def)
qed

lemma tokens_ok_append:
  assumes "tokens_ok w" "w_tokens w' = w_tokens w @ [t]" "tok_ID t = w_seq w seq_tokens"
    "\<not> list_ex (\<lambda>x. tok_KeyHash x = tok_KeyHash t) (w_tokens w)"
    "w_seq w' seq_tokens = Suc (w_seq w seq_tokens)"
  shows "tokens_ok w'"
  using assms by (fastforce simp: tokens_ok_def list_all_iff list_ex_iff less_Suc_eq)

lemma userGroup_step: "userGroup uid w = (r, w') \<Longrightarrow> same_data w w' \<and> (\<exists>g. r = Inr g)"
  by (auto simp: userGroup_def tryM_def bindM_def dest: db_read_data split: prod.splits sum.splits)

lemma token_group_step: "token_group uid inp w = (r, w') \<Longrightarrow> same_data w w' \<and> (\<exists>g. r = Inr g \<and> g \<noteq> [])"
  by (auto simp: token_group_def bindM_def split: option.splits if_splits prod.splits sum.splits
      dest!: userGroup_step)

lemma userGroup_ok:
  "w_faults w = [] \<Longrightarrow> userGroup uid w =
     (Inr (case find_user uid w of None \<Rightarrow> [] | Some u \<Rightarrow> trim_space (user_Group u)), w)"
  by (simp add: userGroup_def tryM_def bindM_def split: option.split)

text \<open>The group precedence: the request's group, the owner's group, \<open>default\<close>.\<close>

definition group_spec :: "nat \<Rightarrow> token_input \<Rightarrow> world \<Rightarrow> string" where
  "group_spec uid inp w =
     (case filter (\<lambda>g. g \<noteq> [])
        [case ti_Group inp of None \<Rightarrow> [] | Some g \<Rightarrow> trim_space g,
         case find_user uid w of None \<Rightarrow> [] | Some u \<Rightarrow> trim_space (user_Group u)]
      of [] \<Rightarrow> ''default'' | g # _ \<Rightarrow> g)"

lemma token_group_ok:
  "w_faults w = [] \<Longrightarrow> token_group uid inp w = (Inr (group_spec uid inp w), w)"
  by (simp add: token_group_def group_spec_def userGroup_ok bindM_def split: option.split)

lemma group_spec_ne [simp]: "group_spec uid inp w \<noteq> []"
  by (simp add: group_spec_def split: option.split)

lemma getOwned_cases:
  assumes "getOwned uid i w = (r, w')"
  obtains (failed) e where "r = Inl e" "same_data w w'"
  | (found) t where "r = Inr t" "find_token i w = Some t" "tok_UserID t = uid" "same_data w w'"
proof (cases rule: io_cases [of ErrDB w])
  case (ok fs)
  have f: "find_token i (w\<lparr>w_faults := fs\<rparr>) = find_token i w" by (simp add: find_token_def)
  show thesis
  proof (cases "find_token i w")
    case None
    with ok f assms failed show thesis by (auto simp: getOwned_def db_read_def bindM_def)
  next
    case (Some t)
    with ok f assms failed found show thesis
      by (cases "tok_UserID t = uid") (auto simp: getOwned_def db_read_def bindM_def)
  qed
next
  case (fail fs)
  with assms failed show thesis by (auto simp: getOwned_def db_read_def bindM_def)
qed

lemma db_write_cases':
  assumes "db_write f w = (r, w')"
  obtains (ok) fs where "r = Inr ()" "w' = f (w\<lparr>w_faults := fs\<rparr>)"
  | (failed) e where "r = Inl e" "same_data w w'"
  using assms by (cases rule: io_cases [of ErrDB w]) (auto simp: db_write_def bindM_def)

lemma find_token_in: "find_token i w = Some t \<Longrightarrow> t \<in> set (w_tokens w) \<and> tok_ID t = i"
  by (auto simp: find_token_def find_Some_iff)

lemma save_others:
  assumes "tokens_ok w" "t \<in> set (w_tokens w)" "tok_ID t' = tok_ID t" "tok_UserID t' = tok_UserID t"
    "tok_KeyHash t' = tok_KeyHash t"
  defines "f \<equiv> \<lambda>x. if tok_ID x = tok_ID t' then t' else x"
  shows "filter (\<lambda>x. tok_UserID x \<noteq> tok_UserID t) (map f (w_tokens w)) =
      filter (\<lambda>x. tok_UserID x \<noteq> tok_UserID t) (w_tokens w)"
    and "map tok_ID (map f (w_tokens w)) = map tok_ID (w_tokens w)"
    and "map tok_KeyHash (map f (w_tokens w)) = map tok_KeyHash (w_tokens w)"
proof -
  have u: "x = t" if "x \<in> set (w_tokens w)" "tok_ID x = tok_ID t" for x
    using that assms(1,2) unfolding tokens_ok_def by (metis distinct_map inj_onD)
  have "filter (\<lambda>x. tok_UserID x \<noteq> tok_UserID t) (map f xs) =
      filter (\<lambda>x. tok_UserID x \<noteq> tok_UserID t) xs" if "set xs \<subseteq> set (w_tokens w)" for xs
    using that by (induction xs) (auto simp: f_def assms(3,4) dest: u)
  from this [OF subset_refl] show "filter (\<lambda>x. tok_UserID x \<noteq> tok_UserID t) (map f (w_tokens w)) =
      filter (\<lambda>x. tok_UserID x \<noteq> tok_UserID t) (w_tokens w)" .
  show "map tok_ID (map f (w_tokens w)) = map tok_ID (w_tokens w)"
    by (auto simp: f_def)
  show "map tok_KeyHash (map f (w_tokens w)) = map tok_KeyHash (w_tokens w)"
    using u assms(3,5) by (auto simp: f_def)
qed


lemma Update_cases:
  assumes "TokenService_Update uid i inp w = (r, w')"
  obtains (failed) e where "r = Inl e" "same_data w w'"
  | (saved) t fs where "r = Inr (toView (applyInput inp t))" "find_token i w = Some t"
      "tok_UserID t = uid"
      "w' = w\<lparr>w_faults := fs, w_tokens := map (\<lambda>x. if tok_ID x = tok_ID (applyInput inp t)
         then applyInput inp t else x) (w_tokens w)\<rparr>"
proof -
  let ?bad = "case ti_Name inp of None \<Rightarrow> False | Some n \<Rightarrow> trim_space n = []"
  obtain r1 w1 where g: "getOwned uid i w = (r1, w1)" by fastforce
  then show thesis
  proof (cases rule: getOwned_cases)
    case (failed e)
    with g assms that(1) show thesis by (auto simp: TokenService_Update_def bindM_def)
  next
    case (found t)
    show thesis
    proof (cases ?bad)
      case True
      with g found assms that(1) show thesis by (auto simp: TokenService_Update_def bindM_def)
    next
      case False
      obtain r2 w2 where s: "save_token (applyInput inp t) w1 = (r2, w2)" by fastforce
      obtain x where x: "w1 = w\<lparr>w_faults := x\<rparr>"
        using found(4) unfolding same_data_def by blast
      from s show thesis unfolding save_token_def
      proof (cases rule: db_write_cases')
        case (ok fs)
        have "w' = w2" "r = Inr (toView (applyInput inp t))"
          using g found s False assms ok unfolding TokenService_Update_def bindM_def seqM_def Let_def
          by simp_all
        moreover have "w2 = w\<lparr>w_faults := fs, w_tokens := map (\<lambda>x. if tok_ID x = tok_ID (applyInput inp t)
            then applyInput inp t else x) (w_tokens w)\<rparr>"
          unfolding ok(2) x by simp
        ultimately show thesis by (intro that(2) [OF _ found(2,3)]) simp_all
      next
        case (failed e)
        have "w' = w2" "r = Inl e"
          using g found s False assms failed unfolding TokenService_Update_def bindM_def seqM_def Let_def
          by simp_all
        with failed found(4) that(1) show thesis by (blast intro: same_data_trans)
      qed
    qed
  qed
qed

lemma Update_keeps:
  assumes "tokens_ok w" "TokenService_Update uid i inp w = (r, w')"
  shows "tokens_ok w' \<and> others uid w' = others uid w
    \<and> (\<forall>v. r = Inr v \<longrightarrow> tok_ID (tv_Token v) = i \<and> tok_UserID (tv_Token v) = uid)"
  using assms(2)
proof (cases rule: Update_cases)
  case (failed e)
  then show ?thesis using assms(1) by (simp add: others_data tokens_ok_data)
next
  case (saved t fs)
  have t: "t \<in> set (w_tokens w)" "tok_ID t = i" using find_token_in [OF saved(2)] by auto
  note k = save_others [OF assms(1) t(1), of "applyInput inp t"]
  have "others uid w' = others uid w"
    using k(1) saved(3,4) by (simp add: others_def)
  moreover have "tokens_ok w'"
    using k(2,3) assms(1) t saved(4)
    unfolding tokens_ok_def by (auto simp: list_all_iff simp del: map_map)
  ultimately show ?thesis using saved(1,3) t by (simp add: toView_def)
qed

lemma Delete_cases:
  assumes "TokenService_Delete uid i w = (r, w')"
  obtains (failed) e where "r = Inl e" "same_data w w'"
  | (deleted) fs where "r = Inr ()" "\<exists>t \<in> set (w_tokens w). tok_ID t = i \<and> tok_UserID t = uid"
      "w' = w\<lparr>w_faults := fs, w_tokens := filter (\<lambda>t. \<not> (tok_ID t = i \<and> tok_UserID t = uid)) (w_tokens w)\<rparr>"
proof (cases rule: io_cases [of ErrDB w])
  case (ok fs)
  show thesis
  proof (cases "list_ex (\<lambda>t. tok_ID t = i \<and> tok_UserID t = uid) (w_tokens w)")
    case True
    with ok assms show thesis
      by (intro deleted [of fs]) (auto simp: TokenService_Delete_def bindM_def Let_def list_ex_iff)
  next
    case False
    with ok assms failed show thesis by (auto simp: TokenService_Delete_def bindM_def Let_def)
  qed
next
  case (fail fs)
  with assms failed show thesis by (auto simp: TokenService_Delete_def bindM_def)
qed

lemma Delete_keeps:
  assumes "tokens_ok w" "TokenService_Delete uid i w = (r, w')"
  shows "tokens_ok w' \<and> others uid w' = others uid w"
  using assms(2)
proof (cases rule: Delete_cases)
  case (failed e)
  then show ?thesis using assms(1) by (simp add: others_data tokens_ok_data)
next
  case (deleted fs)
  have "filter (\<lambda>t. tok_UserID t \<noteq> uid) (filter (\<lambda>t. \<not> (tok_ID t = i \<and> tok_UserID t = uid)) xs)
      = filter (\<lambda>t. tok_UserID t \<noteq> uid) xs" for xs
    by (induction xs) auto
  then have "others uid w' = others uid w" using deleted by (simp add: others_def)
  moreover have "tokens_ok w'"
    using assms(1) deleted by (auto simp: tokens_ok_def distinct_map list_all_iff inj_on_def)
  ultimately show ?thesis by simp
qed

lemma Create_cases:
  assumes "TokenService_Create uid inp rnd w = (r, w')"
  obtains (failed) e where "r = Inl e" "w_tokens w' = w_tokens w" "w_seq w seq_tokens \<le> w_seq w' seq_tokens"
  | (stored) buf name grp t where "rnd = Some buf" "ti_Name inp = Some name" "grp \<noteq> []"
      "t = (gorm_token_defaults (new_token uid name (tokenKeyPrefix @ hex_encode buf) grp inp))
         \<lparr>tok_ID := w_seq w seq_tokens\<rparr>"
      "r = Inr (toView t, tokenKeyPrefix @ hex_encode buf)" "w_tokens w' = w_tokens w @ [t]"
      "\<not> list_ex (\<lambda>x. tok_KeyHash x = tok_KeyHash t) (w_tokens w)"
      "w_seq w' seq_tokens = Suc (w_seq w seq_tokens)"
proof (cases "ti_Name inp = None \<or> trim_space (the (ti_Name inp)) = [] \<or> rnd = None")
  case True
  with assms failed show thesis
    by (auto simp: TokenService_Create_def GenerateKey_def split: option.splits if_splits)
next
  case False
  then obtain name buf where nb: "ti_Name inp = Some name" "trim_space name \<noteq> []" "rnd = Some buf"
    by auto
  obtain r1 w1 where g: "token_group uid inp w = (r1, w1)" by fastforce
  then obtain grp where grp: "r1 = Inr grp" "grp \<noteq> []" and sd: "same_data w w1"
    using token_group_step by blast
  let ?n = "new_token uid name (tokenKeyPrefix @ hex_encode buf) grp inp"
  obtain r2 w2 where c: "create_token ?n w1 = (r2, w2)" by fastforce
  have run: "TokenService_Create uid inp rnd w =
      (case r2 of Inl e \<Rightarrow> Inl e | Inr t \<Rightarrow> Inr (toView t, tokenKeyPrefix @ hex_encode buf), w2)"
    using nb g grp c by (simp add: TokenService_Create_def GenerateKey_def bindM_def split: sum.split)
  from c show thesis
  proof (cases rule: create_token_cases)
    case (failed e)
    with run assms that(1) same_dataD [OF sd] show thesis by auto
  next
    case (stored t)
    with run assms nb grp that(2) same_dataD [OF sd] show thesis by auto
  qed
qed

lemma Create_keeps:
  assumes "tokens_ok w" "TokenService_Create uid inp rnd w = (r, w')"
  shows "tokens_ok w' \<and> others uid w' = others uid w"
  using assms(2)
proof (cases rule: Create_cases)
  case (failed e)
  then show ?thesis using assms(1) by (auto simp: tokens_ok_def others_def list_all_iff)
next
  case (stored buf name grp t)
  then have "tok_ID t = w_seq w seq_tokens" "tok_UserID t = uid" by simp_all
  with stored assms(1) show ?thesis by (auto simp: others_def intro: tokens_ok_append)
qed


section \<open>Properties\<close>

definition token_world :: world where
  "token_world = (quota_world [])\<lparr>w_redis := None, w_seq := (\<lambda>_. 2)\<rparr>"

definition sample_key :: "nat list" where "sample_key = replicate 32 7"

definition sample_token_input :: token_input where
  "sample_token_input = \<lparr>ti_Name = Some ''ci'', ti_Status = None, ti_Quota = Some 0, ti_ExpiredAt = None,
     ti_Group = Some '' '', ti_AllowedModels = None, ti_OutputFormat = None\<rparr>"

lemma token_world_facts:
  "tokens_ok token_world" "w_faults token_world = []" "w_redis token_world = None"
  "find_token 1 token_world = Some (sample_token 1 7 50 10)"
  "find_user 7 token_world = Some (sample_user 7 100 20)"
  "distinct (map user_ID (w_users token_world))"
  by (simp_all add: tokens_ok_def token_world_def quota_world_def sample_token_def find_token_def
      find_user_def sample_user_def)

text \<open>
  A key is created as asked: for a non-blank name, when the hash is new and no call
  fails, exactly one row is appended, it belongs to the caller, holds the SHA-256 hash of
  the returned \<open>sk-\<close> key and not the key, starts with no usage, is in the request's group,
  else the owner's, else \<open>default\<close> (never empty), and ids and hashes stay unique.  Its
  quota is the one asked for, unlimited if none was asked for, and also unlimited if the
  quota asked for is 0.
\<close>

lemma token_create_correct:
  assumes "tokens_ok w" and "w_faults w = []"
    and "ti_Name inp = Some name" and "trim_space name \<noteq> []"
    and "HashKey (''sk-'' @ hex_encode buf) \<notin> tok_KeyHash ` set (w_tokens w)"
  shows "\<exists>t w'. TokenService_Create uid inp (Some buf) w = (Inr (toView t, ''sk-'' @ hex_encode buf), w')
    \<and> w_tokens w' = w_tokens w @ [t] \<and> tokens_ok w'
    \<and> tok_UserID t = uid \<and> tok_KeyHash t = HashKey (''sk-'' @ hex_encode buf) \<and> tok_UsedQuota t = 0
    \<and> tok_Group t = group_spec uid inp w \<and> tok_Group t \<noteq> []
    \<and> tok_Quota t = (case ti_Quota inp of None \<Rightarrow> - 1 | Some q \<Rightarrow> if q = 0 then - 1 else q)"
proof -
  define plain where "plain = ''sk-'' @ hex_encode buf"
  let ?n = "new_token uid name plain (group_spec uid inp w) inp"
  define t where "t = (gorm_token_defaults ?n)\<lparr>tok_ID := w_seq w seq_tokens\<rparr>"
  have nh: "\<not> list_ex (\<lambda>x. tok_KeyHash x = tok_KeyHash ?n) (w_tokens w)"
    using assms(5) by (auto simp: list_ex_iff image_iff plain_def)
  obtain w' where c: "create_token ?n w = (Inr t, w')" "w_tokens w' = w_tokens w @ [t]"
    "w_seq w' seq_tokens = Suc (w_seq w seq_tokens)"
    using create_token_ok [OF assms(2) nh] by (auto simp: t_def)
  have "GenerateKey (Some buf) = Inr plain"
    by (simp add: GenerateKey_def tokenKeyPrefix_def plain_def)
  then have run: "TokenService_Create uid inp (Some buf) w = (Inr (toView t, plain), w')"
    using assms(3,4) by (simp add: TokenService_Create_def bindM_def token_group_ok [OF assms(2)] c(1))
  have "tok_ID t = w_seq w seq_tokens" "tok_KeyHash t = HashKey plain" by (simp_all add: t_def)
  then have "tokens_ok w'"
    using assms(1) nh c(2,3) by (intro tokens_ok_append [of w w' t]) simp_all
  moreover have "tok_Quota t = (case ti_Quota inp of None \<Rightarrow> - 1 | Some q \<Rightarrow> if q = 0 then - 1 else q)"
    "tok_Group t = group_spec uid inp w" "tok_UserID t = uid" "tok_UsedQuota t = 0"
    by (auto simp: t_def gorm_token_defaults_def QuotaUnlimited_def split: option.split)
  ultimately show ?thesis
    using run c(2) \<open>tok_KeyHash t = HashKey plain\<close> unfolding plain_def
    by (intro exI [of _ t] exI [of _ w']) auto
qed

lemma token_create_correct_witness:
  "\<exists>t w'. TokenService_Create 7 sample_token_input (Some sample_key) token_world = (Inr t, w')
     \<and> length (w_tokens w') = 2 \<and> tok_Quota (w_tokens w' ! 1) = - 1
     \<and> tok_Group (w_tokens w' ! 1) = ''default''"
proof -
  have h: "HashKey (''sk-'' @ hex_encode sample_key) \<notin> tok_KeyHash ` set (w_tokens token_world)"
  proof -
    have "length (hex_encode bs) = 2 * length bs" for bs by (induction bs) (auto simp: hex_encode_def)
    then have "length (HashKey k) = 64" for k by (simp add: HashKey_def length_sha256)
    then have "HashKey (''sk-'' @ hex_encode sample_key) \<noteq> ''h''"
      by (metis length_Cons list.size(3) numeral_eq_one_iff One_nat_def semiring_norm(85))
    then show ?thesis by (simp add: token_world_def quota_world_def sample_token_def)
  qed
  have t: "trim_space ''ci'' = ''ci''" "trim_space '' '' = []" "trim_space ''default'' = ''default''"
    by code_simp+
  have n: "ti_Name sample_token_input = Some ''ci''" "trim_space ''ci'' \<noteq> []"
    using t by (simp_all add: sample_token_input_def)
  have "group_spec 7 sample_token_input token_world = ''default''"
    using t by (simp add: group_spec_def sample_token_input_def token_world_facts sample_user_def)
  with token_create_correct [OF token_world_facts(1,2) n h, of 7] show ?thesis
    by (auto simp: sample_token_input_def token_world_def quota_world_def)
qed

text \<open>
  C26. Keys of different users are isolated: whatever calls fail, creating, updating or
  deleting as one user leaves every row of every other user as it is and keeps ids and
  hashes unique, and an update only ever succeeds on, and returns, a row of the caller.
\<close>

theorem token_isolation:
  assumes "tokens_ok w"
    and "TokenService_Create uid inp rnd w = (r1, w1)"
    and "TokenService_Update uid i inp w = (r2, w2)"
    and "TokenService_Delete uid i w = (r3, w3)"
  shows "tokens_ok w1 \<and> others uid w1 = others uid w
    \<and> tokens_ok w2 \<and> others uid w2 = others uid w
    \<and> tokens_ok w3 \<and> others uid w3 = others uid w
    \<and> (case r2 of Inl _ \<Rightarrow> True | Inr v \<Rightarrow> tok_ID (tv_Token v) = i \<and> tok_UserID (tv_Token v) = uid)"
  using Create_keeps [OF assms(1,2)] Update_keeps [OF assms(1,3)] Delete_keeps [OF assms(1,4)]
  by (simp split: sum.split)

lemma token_isolation_witness:
  "others 8 (snd (TokenService_Delete 8 1 token_world)) = [sample_token 1 7 50 10]
     \<and> others 8 (snd (TokenService_Update 8 1 sample_token_input token_world)) = [sample_token 1 7 50 10]"
proof -
  have "others 8 token_world = [sample_token 1 7 50 10]"
    by (simp add: others_def token_world_def quota_world_def sample_token_def)
  with token_isolation [OF token_world_facts(1) prod.collapse [symmetric] prod.collapse [symmetric]
      prod.collapse [symmetric], of 8 sample_token_input None 1] show ?thesis
    by simp
qed

text \<open>
  An update can erase usage: without Redis, when the usage of a request is recorded
  between the read and the \<open>Save\<close> of \<open>Update\<close>, the save writes the stale \<open>used_quota\<close> back,
  so the token's usage is what it was before the request while the user's has grown.
\<close>

lemma token_update_loses_usage:
  assumes "tokens_ok w" and "w_faults w = []" and "w_redis w = None" and "0 < n"
    and "find_token i w = Some t" and "tok_UserID t = uid"
    and "distinct (map user_ID (w_users w))" and "find_user uid w = Some u"
    and "in_int64 (tok_UsedQuota t + n)" and "in_int64 (user_UsedQuota u + n)"
  shows "\<exists>w1 w2. getOwned uid i w = (Inr t, w) \<and> Consume i uid n w = (Inr (), w1)
    \<and> save_token (applyInput inp t) w1 = (Inr (), w2)
    \<and> db_token_used w1 i = Some (tok_UsedQuota t + n) \<and> db_token_used w2 i = Some (tok_UsedQuota t)
    \<and> db_user_used w2 uid = Some (user_UsedQuota u + n)"
proof -
  define w1 where "w1 = upd_user uid (\<lambda>u. u\<lparr>user_UsedQuota := user_UsedQuota u + n\<rparr>)
    (upd_token i (\<lambda>t. t\<lparr>tok_UsedQuota := tok_UsedQuota t + n\<rparr>) w)"
  define f where "f = (\<lambda>x. if tok_ID x = tok_ID (applyInput inp t) then applyInput inp t else x)"
  have i: "tok_ID t = i" using find_token_in [OF assms(5)] by simp
  have d: "distinct (map tok_ID (w_tokens w))" using assms(1) by (simp add: tokens_ok_def)
  have c: "Consume i uid n w = (Inr (), w1)"
    unfolding w1_def using Consume_db_eq [OF assms(2-4) d assms(7,5,8-10)] .
  have s: "save_token (applyInput inp t) w1 = (Inr (), w1\<lparr>w_tokens := map f (w_tokens w1)\<rparr>)"
    unfolding save_token_def f_def using assms(2) by (simp add: w1_def)
  have "find_token i w1 = Some (t\<lparr>tok_UsedQuota := tok_UsedQuota t + n\<rparr>)"
    using assms(5) by (simp add: w1_def)
  moreover have "find (\<lambda>x. tok_ID x = i) (map f xs) = map_option (\<lambda>_. applyInput inp t)
      (find (\<lambda>x. tok_ID x = i) xs)" for xs
    by (induction xs) (auto simp: f_def i)
  ultimately have "db_token_used w1 i = Some (tok_UsedQuota t + n)"
    "db_token_used (w1\<lparr>w_tokens := map f (w_tokens w1)\<rparr>) i = Some (tok_UsedQuota t)"
    by (simp_all add: db_token_used_def find_token_def)
  moreover have "db_user_used (w1\<lparr>w_tokens := map f (w_tokens w1)\<rparr>) uid = Some (user_UsedQuota u + n)"
  proof -
    have "find_user uid w1 = Some (u\<lparr>user_UsedQuota := user_UsedQuota u + n\<rparr>)"
      using assms(8) by (simp add: w1_def)
    then show ?thesis by (simp add: db_user_used_def find_user_def)
  qed
  moreover have "getOwned uid i w = (Inr t, w)"
    using assms(2,5,6) by (simp add: getOwned_def bindM_def)
  ultimately show ?thesis using c s by blast
qed

lemma token_update_loses_usage_witness:
  "\<exists>w1 w2. getOwned 7 1 token_world = (Inr (sample_token 1 7 50 10), token_world)
    \<and> Consume 1 7 5 token_world = (Inr (), w1)
    \<and> save_token (applyInput sample_token_input (sample_token 1 7 50 10)) w1 = (Inr (), w2)
    \<and> db_token_used w1 1 = Some 15 \<and> db_token_used w2 1 = Some 10"
  using token_update_loses_usage [OF token_world_facts(1-3) _ token_world_facts(4) _
      token_world_facts(6,5), of 5 sample_token_input]
  by (auto simp: sample_token_def sample_user_def in_int64_def)

end
