(* ===== verification/Format.thy ===== *)
theory Format
  imports Records
begin

text \<open>
  Response dialects and the error schema of \<open>relay/format.go\<close>.  What a handler writes to the
  client is a list of \<open>client_event\<close>s: response headers, one JSON response with its status,
  or, on a streamed response, the frames.  A body is the JSON value handed to the encoder;
  the members of a \<open>gin.H\<close> are listed in the order \<open>encoding/json\<close> writes them (sorted).
\<close>

section \<open>Dialects\<close>

definition FormatOpenAI :: string where "FormatOpenAI = InboundOpenAI"
definition FormatAnthropic :: string where "FormatAnthropic = InboundAnthropic"
definition OutOpenAI :: string where "OutOpenAI = OutputOpenAI"
definition OutAnthropic :: string where "OutAnthropic = OutputAnthropic"
definition OutBedrock :: string where "OutBedrock = OutputBedrock"

lemmas format_defs = FormatOpenAI_def FormatAnthropic_def OutOpenAI_def OutAnthropic_def
  OutBedrock_def InboundOpenAI_def InboundAnthropic_def OutputOpenAI_def OutputAnthropic_def
  OutputBedrock_def

definition outFormatFor :: "string \<Rightarrow> string option \<Rightarrow> string" where
  "outFormatFor inbound override =
     (case override of
        Some v \<Rightarrow> if v = OutOpenAI \<or> v = OutAnthropic \<or> v = OutBedrock then v else inbound
      | None \<Rightarrow> inbound)"

definition FormatFromPath :: "string \<Rightarrow> string" where
  "FormatFromPath fullPath = (if fullPath = ''/v1/messages'' then FormatAnthropic else FormatOpenAI)"

section \<open>Error schema\<close>

datatype ErrorClass =
    ClassInternal
  | ClassInvalidRequest
  | ClassAuthentication
  | ClassPermission
  | ClassQuota
  | ClassUpstream

definition ErrType :: "string \<Rightarrow> ErrorClass \<Rightarrow> string" where
  "ErrType format cls =
     (if format = FormatAnthropic then
        (case cls of
           ClassInvalidRequest \<Rightarrow> ''invalid_request_error''
         | ClassAuthentication \<Rightarrow> ''authentication_error''
         | ClassPermission \<Rightarrow> ''permission_error''
         | ClassQuota \<Rightarrow> ''rate_limit_error''
         | ClassUpstream \<Rightarrow> ''api_error''
         | _ \<Rightarrow> ''api_error'')
      else
        (case cls of
           ClassInvalidRequest \<Rightarrow> ''invalid_request_error''
         | ClassAuthentication \<Rightarrow> ''authentication_error''
         | ClassPermission \<Rightarrow> ''permission_error''
         | ClassQuota \<Rightarrow> ''insufficient_quota''
         | ClassUpstream \<Rightarrow> ''upstream_error''
         | _ \<Rightarrow> ''api_error''))"

definition ErrorBody :: "string \<Rightarrow> string \<Rightarrow> string \<Rightarrow> json" where
  "ErrorBody format errType message =
     (if format = FormatAnthropic then
        JObj [(''error'', JObj [(''message'', JStr message), (''type'', JStr errType)]),
              (''type'', JStr ''error'')]
      else JObj [(''error'', JObj [(''message'', JStr message), (''type'', JStr errType)])])"

definition ErrorBodyOut :: "string \<Rightarrow> string \<Rightarrow> string \<Rightarrow> json" where
  "ErrorBodyOut out errType message =
     (if out = OutBedrock then JObj [(''message'', JStr message)]
      else if out = OutAnthropic then
        JObj [(''error'', JObj [(''message'', JStr message), (''type'', JStr errType)]),
              (''type'', JStr ''error'')]
      else JObj [(''error'', JObj [(''message'', JStr message), (''type'', JStr errType)])])"

definition errTypeOut :: "string \<Rightarrow> ErrorClass \<Rightarrow> string" where
  "errTypeOut out cls =
     (if out = OutAnthropic then ErrType FormatAnthropic cls else ErrType FormatOpenAI cls)"

section \<open>Writing to the client\<close>

datatype client_event =
    SetHeader string string
  | SendJSON int json
  | SendStatus int
  | SendFrame string

definition WriteError :: "string \<Rightarrow> int \<Rightarrow> string \<Rightarrow> string \<Rightarrow> client_event list" where
  "WriteError format status errType message = [SendJSON status (ErrorBody format errType message)]"

definition WriteClassError :: "string \<Rightarrow> int \<Rightarrow> ErrorClass \<Rightarrow> string \<Rightarrow> client_event list" where
  "WriteClassError format status cls message = WriteError format status (ErrType format cls) message"

definition WriteOutError :: "string \<Rightarrow> int \<Rightarrow> ErrorClass \<Rightarrow> string \<Rightarrow> client_event list" where
  "WriteOutError out status cls message =
     [SendJSON status (ErrorBodyOut out (errTypeOut out cls) message)]"

section \<open>The two error writers agree\<close>

text \<open>
  An endpoint that answers in its own dialect and a key that pins that same dialect give the
  same error body, so that the middleware and the relay are indistinguishable to a client.
\<close>

lemma WriteOutError_mirror:
  assumes "format = FormatOpenAI \<or> format = FormatAnthropic"
  shows "WriteOutError (outFormatFor format None) status cls message =
    WriteClassError format status cls message"
  using assms
  by (auto simp: WriteOutError_def WriteClassError_def WriteError_def ErrorBodyOut_def ErrorBody_def
      errTypeOut_def outFormatFor_def format_defs)

lemma outFormatFor_valid:
  assumes "format = FormatOpenAI \<or> format = FormatAnthropic"
  shows "outFormatFor format ov \<in> {OutOpenAI, OutAnthropic, OutBedrock}"
  using assms by (auto simp: outFormatFor_def format_defs split: option.splits)

end
