(* ===== verification/Auth.thy ===== *)
theory Auth
  imports Tokens Format
begin

text \<open>
  The middleware in front of the relay endpoints: \<open>middleware/relay_auth.go\<close> and
  \<open>middleware/quota.go\<close>.  A middleware returns what it wrote when it aborts (\<open>Inl\<close>), or the
  values it puts into the request's context.
\<close>

section \<open>Requests\<close>

text \<open>\<open>rq_header\<close> is \<open>GetHeader\<close>: the empty string for a header that is absent.\<close>

record http_request =
  rq_FullPath :: string
  rq_header :: "string \<Rightarrow> string"

text \<open>
  \<open>strings.EqualFold\<close> with \<open>Bearer \<close>, which has no letter with a non-ASCII fold, is
  equality after lower-casing ASCII.
\<close>

definition relayKey :: "http_request \<Rightarrow> string option" where
  "relayKey c =
     (let v = trim_space (rq_header c ''x-api-key'') in
      if v \<noteq> [] then Some v
      else
        let h = rq_header c ''Authorization''; pre = ''Bearer '' in
        if length h > length pre \<and> map lower_char (take (length pre) h) = map lower_char pre then
          (let tok = trim_space (drop (length pre) h) in if tok \<noteq> [] then Some tok else None)
        else None)"

text \<open>\<open>None\<close> when the token may be used, else the reason why not.\<close>

definition tokenUsable :: "int \<Rightarrow> token_row \<Rightarrow> string option" where
  "tokenUsable now tok =
     (if tok_Status tok = TokenDisabled then Some ''API key is disabled''
      else if tok_Status tok = TokenExpired then Some ''API key has expired''
      else case tok_ExpiredAt tok of
        None \<Rightarrow> None
      | Some e \<Rightarrow> if e \<noteq> 0 \<and> now > e then Some ''API key has expired'' else None)"

type_synonym 'a mw = "world \<Rightarrow> (client_event list + 'a) \<times> world"

definition RelayAuth :: "http_request \<Rightarrow> (token_row \<times> user) mw" where
  "RelayAuth c w =
     (let format = FormatFromPath (rq_FullPath c);
          reject = (\<lambda>status cls m. Inl (WriteClassError format status cls m)) in
      case relayKey c of
        None \<Rightarrow> (reject 401 ClassAuthentication
           ''missing API key: provide an Authorization: Bearer sk-... or x-api-key header'', w)
      | Some key \<Rightarrow>
          (case GetByKeyHash (HashKey key) w of
             (Inl e, w1) \<Rightarrow>
               (if e = ErrTokenNotFound then reject 401 ClassAuthentication ''invalid API key''
                else reject 500 ClassInternal ''could not validate API key'', w1)
           | (Inr tok, w1) \<Rightarrow>
               (case tokenUsable (w_now w1) tok of
                  Some msg \<Rightarrow> (reject 401 ClassAuthentication msg, w1)
                | None \<Rightarrow>
                    (case db_read (find_user (tok_UserID tok)) w1 of
                       (Inl e, w2) \<Rightarrow> (reject 401 ClassAuthentication ''owning account not found'', w2)
                     | (Inr None, w2) \<Rightarrow> (reject 401 ClassAuthentication ''owning account not found'', w2)
                     | (Inr (Some u), w2) \<Rightarrow>
                         if user_Status u \<noteq> UserEnabled
                         then (reject 401 ClassAuthentication ''owning account is disabled'', w2)
                         else (Inr (tok, u), w2)))))"

text \<open>The quota middleware runs after \<open>RelayAuth\<close>, with the token and user it stored.\<close>

definition Quota_mw :: "http_request \<Rightarrow> (token_row \<times> user) option \<Rightarrow> unit mw" where
  "Quota_mw c ctx w =
     (let format = FormatFromPath (rq_FullPath c) in
      case ctx of
        None \<Rightarrow> (Inl (WriteClassError format 401 ClassAuthentication ''authentication required''), w)
      | Some (tok, u) \<Rightarrow>
          (case CheckRemaining (tok_ID tok) (user_ID u) 0 w of
             (Inl e, w1) \<Rightarrow> (Inl (WriteClassError format 500 ClassInternal ''could not check quota''), w1)
           | (Inr rem, w1) \<Rightarrow>
               if rem = 0 then
                 (Inl (WriteClassError format 402 ClassQuota
                   ''insufficient quota: the API key or account has no remaining token budget''), w1)
               else (Inr (), w1)))"

section \<open>Keys are graphic\<close>

lemma graphic_hex: "n < 16 \<Longrightarrow> graphic (hex_digit n)"
  by (simp add: graphic_def hex_digit_def of_char_of)

lemma graphic_key: "list_all graphic (tokenKeyPrefix @ hex_encode buf)"
proof -
  have "list_all graphic (hex_encode buf)"
    by (induction buf) (auto simp: hex_encode_def graphic_hex)
  moreover have "list_all graphic tokenKeyPrefix" by code_simp
  ultimately show ?thesis by simp
qed

section \<open>Who is admitted\<close>

definition admissible :: "http_request \<Rightarrow> world \<Rightarrow> token_row \<Rightarrow> user \<Rightarrow> bool" where
  "admissible c w t u \<longleftrightarrow>
     (\<exists>key. relayKey c = Some key \<and> token_by_hash (HashKey key) w = Some t)
     \<and> tok_Status t \<noteq> TokenDisabled \<and> tok_Status t \<noteq> TokenExpired
     \<and> (tok_ExpiredAt t = None \<or> the (tok_ExpiredAt t) = 0 \<or> w_now w \<le> the (tok_ExpiredAt t))
     \<and> find_user (tok_UserID t) w = Some u \<and> user_Status u = UserEnabled"

lemma tokenUsable_None:
  "tokenUsable now t = None \<longleftrightarrow> tok_Status t \<noteq> TokenDisabled \<and> tok_Status t \<noteq> TokenExpired
     \<and> (tok_ExpiredAt t = None \<or> the (tok_ExpiredAt t) = 0 \<or> now \<le> the (tok_ExpiredAt t))"
  by (auto simp: tokenUsable_def split: option.split)

lemma GetByKeyHash_cases:
  assumes "GetByKeyHash h w = (r, w')"
  obtains (failed) "r = Inl ErrDB" "same_data w w'" "w_faults w \<noteq> []"
  | (missing) "r = Inl ErrTokenNotFound" "same_data w w'" "token_by_hash h w = None"
  | (found) t where "r = Inr t" "same_data w w'" "token_by_hash h w = Some t"
proof (cases rule: io_cases [of ErrDB w])
  case (ok fs)
  have "token_by_hash h (w\<lparr>w_faults := fs\<rparr>) = token_by_hash h w" by (simp add: token_by_hash_def)
  with ok assms missing found show thesis
    by (cases "token_by_hash h w") (auto simp: GetByKeyHash_def db_read_def bindM_def)
next
  case (fail fs)
  then have "w_faults w \<noteq> []" by auto
  with fail assms failed show thesis by (auto simp: GetByKeyHash_def db_read_def bindM_def)
qed

lemma db_read_cases:
  assumes "db_read f w = (r, w')" "\<And>fs. f (w\<lparr>w_faults := fs\<rparr>) = f w"
  obtains (failed) "r = Inl ErrDB" "same_data w w'" "w_faults w \<noteq> []"
  | (ok) "r = Inr (f w)" "same_data w w'"
proof (cases rule: io_cases [of ErrDB w])
  case (ok fs)
  with assms that(2) show thesis by (auto simp: db_read_def bindM_def)
next
  case (fail fs)
  then have "w_faults w \<noteq> []" by auto
  with fail assms that(1) show thesis by (auto simp: db_read_def bindM_def)
qed

lemma read_user_cases:
  assumes "db_read (find_user i) w = (r, w')"
  obtains (failed) "r = Inl ErrDB" "same_data w w'" "w_faults w \<noteq> []"
  | (ok) "r = Inr (find_user i w)" "same_data w w'"
proof -
  have "find_user i (w\<lparr>w_faults := fs\<rparr>) = find_user i w" for fs by (simp add: find_user_def)
  with assms show thesis using that by (elim db_read_cases)
qed

lemma admissible_unique: "admissible c w t u \<Longrightarrow> admissible c w t' u' \<Longrightarrow> t' = t \<and> u' = u"
  by (auto simp: admissible_def)

lemma RelayAuth_reject:
  assumes "RelayAuth c w = (Inl evs, w')"
  shows "same_data w w' \<and> (\<exists>status cls m. status \<in> {401, 500}
      \<and> evs = WriteClassError (FormatFromPath (rq_FullPath c)) status cls m)
    \<and> (w_faults w = [] \<longrightarrow> (\<forall>t u. \<not> admissible c w t u))"
proof (cases "relayKey c")
  case None
  with assms show ?thesis by (auto simp: RelayAuth_def admissible_def)
next
  case (Some key)
  obtain r1 w1 where g: "GetByKeyHash (HashKey key) w = (r1, w1)" by fastforce
  then show ?thesis
  proof (cases rule: GetByKeyHash_cases)
    case failed
    with g Some assms show ?thesis by (auto simp: RelayAuth_def Let_def)
  next
    case missing
    with g Some assms show ?thesis by (auto simp: RelayAuth_def Let_def admissible_def)
  next
    case (found t)
    show ?thesis
    proof (cases "tokenUsable (w_now w) t")
      case (Some msg)
      moreover from this have "tokenUsable (w_now w) t \<noteq> None" by simp
      then have "\<not> admissible c w t u" for u
        unfolding tokenUsable_None admissible_def by blast
      ultimately show ?thesis
        using g found \<open>relayKey c = Some key\<close> assms same_dataD(12) [OF found(2)]
        by (auto simp: RelayAuth_def Let_def admissible_def)
    next
      case None
      obtain r2 w2 where r: "db_read (find_user (tok_UserID t)) w1 = (r2, w2)" by fastforce
      have fu: "find_user (tok_UserID t) w1 = find_user (tok_UserID t) w"
        using found(2) by (simp add: find_user_def same_dataD)
      have w1f: "w_faults w = [] \<Longrightarrow> w_faults w1 = []"
        using g found(1) by (auto simp: GetByKeyHash_def bindM_def split: option.splits)
      from r show ?thesis
      proof (cases rule: read_user_cases)
        case failed
        with g found None r \<open>relayKey c = Some key\<close> assms w1f same_dataD(12) [OF found(2)]
        show ?thesis by (auto simp: RelayAuth_def Let_def intro: same_data_trans)
      next
        case ok
        with g found None r fu \<open>relayKey c = Some key\<close> assms same_dataD(12) [OF found(2)]
        show ?thesis
          by (auto simp: RelayAuth_def Let_def admissible_def intro: same_data_trans
              split: option.splits if_splits)
      qed
    qed
  qed
qed

lemma RelayAuth_accept:
  assumes "RelayAuth c w = (Inr (t, u), w')"
  shows "same_data w w' \<and> admissible c w t u"
proof -
  from assms obtain key where k: "relayKey c = Some key"
    by (cases "relayKey c") (auto simp: RelayAuth_def)
  obtain r1 w1 where g: "GetByKeyHash (HashKey key) w = (r1, w1)" by fastforce
  then show ?thesis
  proof (cases rule: GetByKeyHash_cases)
    case (found t')
    obtain r2 w2 where r: "db_read (find_user (tok_UserID t')) w1 = (r2, w2)" by fastforce
    have fu: "find_user (tok_UserID t') w1 = find_user (tok_UserID t') w"
      using found(2) by (simp add: find_user_def same_dataD)
    have us: "tokenUsable (w_now w) t' = None"
      using g found k assms same_dataD(12) [OF found(2)]
      by (auto simp: RelayAuth_def Let_def split: option.splits)
    from r show ?thesis
    proof (cases rule: read_user_cases)
      case failed
      with g found us r k assms same_dataD(12) [OF found(2)] show ?thesis
        by (auto simp: RelayAuth_def Let_def)
    next
      case ok
      with g found us r fu k assms same_dataD(12) [OF found(2)] show ?thesis
        by (auto simp: RelayAuth_def Let_def admissible_def tokenUsable_None
            intro: same_data_trans split: option.splits if_splits)
    qed
  qed (use g k assms in \<open>auto simp: RelayAuth_def Let_def\<close>)
qed


lemma relayKey_forms:
  assumes "list_all graphic k" "k \<noteq> []"
    and "rq_header c ''x-api-key'' = k
      \<or> rq_header c ''x-api-key'' = [] \<and> rq_header c ''Authorization'' = ''Bearer '' @ k"
  shows "relayKey c = Some k"
  using assms by (auto simp: relayKey_def Let_def trim_space_graphic)

lemma CheckRemaining_exact:
  assumes "w_faults w = []"
    "find_token i w = Some t" "live_token w i = Some tu" "0 \<le> tu" "tu < 2 ^ 63" "tok_Quota t < 2 ^ 63"
    "find_user j w = Some u" "live_user w j = Some uu" "0 \<le> uu" "uu < 2 ^ 63" "user_Quota u < 2 ^ 63"
  shows "\<exists>r w'. CheckRemaining i j est w = (Inr r, w') \<and> lazy_load w w'
    \<and> (r = 0 \<longleftrightarrow> 0 \<le> tok_Quota t \<and> tok_Quota t \<le> tu \<or> 0 \<le> user_Quota u \<and> user_Quota u \<le> uu)"
proof -
  obtain w' where w': "CheckRemaining i j est w =
      (Inr (minRemaining (remaining (tok_Quota t) tu) (remaining (user_Quota u) uu)), w')"
      "lazy_load w w'"
    using CheckRemaining_ok [OF assms(1,2,7,3,8)] by blast
  have "minRemaining (remaining (tok_Quota t) tu) (remaining (user_Quota u) uu) = 0 \<longleftrightarrow>
      0 \<le> tok_Quota t \<and> tok_Quota t \<le> tu \<or> 0 \<le> user_Quota u \<and> user_Quota u \<le> uu"
    using assms by (auto simp: remaining_exact minRemaining_def max_def)
  with w' show ?thesis by blast
qed

section \<open>Properties\<close>

definition sample_request :: "string \<Rightarrow> http_request" where
  "sample_request k = \<lparr>rq_FullPath = ''/v1/messages'',
     rq_header = (\<lambda>h. if h = ''Authorization'' then ''Bearer '' @ k else [])\<rparr>"

text \<open>
  C9. Authentication admits exactly the holders of a usable key: whatever calls fail, a
  request that passes presents a key whose hash is stored with a token that is neither
  disabled nor expired (by status or by time) and whose owner exists and is enabled; a
  request that is rejected gets one JSON error, 401 or 500, in the dialect of its endpoint,
  and when no call failed no token and user would have made it admissible.  Nothing in the
  stores changes.
\<close>

theorem relay_auth_sound_complete:
  "case RelayAuth c w of
     (Inr (t, u), w') \<Rightarrow> same_data w w' \<and> admissible c w t u
   | (Inl evs, w') \<Rightarrow> same_data w w'
       \<and> (\<exists>status cls m. status \<in> {401, 500}
            \<and> evs = WriteClassError (FormatFromPath (rq_FullPath c)) status cls m)
       \<and> (w_faults w = [] \<longrightarrow> (\<forall>t u. \<not> admissible c w t u))"
  using RelayAuth_accept [of c w] RelayAuth_reject [of c w]
  by (auto split: prod.split sum.split)

lemma relay_auth_sound_complete_witness:
  "\<exists>evs w'. RelayAuth (sample_request []) token_world = (Inl evs, w') \<and> length evs = 1"
proof -
  have "relayKey (sample_request []) = None" by (simp add: relayKey_def sample_request_def Let_def)
  then have "\<not> admissible (sample_request []) token_world t u" for t u by (simp add: admissible_def)
  with relay_auth_sound_complete [of token_world "sample_request []"] show ?thesis
    by (auto simp: WriteClassError_def WriteError_def split: prod.splits sum.splits)
qed

text \<open>
  C30. A created key works: the plaintext that \<open>Create\<close> returned, sent in \<open>x-api-key\<close> or as a
  bearer token, authenticates as exactly the token that was created, as long as its status
  and expiry permit and its owner is enabled.
\<close>

theorem created_key_authenticates:
  assumes "tokens_ok w" and "TokenService_Create uid inp rnd w = (Inr (v, plain), w1)"
    and "w_faults w1 = []" and "tokenUsable (w_now w1) (tv_Token v) = None"
    and "find_user uid w1 = Some u" and "user_Status u = UserEnabled"
    and "rq_header c ''x-api-key'' = plain
      \<or> rq_header c ''x-api-key'' = [] \<and> rq_header c ''Authorization'' = ''Bearer '' @ plain"
  shows "RelayAuth c w1 = (Inr (tv_Token v, u), w1)"
  using assms(2)
proof (cases rule: Create_cases)
  case (stored buf name grp t)
  then have v: "tv_Token v = t" "plain = tokenKeyPrefix @ hex_encode buf" "tok_KeyHash t = HashKey plain"
    "tok_UserID t = uid"
    by (simp_all add: toView_def)
  have k: "relayKey c = Some plain"
    using assms(7) graphic_key [of buf] v(2) by (intro relayKey_forms) (auto simp: tokenKeyPrefix_def)
  have "find (\<lambda>x. tok_KeyHash x = HashKey plain) (w_tokens w) = None"
    using stored(7) v(3) by (auto simp: find_None_iff list_ex_iff)
  then have "token_by_hash (HashKey plain) w1 = Some t"
    using stored(6) v(3) by (simp add: token_by_hash_def find_append)
  then have "GetByKeyHash (HashKey plain) w1 = (Inr t, w1)"
    using assms(3) by (simp add: GetByKeyHash_def bindM_def)
  with k v assms(3-6) show ?thesis by (simp add: RelayAuth_def Let_def)
qed simp

lemma created_key_authenticates_witness:
  "\<exists>v plain w1. TokenService_Create 7 sample_token_input (Some sample_key) token_world = (Inr (v, plain), w1)
     \<and> RelayAuth (sample_request plain) w1 = (Inr (tv_Token v, sample_user 7 100 20), w1)"
proof -
  define plain where "plain = tokenKeyPrefix @ hex_encode sample_key"
  define t where "t = (gorm_token_defaults (new_token 7 ''ci'' plain ''default'' sample_token_input))\<lparr>tok_ID := 2\<rparr>"
  define w1 where "w1 = token_world\<lparr>w_seq := (\<lambda>_. 2)(seq_tokens := 3),
      w_tokens := w_tokens token_world @ [t]\<rparr>"
  have tr: "trim_space ''ci'' = ''ci''" "trim_space '' '' = []" "trim_space ''default'' = ''default''"
    by code_simp+
  have g: "group_spec 7 sample_token_input token_world = ''default''"
    using tr by (simp add: group_spec_def sample_token_input_def token_world_facts sample_user_def)
  have "length (hex_encode bs) = 2 * length bs" for bs by (induction bs) (auto simp: hex_encode_def)
  then have "length (HashKey plain) = 64" by (simp add: HashKey_def length_sha256)
  then have h: "HashKey plain \<noteq> ''h''" by (metis length_Cons list.size(3) numeral_eq_one_iff One_nat_def semiring_norm(85))
  let ?n = "new_token 7 ''ci'' plain ''default'' sample_token_input"
  have "\<not> list_ex (\<lambda>x. tok_KeyHash x = tok_KeyHash ?n) (w_tokens token_world)"
    using h by (simp add: token_world_def quota_world_def sample_token_def)
  note c = create_token_ok [OF token_world_facts(2) this]
  have sq: "w_seq token_world = (\<lambda>_. 2)" by (simp add: token_world_def)
  have c1: "create_token ?n token_world = (Inr t, w1)"
    unfolding c by (simp add: w1_def t_def sq numeral_eq_Suc)
  have "GenerateKey (Some sample_key) = Inr plain" "ti_Name sample_token_input = Some ''ci''"
    by (simp_all add: GenerateKey_def plain_def sample_token_input_def)
  then have "TokenService_Create 7 sample_token_input (Some sample_key) token_world = (Inr (toView t, plain), w1)"
    using tr token_group_ok [OF token_world_facts(2), of 7 sample_token_input] g
    by (simp add: TokenService_Create_def bindM_def c1)
  moreover have "w_faults w1 = []" "find_user 7 w1 = Some (sample_user 7 100 20)"
    by (simp_all add: w1_def token_world_facts find_user_def)
      (simp add: token_world_def quota_world_def sample_user_def)
  moreover have "tokenUsable (w_now w1) (tv_Token (toView t)) = None"
    by (simp add: tokenUsable_None toView_def t_def gorm_token_defaults_def sample_token_input_def
        enum_defs)
  ultimately show ?thesis
    using created_key_authenticates [OF token_world_facts(1), of 7 sample_token_input
        "Some sample_key" "toView t" plain w1 "sample_user 7 100 20" "sample_request plain"]
    by (auto simp: sample_request_def sample_user_def)
qed

text \<open>
  The quota middleware rejects exactly the exhausted: for an existing token and user
  and no failing call, it answers 402 if the token or the user has a limit (a non-negative
  quota) that its live usage has reached, and lets the request through otherwise; no live
  count changes.
\<close>

lemma quota_middleware_exact:
  assumes "w_faults w = []"
    and "find_token (tok_ID t) w = Some t" and "live_token w (tok_ID t) = Some tu"
    and "0 \<le> tu" and "tu < 2 ^ 63" and "tok_Quota t < 2 ^ 63"
    and "find_user (user_ID u) w = Some u" and "live_user w (user_ID u) = Some uu"
    and "0 \<le> uu" and "uu < 2 ^ 63" and "user_Quota u < 2 ^ 63"
  shows "\<exists>r w'. Quota_mw c (Some (t, u)) w = (r, w') \<and> live_token w' = live_token w \<and> live_user w' = live_user w
    \<and> (if 0 \<le> tok_Quota t \<and> tok_Quota t \<le> tu \<or> 0 \<le> user_Quota u \<and> user_Quota u \<le> uu
       then \<exists>m. r = Inl [SendJSON 402 (ErrorBody (FormatFromPath (rq_FullPath c)) m
          ''insufficient quota: the API key or account has no remaining token budget'')]
       else r = Inr ())"
proof -
  obtain r w' where r: "CheckRemaining (tok_ID t) (user_ID u) 0 w = (Inr r, w')" "lazy_load w w'"
    "r = 0 \<longleftrightarrow> 0 \<le> tok_Quota t \<and> tok_Quota t \<le> tu \<or> 0 \<le> user_Quota u \<and> user_Quota u \<le> uu"
    using CheckRemaining_exact [OF assms, of 0] by blast
  have "live_token w' = live_token w" "live_user w' = live_user w"
    using lazy_load_live [OF r(2)] by (auto simp: fun_eq_iff)
  with r show ?thesis
    by (cases "r = 0") (auto simp: Quota_mw_def Let_def WriteClassError_def WriteError_def)
qed

lemma quota_middleware_exact_witness:
  "\<exists>w'. Quota_mw (sample_request []) (Some (sample_token 1 7 50 10, sample_user 7 100 20)) (quota_world [])
     = (Inr (), w')"
  using quota_middleware_exact [of "quota_world []" "sample_token 1 7 50 10" 10 "sample_user 7 100 20" 25
      "sample_request []"] quota_world_facts
  by (auto simp: sample_token_def sample_user_def)

end
