(* ===== verification/Json.thy ===== *)
theory Json
  imports Unified
begin

text \<open>
  \<open>encoding/json\<close> as the server uses it: the parser (syntax, escapes, replacement of invalid
  UTF-8, the nesting limit of 10000), the decoders with which \<open>Unmarshal\<close> fills Go
  structs, and \<open>Marshal\<close> of the values the server builds.
\<close>

section \<open>Parsing\<close>

definition json_ws :: "char \<Rightarrow> bool" where
  "json_ws c \<longleftrightarrow> c = CHR 0x20 \<or> c = CHR 0x09 \<or> c = CHR 0x0A \<or> c = CHR 0x0D"

definition skip_ws :: "string \<Rightarrow> string" where
  "skip_ws s = dropWhile json_ws s"

definition digit_char :: "char \<Rightarrow> bool" where
  "digit_char c \<longleftrightarrow> 48 \<le> (of_char c :: nat) \<and> (of_char c :: nat) \<le> 57"

definition hex_val :: "char \<Rightarrow> nat option" where
  "hex_val c = (let n = of_char c in
     if 48 \<le> n \<and> n \<le> 57 then Some (n - 48)
     else if 97 \<le> n \<and> n \<le> 102 then Some (n - 87)
     else if 65 \<le> n \<and> n \<le> 70 then Some (n - 55) else None)"

definition hex4 :: "string \<Rightarrow> nat option" where
  "hex4 s = (case s of
       a # b # c # d # _ \<Rightarrow>
         (case (hex_val a, hex_val b, hex_val c, hex_val d) of
            (Some w, Some x, Some y, Some z) \<Rightarrow> Some (w * 4096 + x * 256 + y * 16 + z)
          | _ \<Rightarrow> None)
     | _ \<Rightarrow> None)"

text \<open>A number literal and the rest: \<open>-\<close>, digits without a leading zero, fraction, exponent.\<close>

definition exponent :: "string \<Rightarrow> (string \<times> string) option" where
  "exponent s = (case s of
       e # r \<Rightarrow>
         if e = CHR ''e'' \<or> e = CHR ''E'' then
           (let (sg, r') = (case r of c # t \<Rightarrow> if c = CHR ''+'' \<or> c = CHR ''-'' then ([c], t) else ([], r) | [] \<Rightarrow> ([], r));
                ds = takeWhile digit_char r' in
            if ds = [] then None else Some (e # sg @ ds, dropWhile digit_char r'))
         else Some ([], s)
     | [] \<Rightarrow> Some ([], s))"

definition fraction :: "string \<Rightarrow> (string \<times> string) option" where
  "fraction s = (case s of
       d # r \<Rightarrow>
         if d = CHR ''.'' then
           (let ds = takeWhile digit_char r in
            if ds = [] then None else Some (d # ds, dropWhile digit_char r))
         else Some ([], s)
     | [] \<Rightarrow> Some ([], s))"

definition int_part :: "string \<Rightarrow> (string \<times> string) option" where
  "int_part s = (let ds = takeWhile digit_char s in
     if ds = [] then None
     else if hd ds = CHR ''0'' then Some (''0'', tl s)
     else Some (ds, dropWhile digit_char s))"

definition parse_number :: "string \<Rightarrow> (json \<times> string) option" where
  "parse_number s =
     (let neg = prefix ''-'' s; s1 = (if neg then tl s else s) in
      (case int_part s1 of
         None \<Rightarrow> None
       | Some (ip, s2) \<Rightarrow>
           (case fraction s2 of
              None \<Rightarrow> None
            | Some (fr, s3) \<Rightarrow>
                (case exponent s3 of
                   None \<Rightarrow> None
                 | Some (ex, s4) \<Rightarrow>
                     Some (if fr = [] \<and> ex = [] then JInt (if neg then - int (undec ip) else int (undec ip))
                           else JDec ((if neg then ''-'' else []) @ ip @ fr @ ex), s4)))))"

definition simple_escape :: "char \<Rightarrow> char option" where
  "simple_escape c =
     (if c = CHR 0x22 \<or> c = CHR 0x5C \<or> c = CHR ''/'' then Some c
      else if c = CHR ''b'' then Some CHR 0x08
      else if c = CHR ''f'' then Some CHR 0x0C
      else if c = CHR ''n'' then Some CHR 0x0A
      else if c = CHR ''r'' then Some CHR 0x0D
      else if c = CHR ''t'' then Some CHR 0x09
      else None)"

definition is_high :: "nat \<Rightarrow> bool" where "is_high u \<longleftrightarrow> 0xD800 \<le> u \<and> u < 0xDC00"
definition is_low :: "nat \<Rightarrow> bool" where "is_low u \<longleftrightarrow> 0xDC00 \<le> u \<and> u < 0xE000"

definition cons_str :: "string \<Rightarrow> (string \<times> string) option \<Rightarrow> (string \<times> string) option" where
  "cons_str p r = (case r of None \<Rightarrow> None | Some (v, rest) \<Rightarrow> Some (p @ v, rest))"

text \<open>
  The body of a string after its opening quote.  An escaped high surrogate joins with
  an escaped low one; a surrogate alone is U+FFFD, and so is an invalid byte.
\<close>

function parse_str :: "string \<Rightarrow> (string \<times> string) option" where
  "parse_str s =
     (case s of
        [] \<Rightarrow> None
      | c # r \<Rightarrow>
          if c = CHR 0x22 then Some ([], r)
          else if c = CHR 0x5C then
            (case r of
               [] \<Rightarrow> None
             | e # r1 \<Rightarrow>
                 if e = CHR ''u'' then
                   (case hex4 r1 of
                      None \<Rightarrow> None
                    | Some u \<Rightarrow>
                        (let low = (if prefix [CHR 0x5C, CHR ''u''] (drop 4 r1) then hex4 (drop 6 r1) else None) in
                         if is_high u \<and> low \<noteq> None \<and> is_low (the low)
                         then cons_str (encode_rune (0x10000 + (u - 0xD800) * 1024 + (the low - 0xDC00)))
                                (parse_str (drop 10 r1))
                         else cons_str (encode_rune u) (parse_str (drop 4 r1))))
                 else (case simple_escape e of None \<Rightarrow> None | Some x \<Rightarrow> cons_str [x] (parse_str r1)))
          else if (of_char c :: nat) < 0x20 then None
          else cons_str (encode_rune (fst (decode_rune s))) (parse_str (drop (snd (decode_rune s)) s)))"
  by pat_completeness auto
termination
proof (relation "measure length", goal_cases)
  case (5 s c r)
  then show ?case using decode_rune_width [of s] by simp
qed auto

declare parse_str.simps [simp del]

lemma length_skip_ws: "length (skip_ws s) \<le> length s"
  by (simp add: skip_ws_def length_dropWhile_le)

text \<open>
  A parsed document keeps the source text of every value, which is what a \<open>json.RawMessage\<close>
  field holds.
\<close>

datatype doc =
    DAtom json string
  | DArr "doc list" string
  | DObj "(string \<times> doc) list" string

fun doc_raw :: "doc \<Rightarrow> string" where
  "doc_raw (DAtom _ s) = s"
| "doc_raw (DArr _ s) = s"
| "doc_raw (DObj _ s) = s"

fun doc_json :: "doc \<Rightarrow> json" where
  "doc_json (DAtom j _) = j"
| "doc_json (DArr ds _) = JArr (map doc_json ds)"
| "doc_json (DObj kvs _) = JObj (map (\<lambda>(k, d). (k, doc_json d)) kvs)"

definition is_null :: "doc \<Rightarrow> bool" where
  "is_null d \<longleftrightarrow> (case d of DAtom JNull _ \<Rightarrow> True | _ \<Rightarrow> False)"

text \<open>The part of the input before what is left of it.\<close>

definition consumed :: "string \<Rightarrow> string \<Rightarrow> string" where
  "consumed s r = take (length s - length r) s"

text \<open>
  The tests \<open>length r < length s\<close> only make termination evident: what follows a parsed value
  is always shorter.
\<close>

function (sequential) parse_value :: "nat \<Rightarrow> string \<Rightarrow> (doc \<times> string) option"
  and parse_elems :: "nat \<Rightarrow> string \<Rightarrow> (doc list \<times> string) option"
  and parse_members :: "nat \<Rightarrow> string \<Rightarrow> ((string \<times> doc) list \<times> string) option" where
  "parse_value d s =
     (case skip_ws s of
        [] \<Rightarrow> None
      | c # r \<Rightarrow>
          if c = CHR 0x22 then
            map_option (\<lambda>(v, r'). (DAtom (JStr v) (consumed (c # r) r'), r')) (parse_str r)
          else if c = CHR ''['' then
            (if d = 0 then None
             else if prefix '']'' (skip_ws r) then
               Some (DArr [] (consumed (c # r) (tl (skip_ws r))), tl (skip_ws r))
             else map_option (\<lambda>(xs, r'). (DArr xs (consumed (c # r) r'), r')) (parse_elems (d - 1) r))
          else if c = CHR ''{'' then
            (if d = 0 then None
             else if prefix ''}'' (skip_ws r) then
               Some (DObj [] (consumed (c # r) (tl (skip_ws r))), tl (skip_ws r))
             else map_option (\<lambda>(kvs, r'). (DObj kvs (consumed (c # r) r'), r')) (parse_members (d - 1) r))
          else if prefix ''true'' (c # r) then Some (DAtom (JBool True) ''true'', drop 4 (c # r))
          else if prefix ''false'' (c # r) then Some (DAtom (JBool False) ''false'', drop 5 (c # r))
          else if prefix ''null'' (c # r) then Some (DAtom JNull ''null'', drop 4 (c # r))
          else map_option (\<lambda>(j, r'). (DAtom j (consumed (c # r) r'), r')) (parse_number (c # r)))"
| "parse_elems d s =
     (case parse_value d s of
        None \<Rightarrow> None
      | Some (v, r) \<Rightarrow>
          (case skip_ws r of
             c # r' \<Rightarrow>
               if c = CHR '']'' then Some ([v], r')
               else if c = CHR '','' \<and> length r' < length s then
                 map_option (\<lambda>(xs, t). (v # xs, t)) (parse_elems d r')
               else None
           | [] \<Rightarrow> None))"
| "parse_members d s =
     (case skip_ws s of
        q # r \<Rightarrow>
          if q = CHR 0x22 then
            (case parse_str r of
               None \<Rightarrow> None
             | Some (k, r1) \<Rightarrow>
                 (case skip_ws r1 of
                    c # r2 \<Rightarrow>
                      if c = CHR '':'' \<and> length r2 < length s then
                        (case parse_value d r2 of
                           None \<Rightarrow> None
                         | Some (v, r3) \<Rightarrow>
                             (case skip_ws r3 of
                                e # r4 \<Rightarrow>
                                  if e = CHR ''}'' then Some ([(k, v)], r4)
                                  else if e = CHR '','' \<and> length r4 < length s then
                                    map_option (\<lambda>(kvs, t). ((k, v) # kvs, t)) (parse_members d r4)
                                  else None
                              | [] \<Rightarrow> None))
                      else None
                  | [] \<Rightarrow> None))
          else None
      | [] \<Rightarrow> None)"
  by pat_completeness auto
termination
proof (relation "measure (\<lambda>x. case x of Inl (d, s) \<Rightarrow> 2 * length s | Inr (Inl (d, s)) \<Rightarrow> 2 * length s + 1
      | Inr (Inr (d, s)) \<Rightarrow> 2 * length s + 1)", goal_cases)
  case (2 d s c r)
  then show ?case using length_skip_ws [of s] by simp
next
  case (3 d s c r)
  then show ?case using length_skip_ws [of s] by simp
qed auto

declare parse_value.simps [simp del] parse_elems.simps [simp del] parse_members.simps [simp del]

definition maxNestingDepth :: nat where "maxNestingDepth = 10000"

definition parse_json :: "string \<Rightarrow> doc option" where
  "parse_json s =
     (case parse_value maxNestingDepth s of
        Some (v, r) \<Rightarrow> if skip_ws r = [] then Some v else None
      | None \<Rightarrow> None)"

section \<open>Decoding into structs\<close>

text \<open>
  A decoder takes the value and what the target holds, and returns what it holds then and
  whether the value fitted; \<open>Unmarshal\<close> reports a misfit after decoding the rest.  A later
  member of an object with the same key decodes into the same field.  JSON \<open>null\<close> leaves
  anything but a pointer or slice alone.
\<close>

type_synonym 'a decoder = "doc \<Rightarrow> 'a \<Rightarrow> 'a \<times> bool"

fun dec_str :: "string decoder" where
  "dec_str (DAtom (JStr s) _) old = (s, True)"
| "dec_str (DAtom JNull _) old = (old, True)"
| "dec_str _ old = (old, False)"

fun dec_gint :: "int decoder" where
  "dec_gint (DAtom (JInt i) _) old = (if in_int64 i then (i, True) else (old, False))"
| "dec_gint (DAtom JNull _) old = (old, True)"
| "dec_gint _ old = (old, False)"

fun dec_bool :: "bool decoder" where
  "dec_bool (DAtom (JBool b) _) old = (b, True)"
| "dec_bool (DAtom JNull _) old = (old, True)"
| "dec_bool _ old = (old, False)"

definition dec_ptr :: "'a \<Rightarrow> 'a decoder \<Rightarrow> 'a option decoder" where
  "dec_ptr zero d j old =
     (if is_null j then (None, True)
      else (case d j (case old of None \<Rightarrow> zero | Some x \<Rightarrow> x) of (v, ok) \<Rightarrow> (Some v, ok)))"

definition dec_list :: "'a \<Rightarrow> 'a decoder \<Rightarrow> 'a list decoder" where
  "dec_list zero d j old =
     (case j of
        DArr xs _ \<Rightarrow> (map (\<lambda>x. fst (d x zero)) xs, list_all (\<lambda>x. snd (d x zero)) xs)
      | _ \<Rightarrow> if is_null j then ([], True) else (old, False))"

text \<open>A struct: \<open>f k\<close> decodes a member whose key matches field \<open>k\<close>; other members are skipped.\<close>

definition dec_struct :: "(string \<Rightarrow> 'a decoder) \<Rightarrow> 'a decoder" where
  "dec_struct f j old =
     (case j of
        DObj kvs _ \<Rightarrow> fold (\<lambda>(k, v) (x, ok). case f (fold_view k) v x of (x', ok') \<Rightarrow> (x', ok \<and> ok')) kvs (old, True)
      | _ \<Rightarrow> (old, is_null j))"

text \<open>A \<open>json.RawMessage\<close> takes the source text, \<open>null\<close> included.\<close>

definition dec_raw :: "string decoder" where
  "dec_raw j old = (doc_raw j, True)"

text \<open>\<open>into get put d\<close>: decode into one field of a record.\<close>

definition into :: "('r \<Rightarrow> 'a) \<Rightarrow> ('a \<Rightarrow> 'r \<Rightarrow> 'r) \<Rightarrow> 'a decoder \<Rightarrow> 'r decoder" where
  "into get put d j r = (case d j (get r) of (v, ok) \<Rightarrow> (put v r, ok))"

definition skip_member :: "'r decoder" where
  "skip_member j r = (r, True)"

definition unmarshal :: "'a decoder \<Rightarrow> 'a \<Rightarrow> string \<Rightarrow> 'a option" where
  "unmarshal d zero s =
     (case parse_json s of
        None \<Rightarrow> None
      | Some j \<Rightarrow> (case d j zero of (v, ok) \<Rightarrow> if ok then Some v else None))"

text \<open>When the error is ignored: a syntax error leaves the zero value, a misfit the rest.\<close>

definition unmarshal_lenient :: "'a decoder \<Rightarrow> 'a \<Rightarrow> string \<Rightarrow> 'a" where
  "unmarshal_lenient d zero s = (case parse_json s of None \<Rightarrow> zero | Some j \<Rightarrow> fst (d j zero))"

section \<open>Rendering\<close>

text \<open>
  \<open>json.Marshal\<close> of a raw message compacts it: white space outside strings goes, and the
  characters HTML is sensitive to are escaped.  The mode says whether the scan is inside a
  string and whether the last character was a backslash there.
\<close>

datatype scan_mode = Outside | Inside | Escaped

fun next_mode :: "scan_mode \<Rightarrow> char \<Rightarrow> scan_mode" where
  "next_mode Outside c = (if c = CHR 0x22 then Inside else Outside)"
| "next_mode Inside c = (if c = CHR 0x22 then Outside else if c = CHR 0x5C then Escaped else Inside)"
| "next_mode Escaped c = Inside"

definition html_escape :: "char \<Rightarrow> string" where
  "html_escape c =
     (if c = CHR ''<'' then CHR 0x5C # ''u003c''
      else if c = CHR ''>'' then CHR 0x5C # ''u003e''
      else if c = CHR ''&'' then CHR 0x5C # ''u0026''
      else [c])"

fun compact :: "scan_mode \<Rightarrow> string \<Rightarrow> string" where
  "compact m [] = []"
| "compact m (c # s) =
     (if m = Outside \<and> json_ws c then compact m s
      else if c = CHR 0xE2 \<and> prefix [CHR 0x80, CHR 0xA8] s then
        (CHR 0x5C # ''u2028'') @ compact m (drop 2 s)
      else if c = CHR 0xE2 \<and> prefix [CHR 0x80, CHR 0xA9] s then
        (CHR 0x5C # ''u2029'') @ compact m (drop 2 s)
      else html_escape c @ compact (next_mode m c) s)"

text \<open>A nil raw message is rendered as \<open>null\<close>.\<close>

fun marshal :: "json \<Rightarrow> string" where
  "marshal JNull = ''null''"
| "marshal (JBool b) = (if b then ''true'' else ''false'')"
| "marshal (JInt i) = dec_int i"
| "marshal (JDec s) = s"
| "marshal (JRaw s) = (if s = [] then ''null'' else compact Outside s)"
| "marshal (JStr s) = strconvQuote s"
| "marshal (JArr xs) = ''['' @ str_join '','' (map marshal xs) @ '']''"
| "marshal (JObj kvs) = ''{'' @ str_join '','' (map (\<lambda>(k, v). strconvQuote k @ '':'' @ marshal v) kvs) @ ''}''"

end
