(* ===== verification/Chunks.thy ===== *)
theory Chunks
  imports Json
begin

text \<open>
  Stream events of the three providers and of the three output dialects: the adapters'
  \<open>ParseStreamChunk\<close> with the wire types they decode, and the builders of
  \<open>adapter/transform.go\<close> that render a unified chunk.  A parse result is the chunk and whether
  it is meaningful, or \<open>None\<close> for the decode error a pump skips.
\<close>

section \<open>Wire types\<close>

definition fields :: "(string \<times> 'r decoder) list \<Rightarrow> string \<Rightarrow> 'r decoder" where
  "fields fs k = (case map_of fs k of Some d \<Rightarrow> d | None \<Rightarrow> skip_member)"

definition dec_record :: "(string \<times> 'r decoder) list \<Rightarrow> 'r decoder" where
  "dec_record fs = dec_struct (fields fs)"

subsection \<open>OpenAI\<close>

definition zero_openai_usage :: openai_usage where
  "zero_openai_usage = \<lparr>oa_Prompt = 0, oa_Completion = 0, oa_Total = 0, oa_Cached = None\<rparr>"

definition dec_cached :: "int decoder" where
  "dec_cached = dec_record [(''cached_tokens'', dec_gint)]"

definition dec_openai_usage :: "openai_usage decoder" where
  "dec_openai_usage = dec_record
     [(''prompt_tokens'', into oa_Prompt (\<lambda>v r. r\<lparr>oa_Prompt := v\<rparr>) dec_gint),
      (''completion_tokens'', into oa_Completion (\<lambda>v r. r\<lparr>oa_Completion := v\<rparr>) dec_gint),
      (''total_tokens'', into oa_Total (\<lambda>v r. r\<lparr>oa_Total := v\<rparr>) dec_gint),
      (''prompt_tokens_details'', into oa_Cached (\<lambda>v r. r\<lparr>oa_Cached := v\<rparr>) (dec_ptr 0 dec_cached))]"

text \<open>\<open>tool_call_delta\<close> has the fields of an element of \<open>tool_calls\<close>.\<close>

definition zero_tool_call :: tool_call_delta where
  "zero_tool_call = \<lparr>tc_Index = 0, tc_ID = [], tc_Name = [], tc_Args = []\<rparr>"

definition dec_tool_call :: "tool_call_delta decoder" where
  "dec_tool_call = dec_record
     [(''index'', into tc_Index (\<lambda>v r. r\<lparr>tc_Index := v\<rparr>) dec_gint),
      (''id'', into tc_ID (\<lambda>v r. r\<lparr>tc_ID := v\<rparr>) dec_str),
      (''function'', dec_record
         [(''name'', into tc_Name (\<lambda>v r. r\<lparr>tc_Name := v\<rparr>) dec_str),
          (''arguments'', into tc_Args (\<lambda>v r. r\<lparr>tc_Args := v\<rparr>) dec_str)])]"

record openai_choice =
  oc_Content :: string
  oc_ToolCalls :: "tool_call_delta list"
  oc_Finish :: "string option"

record openai_chunk =
  ok_Model :: string
  ok_Choices :: "openai_choice list"
  ok_Usage :: "openai_usage option"

definition zero_openai_choice :: openai_choice where
  "zero_openai_choice = \<lparr>oc_Content = [], oc_ToolCalls = [], oc_Finish = None\<rparr>"

definition dec_openai_choice :: "openai_choice decoder" where
  "dec_openai_choice = dec_record
     [(''delta'', dec_record
         [(''content'', into oc_Content (\<lambda>v r. r\<lparr>oc_Content := v\<rparr>) dec_str),
          (''tool_calls'', into oc_ToolCalls (\<lambda>v r. r\<lparr>oc_ToolCalls := v\<rparr>)
              (dec_list zero_tool_call dec_tool_call))]),
      (''finish_reason'', into oc_Finish (\<lambda>v r. r\<lparr>oc_Finish := v\<rparr>) (dec_ptr [] dec_str))]"

definition zero_openai_chunk :: openai_chunk where
  "zero_openai_chunk = \<lparr>ok_Model = [], ok_Choices = [], ok_Usage = None\<rparr>"

definition dec_openai_chunk :: "openai_chunk decoder" where
  "dec_openai_chunk = dec_record
     [(''model'', into ok_Model (\<lambda>v r. r\<lparr>ok_Model := v\<rparr>) dec_str),
      (''choices'', into ok_Choices (\<lambda>v r. r\<lparr>ok_Choices := v\<rparr>)
          (dec_list zero_openai_choice dec_openai_choice)),
      (''usage'', into ok_Usage (\<lambda>v r. r\<lparr>ok_Usage := v\<rparr>) (dec_ptr zero_openai_usage dec_openai_usage))]"

subsection \<open>Anthropic\<close>

definition zero_anthropic_usage :: anthropic_usage where
  "zero_anthropic_usage = \<lparr>au_Input = 0, au_Output = 0, au_CacheRead = 0, au_CacheCreation = 0\<rparr>"

definition dec_anthropic_usage :: "anthropic_usage decoder" where
  "dec_anthropic_usage = dec_record
     [(''input_tokens'', into au_Input (\<lambda>v r. r\<lparr>au_Input := v\<rparr>) dec_gint),
      (''output_tokens'', into au_Output (\<lambda>v r. r\<lparr>au_Output := v\<rparr>) dec_gint),
      (''cache_read_input_tokens'', into au_CacheRead (\<lambda>v r. r\<lparr>au_CacheRead := v\<rparr>) dec_gint),
      (''cache_creation_input_tokens'', into au_CacheCreation (\<lambda>v r. r\<lparr>au_CacheCreation := v\<rparr>) dec_gint)]"

record anthropic_start =
  as_Model :: string
  as_Usage :: "anthropic_usage option"

record anthropic_block =
  ab_Type :: string
  ab_ID :: string
  ab_Name :: string

record anthropic_delta =
  ad_Type :: string
  ad_Text :: string
  ad_PartialJSON :: string
  ad_StopReason :: string

record anthropic_error =
  aerr_Type :: string
  aerr_Message :: string

record anthropic_event =
  ae_Type :: string
  ae_Index :: int
  ae_Message :: "anthropic_start option"
  ae_ContentBlock :: "anthropic_block option"
  ae_Delta :: "anthropic_delta option"
  ae_Usage :: "anthropic_usage option"
  ae_Error :: "anthropic_error option"

definition zero_anthropic_event :: anthropic_event where
  "zero_anthropic_event = \<lparr>ae_Type = [], ae_Index = 0, ae_Message = None, ae_ContentBlock = None,
     ae_Delta = None, ae_Usage = None, ae_Error = None\<rparr>"

definition dec_anthropic_start :: "anthropic_start decoder" where
  "dec_anthropic_start = dec_record
     [(''model'', into as_Model (\<lambda>v r. r\<lparr>as_Model := v\<rparr>) dec_str),
      (''usage'', into as_Usage (\<lambda>v r. r\<lparr>as_Usage := v\<rparr>) (dec_ptr zero_anthropic_usage dec_anthropic_usage))]"

definition dec_anthropic_block :: "anthropic_block decoder" where
  "dec_anthropic_block = dec_record
     [(''type'', into ab_Type (\<lambda>v r. r\<lparr>ab_Type := v\<rparr>) dec_str),
      (''id'', into ab_ID (\<lambda>v r. r\<lparr>ab_ID := v\<rparr>) dec_str),
      (''name'', into ab_Name (\<lambda>v r. r\<lparr>ab_Name := v\<rparr>) dec_str)]"

definition dec_anthropic_delta :: "anthropic_delta decoder" where
  "dec_anthropic_delta = dec_record
     [(''type'', into ad_Type (\<lambda>v r. r\<lparr>ad_Type := v\<rparr>) dec_str),
      (''text'', into ad_Text (\<lambda>v r. r\<lparr>ad_Text := v\<rparr>) dec_str),
      (''partial_json'', into ad_PartialJSON (\<lambda>v r. r\<lparr>ad_PartialJSON := v\<rparr>) dec_str),
      (''stop_reason'', into ad_StopReason (\<lambda>v r. r\<lparr>ad_StopReason := v\<rparr>) dec_str)]"

definition dec_anthropic_error :: "anthropic_error decoder" where
  "dec_anthropic_error = dec_record
     [(''type'', into aerr_Type (\<lambda>v r. r\<lparr>aerr_Type := v\<rparr>) dec_str),
      (''message'', into aerr_Message (\<lambda>v r. r\<lparr>aerr_Message := v\<rparr>) dec_str)]"

definition zero_start :: anthropic_start where "zero_start = \<lparr>as_Model = [], as_Usage = None\<rparr>"
definition zero_block :: anthropic_block where "zero_block = \<lparr>ab_Type = [], ab_ID = [], ab_Name = []\<rparr>"
definition zero_delta :: anthropic_delta where
  "zero_delta = \<lparr>ad_Type = [], ad_Text = [], ad_PartialJSON = [], ad_StopReason = []\<rparr>"
definition zero_error :: anthropic_error where "zero_error = \<lparr>aerr_Type = [], aerr_Message = []\<rparr>"

definition dec_anthropic_event :: "anthropic_event decoder" where
  "dec_anthropic_event = dec_record
     [(''type'', into ae_Type (\<lambda>v r. r\<lparr>ae_Type := v\<rparr>) dec_str),
      (''index'', into ae_Index (\<lambda>v r. r\<lparr>ae_Index := v\<rparr>) dec_gint),
      (''message'', into ae_Message (\<lambda>v r. r\<lparr>ae_Message := v\<rparr>) (dec_ptr zero_start dec_anthropic_start)),
      (''content_block'', into ae_ContentBlock (\<lambda>v r. r\<lparr>ae_ContentBlock := v\<rparr>)
          (dec_ptr zero_block dec_anthropic_block)),
      (''delta'', into ae_Delta (\<lambda>v r. r\<lparr>ae_Delta := v\<rparr>) (dec_ptr zero_delta dec_anthropic_delta)),
      (''usage'', into ae_Usage (\<lambda>v r. r\<lparr>ae_Usage := v\<rparr>) (dec_ptr zero_anthropic_usage dec_anthropic_usage)),
      (''error'', into ae_Error (\<lambda>v r. r\<lparr>ae_Error := v\<rparr>) (dec_ptr zero_error dec_anthropic_error))]"

subsection \<open>Bedrock\<close>

definition zero_bedrock_usage :: bedrock_usage where
  "zero_bedrock_usage = \<lparr>bu_Input = 0, bu_Output = 0, bu_Total = 0, bu_CacheRead = 0, bu_CacheWrite = 0\<rparr>"

definition dec_bedrock_usage :: "bedrock_usage decoder" where
  "dec_bedrock_usage = dec_record
     [(''inputtokens'', into bu_Input (\<lambda>v r. r\<lparr>bu_Input := v\<rparr>) dec_gint),
      (''outputtokens'', into bu_Output (\<lambda>v r. r\<lparr>bu_Output := v\<rparr>) dec_gint),
      (''totaltokens'', into bu_Total (\<lambda>v r. r\<lparr>bu_Total := v\<rparr>) dec_gint),
      (''cachereadinputtokens'', into bu_CacheRead (\<lambda>v r. r\<lparr>bu_CacheRead := v\<rparr>) dec_gint),
      (''cachewriteinputtokens'', into bu_CacheWrite (\<lambda>v r. r\<lparr>bu_CacheWrite := v\<rparr>) dec_gint)]"

record bedrock_delta =
  bd_Index :: int
  bd_DeltaText :: string
  bd_DeltaToolUse :: "string option"
  bd_Text :: string
  bd_ToolUse :: "string option"

definition zero_bedrock_delta :: bedrock_delta where
  "zero_bedrock_delta = \<lparr>bd_Index = 0, bd_DeltaText = [], bd_DeltaToolUse = None, bd_Text = [],
     bd_ToolUse = None\<rparr>"

text \<open>A \<open>bedrockToolUseDelta\<close> has one field, so it is that field.\<close>

definition dec_tool_input :: "string decoder" where
  "dec_tool_input = dec_record [(''input'', dec_str)]"

definition dec_bedrock_delta :: "bedrock_delta decoder" where
  "dec_bedrock_delta = dec_record
     [(''contentblockindex'', into bd_Index (\<lambda>v r. r\<lparr>bd_Index := v\<rparr>) dec_gint),
      (''delta'', dec_record
         [(''text'', into bd_DeltaText (\<lambda>v r. r\<lparr>bd_DeltaText := v\<rparr>) dec_str),
          (''tooluse'', into bd_DeltaToolUse (\<lambda>v r. r\<lparr>bd_DeltaToolUse := v\<rparr>) (dec_ptr [] dec_tool_input))]),
      (''text'', into bd_Text (\<lambda>v r. r\<lparr>bd_Text := v\<rparr>) dec_str),
      (''tooluse'', into bd_ToolUse (\<lambda>v r. r\<lparr>bd_ToolUse := v\<rparr>) (dec_ptr [] dec_tool_input))]"

definition bedrock_text :: "bedrock_delta \<Rightarrow> string" where
  "bedrock_text d = (if bd_DeltaText d \<noteq> [] then bd_DeltaText d else bd_Text d)"

definition bedrock_toolInput :: "bedrock_delta \<Rightarrow> string option" where
  "bedrock_toolInput d = (if bd_DeltaToolUse d \<noteq> None then bd_DeltaToolUse d else bd_ToolUse d)"

record bedrock_start =
  bs_Index :: int
  bs_StartToolUse :: "(string \<times> string) option"
  bs_ToolUse :: "(string \<times> string) option"

definition zero_bedrock_start :: bedrock_start where
  "zero_bedrock_start = \<lparr>bs_Index = 0, bs_StartToolUse = None, bs_ToolUse = None\<rparr>"

definition dec_tool_start :: "(string \<times> string) decoder" where
  "dec_tool_start = dec_record
     [(''tooluseid'', into fst (\<lambda>v r. (v, snd r)) dec_str), (''name'', into snd (\<lambda>v r. (fst r, v)) dec_str)]"

definition dec_bedrock_start :: "bedrock_start decoder" where
  "dec_bedrock_start = dec_record
     [(''contentblockindex'', into bs_Index (\<lambda>v r. r\<lparr>bs_Index := v\<rparr>) dec_gint),
      (''start'', dec_record
         [(''tooluse'', into bs_StartToolUse (\<lambda>v r. r\<lparr>bs_StartToolUse := v\<rparr>) (dec_ptr ([], []) dec_tool_start))]),
      (''tooluse'', into bs_ToolUse (\<lambda>v r. r\<lparr>bs_ToolUse := v\<rparr>) (dec_ptr ([], []) dec_tool_start))]"

definition bedrock_toolStart :: "bedrock_start \<Rightarrow> (string \<times> string) option" where
  "bedrock_toolStart s = (if bs_StartToolUse s \<noteq> None then bs_StartToolUse s else bs_ToolUse s)"

definition dec_message_stop :: "string decoder" where
  "dec_message_stop = dec_record [(''stopreason'', dec_str)]"

definition dec_metadata :: "bedrock_usage option decoder" where
  "dec_metadata = dec_record [(''usage'', dec_ptr zero_bedrock_usage dec_bedrock_usage)]"

definition dec_exception :: "string decoder" where
  "dec_exception = dec_record [(''message'', dec_str)]"

text \<open>The outer-wrapped events; members that only have to be present keep no content.\<close>

record bedrock_wrapped =
  bw_MessageStart :: "string option"
  bw_Delta :: "string option"
  bw_ContentBlockStop :: "int option"
  bw_MessageStop :: "string option"
  bw_Metadata :: "bedrock_usage option option"

definition zero_wrapped :: bedrock_wrapped where
  "zero_wrapped = \<lparr>bw_MessageStart = None, bw_Delta = None, bw_ContentBlockStop = None,
     bw_MessageStop = None, bw_Metadata = None\<rparr>"

definition dec_wrapped :: "bedrock_wrapped decoder" where
  "dec_wrapped = dec_record
     [(''messagestart'', into bw_MessageStart (\<lambda>v r. r\<lparr>bw_MessageStart := v\<rparr>)
         (dec_ptr [] (dec_record [(''role'', dec_str)]))),
      (''contentblockdelta'', into bw_Delta (\<lambda>v r. r\<lparr>bw_Delta := v\<rparr>)
         (dec_ptr [] (dec_record [(''delta'', dec_record [(''text'', dec_str)])]))),
      (''contentblockstop'', into bw_ContentBlockStop (\<lambda>v r. r\<lparr>bw_ContentBlockStop := v\<rparr>)
         (dec_ptr 0 (dec_record [(''contentblockindex'', dec_gint)]))),
      (''messagestop'', into bw_MessageStop (\<lambda>v r. r\<lparr>bw_MessageStop := v\<rparr>) (dec_ptr [] dec_message_stop)),
      (''metadata'', into bw_Metadata (\<lambda>v r. r\<lparr>bw_Metadata := v\<rparr>) (dec_ptr None dec_metadata))]"

section \<open>ParseStreamChunk\<close>

type_synonym parsed = "(stream_chunk \<times> bool) option"

definition meaningful_chunk :: "stream_chunk \<Rightarrow> bool" where
  "meaningful_chunk c \<longleftrightarrow> sc_Delta c \<noteq> [] \<or> sc_StopReason c \<noteq> StopUnknown \<or> sc_Usage c \<noteq> None"

definition openai_choice_chunk :: "openai_choice \<Rightarrow> stream_chunk \<Rightarrow> stream_chunk" where
  "openai_choice_chunk c out =
     out\<lparr>sc_Delta := oc_Content c,
         sc_ToolCallDelta := (case oc_ToolCalls c of [] \<Rightarrow> None | tc # _ \<Rightarrow> Some tc),
         sc_StopReason := (case oc_Finish c of
            Some f \<Rightarrow> if f \<noteq> [] then openAIFinishToStop f else StopUnknown
          | None \<Rightarrow> StopUnknown)\<rparr>"

definition openai_chunk_of :: "openai_chunk \<Rightarrow> stream_chunk" where
  "openai_chunk_of chunk =
     (let u = usageFromOpenAI (ok_Usage chunk);
          out = empty_chunk\<lparr>sc_Model := ok_Model chunk, sc_Usage := (if us_HasUpstream u then Some u else None)\<rparr>
      in case ok_Choices chunk of [] \<Rightarrow> out | c # _ \<Rightarrow> openai_choice_chunk c out)"

definition openai_ParseStreamChunk :: "string \<Rightarrow> string \<Rightarrow> parsed" where
  "openai_ParseStreamChunk eventType payload =
     (let trimmed = trim_space payload in
      if trimmed = [] then Some (empty_chunk, False)
      else if trimmed = ''[DONE]'' then Some (empty_chunk\<lparr>sc_Done := True\<rparr>, True)
      else case unmarshal dec_openai_chunk zero_openai_chunk trimmed of
        None \<Rightarrow> None
      | Some chunk \<Rightarrow>
          let out = openai_chunk_of chunk in
          Some (out, meaningful_chunk out \<or> sc_ToolCallDelta out \<noteq> None))"

definition anthropicStreamErrorStatus :: "anthropic_error option \<Rightarrow> int" where
  "anthropicStreamErrorStatus e =
     (case e of
        None \<Rightarrow> 502
      | Some e \<Rightarrow>
          if aerr_Type e = ''invalid_request_error'' then 400
          else if aerr_Type e = ''authentication_error'' then 401
          else if aerr_Type e = ''permission_error'' then 403
          else if aerr_Type e = ''not_found_error'' then 404
          else if aerr_Type e = ''rate_limit_error'' then 429
          else if aerr_Type e = ''overloaded_error'' then 503
          else if aerr_Type e = ''api_error'' then 502
          else 502)"

definition part_usage :: "int \<Rightarrow> int \<Rightarrow> int \<Rightarrow> int \<Rightarrow> usage" where
  "part_usage p c cr cw = \<lparr>us_Prompt = p, us_Completion = c, us_Total = 0, us_CacheRead = cr,
     us_CacheWrite = cw, us_HasUpstream = True, us_Estimated = False\<rparr>"

definition error_message :: "anthropic_error option \<Rightarrow> string" where
  "error_message e = (case e of
     Some x \<Rightarrow> if aerr_Message x \<noteq> [] then aerr_Message x else ''anthropic upstream stream error''
   | None \<Rightarrow> ''anthropic upstream stream error'')"

definition anthropic_event_chunk :: "anthropic_event \<Rightarrow> stream_chunk \<times> bool" where
  "anthropic_event_chunk ev =
     (if ae_Type ev = ''message_start'' then
        (let out = (case ae_Message ev of
             None \<Rightarrow> empty_chunk
           | Some m \<Rightarrow> empty_chunk\<lparr>sc_Model := as_Model m,
               sc_Usage := map_option (\<lambda>u. part_usage (au_Input u) 0 (au_CacheRead u) (au_CacheCreation u)) (as_Usage m)\<rparr>)
         in (out, sc_Usage out \<noteq> None))
      else if ae_Type ev = ''content_block_start'' then
        (case ae_ContentBlock ev of
           Some b \<Rightarrow>
             if ab_Type b = ''tool_use'' then
               (empty_chunk\<lparr>sc_ToolCallDelta := Some
                  \<lparr>tc_Index = ae_Index ev, tc_ID = ab_ID b, tc_Name = ab_Name b, tc_Args = []\<rparr>\<rparr>, True)
             else (empty_chunk, False)
         | None \<Rightarrow> (empty_chunk, False))
      else if ae_Type ev = ''content_block_delta'' then
        (case ae_Delta ev of
           Some d \<Rightarrow>
             if ad_Type d = ''text_delta'' \<and> ad_Text d \<noteq> [] then (empty_chunk\<lparr>sc_Delta := ad_Text d\<rparr>, True)
             else if ad_Type d = ''input_json_delta'' \<and> ad_PartialJSON d \<noteq> [] then
               (empty_chunk\<lparr>sc_ToolCallDelta := Some
                  \<lparr>tc_Index = ae_Index ev, tc_ID = [], tc_Name = [], tc_Args = ad_PartialJSON d\<rparr>\<rparr>, True)
             else (empty_chunk, False)
         | None \<Rightarrow> (empty_chunk, False))
      else if ae_Type ev = ''message_delta'' then
        (let out = empty_chunk\<lparr>
             sc_StopReason := (case ae_Delta ev of
                Some d \<Rightarrow> if ad_StopReason d \<noteq> [] then anthropicStopToUnified (ad_StopReason d) else StopUnknown
              | None \<Rightarrow> StopUnknown),
             sc_Usage := map_option (\<lambda>u. part_usage 0 (au_Output u) 0 0) (ae_Usage ev)\<rparr>
         in (out, sc_StopReason out \<noteq> StopUnknown \<or> sc_Usage out \<noteq> None))
      else if ae_Type ev = ''message_stop'' then (empty_chunk\<lparr>sc_Done := True\<rparr>, True)
      else if ae_Type ev = ''error'' then
        (empty_chunk\<lparr>sc_UpstreamErr := Some
           \<lparr>ue_Provider = ''anthropic'', ue_StatusCode = anthropicStreamErrorStatus (ae_Error ev),
            ue_Message = error_message (ae_Error ev), ue_Body = []\<rparr>\<rparr>, True)
      else (empty_chunk, False))"

definition anthropic_ParseStreamChunk :: "string \<Rightarrow> string \<Rightarrow> parsed" where
  "anthropic_ParseStreamChunk eventType payload =
     (let trimmed = trim_space payload in
      if trimmed = [] then Some (empty_chunk, False)
      else map_option anthropic_event_chunk (unmarshal dec_anthropic_event zero_anthropic_event trimmed))"

definition isBedrockExceptionEvent :: "string \<Rightarrow> bool" where
  "isBedrockExceptionEvent eventType \<longleftrightarrow> suffix ''Exception'' eventType"

definition bedrockExceptionStatus :: "string \<Rightarrow> int" where
  "bedrockExceptionStatus eventType =
     (if eventType = ''throttlingException'' then 429
      else if eventType = ''modelStreamErrorException'' \<or> eventType = ''serviceUnavailableException''
          \<or> eventType = ''modelTimeoutException'' then 503
      else if eventType = ''validationException'' then 400
      else if eventType = ''internalServerException'' then 500
      else 500)"

definition bedrock_result :: "stream_chunk \<Rightarrow> stream_chunk \<times> bool" where
  "bedrock_result out = (out, meaningful_chunk out \<or> sc_Done out)"

definition metadata_usage :: "bedrock_usage option \<Rightarrow> usage option" where
  "metadata_usage u = (case u of
     Some x \<Rightarrow> let v = usageFromBedrock (Some x) in if us_HasUpstream v then Some v else None
   | None \<Rightarrow> None)"

definition parseWrappedStreamEvent :: "string \<Rightarrow> parsed" where
  "parseWrappedStreamEvent trimmed =
     map_option (\<lambda>ev.
       case bw_Delta ev of
         Some t \<Rightarrow> bedrock_result (empty_chunk\<lparr>sc_Delta := t\<rparr>)
       | None \<Rightarrow>
           (case bw_MessageStop ev of
              Some st \<Rightarrow> bedrock_result (empty_chunk\<lparr>sc_StopReason := bedrockStopToUnified st, sc_Done := True\<rparr>)
            | None \<Rightarrow>
                (case bw_Metadata ev of
                   Some (Some u) \<Rightarrow>
                     bedrock_result (empty_chunk\<lparr>sc_Usage := metadata_usage (Some u), sc_Done := True\<rparr>)
                 | _ \<Rightarrow> (empty_chunk, False))))
       (unmarshal dec_wrapped zero_wrapped trimmed)"

definition bedrock_ParseStreamChunk :: "string \<Rightarrow> string \<Rightarrow> parsed" where
  "bedrock_ParseStreamChunk eventType payload =
     (let trimmed = trim_space payload in
      if trimmed = [] then Some (empty_chunk, False)
      else if eventType = [] then parseWrappedStreamEvent trimmed
      else if isBedrockExceptionEvent eventType then
        (let msg = unmarshal_lenient dec_exception [] trimmed in
         Some (empty_chunk\<lparr>sc_Done := True, sc_UpstreamErr := Some
           \<lparr>ue_Provider = ''bedrock'', ue_StatusCode = bedrockExceptionStatus eventType,
            ue_Message = (if msg = [] then eventType else msg), ue_Body = []\<rparr>\<rparr>, True))
      else if eventType = ''contentBlockStart'' then
        (case unmarshal dec_bedrock_start zero_bedrock_start trimmed of
           None \<Rightarrow> Some (empty_chunk, False)
         | Some ev \<Rightarrow>
             (case bedrock_toolStart ev of
                Some (i, n) \<Rightarrow>
                  Some (empty_chunk\<lparr>sc_ToolCallDelta := Some
                    \<lparr>tc_Index = bs_Index ev, tc_ID = i, tc_Name = n, tc_Args = []\<rparr>\<rparr>, True)
              | None \<Rightarrow> Some (empty_chunk, False)))
      else if eventType = ''contentBlockDelta'' then
        map_option (\<lambda>ev.
          case bedrock_toolInput ev of
            Some frag \<Rightarrow>
              (empty_chunk\<lparr>sc_ToolCallDelta := Some
                 \<lparr>tc_Index = bd_Index ev, tc_ID = [], tc_Name = [], tc_Args = frag\<rparr>\<rparr>, True)
          | None \<Rightarrow> bedrock_result (empty_chunk\<lparr>sc_Delta := bedrock_text ev\<rparr>))
          (unmarshal dec_bedrock_delta zero_bedrock_delta trimmed)
      else if eventType = ''messageStop'' then
        map_option (\<lambda>st. bedrock_result (empty_chunk\<lparr>sc_StopReason := bedrockStopToUnified st, sc_Done := True\<rparr>))
          (unmarshal dec_message_stop [] trimmed)
      else if eventType = ''metadata'' then
        map_option (\<lambda>u. bedrock_result (empty_chunk\<lparr>sc_Usage := metadata_usage u, sc_Done := True\<rparr>))
          (unmarshal dec_metadata None trimmed)
      else Some (empty_chunk, False))"

text \<open>The three adapters, by name.\<close>

definition ParseStreamChunk :: "string \<Rightarrow> string \<Rightarrow> string \<Rightarrow> parsed" where
  "ParseStreamChunk adapter =
     (if adapter = ''openai'' then openai_ParseStreamChunk
      else if adapter = ''anthropic'' then anthropic_ParseStreamChunk
      else bedrock_ParseStreamChunk)"

section \<open>Rendering chunks\<close>

text \<open>Objects list their members in the sorted order in which a Go map is marshalled.\<close>

definition positive_member :: "string \<Rightarrow> int \<Rightarrow> (string \<times> json) list" where
  "positive_member k n = (if n > 0 then [(k, JInt n)] else [])"

definition addCacheUsageAnthropic :: "usage \<Rightarrow> (string \<times> json) list" where
  "addCacheUsageAnthropic u =
     positive_member ''cache_creation_input_tokens'' (us_CacheWrite u)
     @ positive_member ''cache_read_input_tokens'' (us_CacheRead u)"

definition addCacheUsageOpenAI :: "usage \<Rightarrow> (string \<times> json) list" where
  "addCacheUsageOpenAI u =
     (let details = positive_member ''cache_creation_tokens'' (us_CacheWrite u)
                    @ positive_member ''cached_tokens'' (us_CacheRead u)
      in if details \<noteq> [] then [(''prompt_tokens_details'', JObj details)] else [])"

definition addCacheUsageBedrock :: "usage \<Rightarrow> (string \<times> json) list" where
  "addCacheUsageBedrock u =
     positive_member ''cacheReadInputTokens'' (us_CacheRead u)
     @ positive_member ''cacheWriteInputTokens'' (us_CacheWrite u)"

definition AnthropicStreamDeltaUsage :: "usage \<Rightarrow> json" where
  "AnthropicStreamDeltaUsage u = JObj
     (addCacheUsageAnthropic u @ positive_member ''input_tokens'' (us_Prompt u)
      @ [(''output_tokens'', JInt (us_Completion u))])"

definition openai_usage_obj :: "usage \<Rightarrow> json" where
  "openai_usage_obj u = JObj
     ([(''completion_tokens'', JInt (us_Completion u)), (''prompt_tokens'', JInt (us_Prompt u))]
      @ addCacheUsageOpenAI u @ [(''total_tokens'', JInt (us_Total u))])"

definition usage_member :: "usage option \<Rightarrow> (string \<times> json) list" where
  "usage_member u = (case u of None \<Rightarrow> [] | Some u \<Rightarrow> [(''usage'', openai_usage_obj u)])"

definition tool_call_obj :: "tool_call_delta \<Rightarrow> json" where
  "tool_call_obj tc = JObj
     ([(''function'', JObj ([(''arguments'', JStr (tc_Args tc))]
          @ (if tc_Name tc \<noteq> [] then [(''name'', JStr (tc_Name tc))] else [])))]
      @ (if tc_ID tc \<noteq> [] then [(''id'', JStr (tc_ID tc))] else [])
      @ [(''index'', JInt (tc_Index tc)), (''type'', JStr ''function'')])"

definition openai_delta_obj :: "stream_chunk \<Rightarrow> json" where
  "openai_delta_obj c = JObj
     ((if sc_Delta c \<noteq> [] then [(''content'', JStr (sc_Delta c))] else [])
      @ (case sc_ToolCallDelta c of None \<Rightarrow> [] | Some tc \<Rightarrow> [(''tool_calls'', JArr [tool_call_obj tc])]))"

definition openai_chunk_obj :: "string \<Rightarrow> json list \<Rightarrow> usage option \<Rightarrow> json" where
  "openai_chunk_obj model choices u = JObj
     ([(''choices'', JArr choices), (''model'', JStr model), (''object'', JStr ''chat.completion.chunk'')]
      @ usage_member u)"

definition BuildOpenAIStreamChunk :: "string \<Rightarrow> stream_chunk \<Rightarrow> json option" where
  "BuildOpenAIStreamChunk model c =
     (if sc_Done c \<and> sc_Delta c = [] \<and> sc_StopReason c = StopUnknown \<and> sc_Usage c = None
         \<and> sc_ToolCallDelta c = None then None
      else if \<not> (sc_Delta c \<noteq> [] \<or> sc_ToolCallDelta c \<noteq> None \<or> sc_StopReason c \<noteq> StopUnknown)
      then Some (openai_chunk_obj model [] (sc_Usage c))
      else Some (openai_chunk_obj model
        [JObj [(''delta'', openai_delta_obj c),
               (''finish_reason'', if sc_StopReason c \<noteq> StopUnknown
                  then JStr (stopToOpenAIFinish (sc_StopReason c)) else JNull),
               (''index'', JInt 0)]] (sc_Usage c)))"

definition BuildAnthropicStreamEvent :: "stream_chunk \<Rightarrow> (string \<times> json) option" where
  "BuildAnthropicStreamEvent c =
     (if sc_Delta c \<noteq> [] then
        Some (''content_block_delta'', JObj
          [(''delta'', JObj [(''text'', JStr (sc_Delta c)), (''type'', JStr ''text_delta'')]),
           (''index'', JInt 0), (''type'', JStr ''content_block_delta'')])
      else if sc_StopReason c \<noteq> StopUnknown \<or> sc_Usage c \<noteq> None then
        Some (''message_delta'', JObj
          ([(''delta'', JObj [(''stop_reason'', JStr (stopToAnthropic (sc_StopReason c)))]),
            (''type'', JStr ''message_delta'')]
           @ (case sc_Usage c of None \<Rightarrow> []
              | Some u \<Rightarrow> [(''usage'', JObj [(''output_tokens'', JInt (us_Completion u))])])))
      else None)"

definition BedrockMessageStartPayload :: json where
  "BedrockMessageStartPayload = JObj [(''role'', JStr ''assistant'')]"

definition BedrockContentBlockStartPayload :: json where
  "BedrockContentBlockStartPayload = JObj [(''contentBlockIndex'', JInt 0), (''start'', JObj [])]"

definition BuildBedrockStreamEvent :: "stream_chunk \<Rightarrow> (string \<times> json) option" where
  "BuildBedrockStreamEvent c =
     (if sc_Delta c \<noteq> [] then
        Some (''contentBlockDelta'', JObj
          [(''contentBlockIndex'', JInt 0), (''delta'', JObj [(''text'', JStr (sc_Delta c))])])
      else None)"

definition BedrockContentBlockStopPayload :: json where
  "BedrockContentBlockStopPayload = JObj [(''contentBlockIndex'', JInt 0)]"

definition BedrockMessageStopPayload :: "stop_reason \<Rightarrow> json" where
  "BedrockMessageStopPayload stop = JObj [(''stopReason'', JStr (stopToBedrock stop))]"

definition BedrockMetadataPayload :: "usage \<Rightarrow> json" where
  "BedrockMetadataPayload u = JObj [(''usage'', JObj
     (addCacheUsageBedrock u
      @ [(''inputTokens'', JInt (us_Prompt u)), (''outputTokens'', JInt (us_Completion u)),
         (''totalTokens'', JInt (us_Total u))]))]"

end
