(* ===== verification/Responses.thy ===== *)
theory Responses
  imports Chunks Format
begin

text \<open>
  Non-streamed responses: the adapters' \<open>ParseResponse\<close>, from the upstream's status and body
  to the unified response, and the rendering of a unified response in the three output
  dialects (\<open>adapter/transform.go\<close>, \<open>buildResponse\<close> of \<open>relay/relay.go\<close>).  The text of an
  \<open>encoding/json\<close> error message is the parameter \<open>jerr\<close>, a function of the input.
\<close>

section \<open>The upstream's response\<close>

record http_response =
  hr_StatusCode :: int
  hr_Status :: string
  hr_Body :: string

text \<open>\<open>io.ReadAll(io.LimitReader(b, n))\<close> with its error ignored.\<close>

definition read_limited :: "int \<Rightarrow> string \<Rightarrow> string" where
  "read_limited n s = (if int (length s) \<le> n then s else take (nat n) s)"

definition maxResponseBody :: int where "maxResponseBody = 8388608"

definition ok_status :: "int \<Rightarrow> bool" where
  "ok_status code \<longleftrightarrow> \<not> (code < 200 \<or> code \<ge> 300)"

definition upstream_failure :: "string \<Rightarrow> int \<Rightarrow> string \<Rightarrow> string \<Rightarrow> upstream_error" where
  "upstream_failure provider code message raw =
     \<lparr>ue_Provider = provider, ue_StatusCode = code, ue_Message = message, ue_Body = snippet raw\<rparr>"

text \<open>\<open>openAIErrorMessage\<close> and \<open>anthropicErrorMessage\<close>: the message of the error member.\<close>

definition openAIErrorMessage :: "string \<Rightarrow> string \<Rightarrow> string" where
  "openAIErrorMessage raw status =
     (case unmarshal (dec_record [(''error'', dec_record [(''message'', dec_str)])]) [] raw of
        Some m \<Rightarrow> if m \<noteq> [] then m else status
      | None \<Rightarrow> status)"

definition anthropicErrorMessage :: "string \<Rightarrow> string \<Rightarrow> string" where
  "anthropicErrorMessage raw status = openAIErrorMessage raw status"

definition bedrockErrorMessage :: "string \<Rightarrow> string \<Rightarrow> string" where
  "bedrockErrorMessage raw status =
     (case unmarshal (dec_record [(''message'', dec_str)]) [] raw of
        Some m \<Rightarrow> if m \<noteq> [] then m else status
      | None \<Rightarrow> status)"

section \<open>Tool arguments\<close>

definition openAIArgsToInput :: "string \<Rightarrow> string" where
  "openAIArgsToInput args =
     (let s = trim_space args in
      if s = [] \<or> s = ''null'' \<or> s = [CHR 0x22, CHR 0x22] then ''{}''
      else
        (case unmarshal dec_str [] args of
           Some inner \<Rightarrow> if trim_space inner = [] then ''{}'' else inner
         | None \<Rightarrow> args))"

definition inputToOpenAIArgs :: "string \<Rightarrow> string" where
  "inputToOpenAIArgs input = (let s = trim_space input in if s = [] then ''{}'' else s)"

section \<open>OpenAI\<close>

record openai_tool_call =
  otc_ID :: string
  otc_Type :: string
  otc_Name :: string
  otc_Arguments :: string

record openai_message =
  om_Role :: string
  om_Content :: string
  om_ToolCalls :: "openai_tool_call list"

record openai_resp_choice =
  orc_Message :: openai_message
  orc_FinishReason :: string

record openai_response =
  or_Model :: string
  or_Choices :: "openai_resp_choice list"
  or_Usage :: "openai_usage option"
  or_Error :: "anthropic_error option"

definition zero_openai_tool_call :: openai_tool_call where
  "zero_openai_tool_call = \<lparr>otc_ID = [], otc_Type = [], otc_Name = [], otc_Arguments = []\<rparr>"

definition dec_openai_tool_call :: "openai_tool_call decoder" where
  "dec_openai_tool_call = dec_record
     [(''id'', into otc_ID (\<lambda>v r. r\<lparr>otc_ID := v\<rparr>) dec_str),
      (''type'', into otc_Type (\<lambda>v r. r\<lparr>otc_Type := v\<rparr>) dec_str),
      (''function'', dec_record
         [(''name'', into otc_Name (\<lambda>v r. r\<lparr>otc_Name := v\<rparr>) dec_str),
          (''arguments'', into otc_Arguments (\<lambda>v r. r\<lparr>otc_Arguments := v\<rparr>) dec_raw)])]"

definition zero_openai_message :: openai_message where
  "zero_openai_message = \<lparr>om_Role = [], om_Content = [], om_ToolCalls = []\<rparr>"

definition dec_openai_message :: "openai_message decoder" where
  "dec_openai_message = dec_record
     [(''role'', into om_Role (\<lambda>v r. r\<lparr>om_Role := v\<rparr>) dec_str),
      (''content'', into om_Content (\<lambda>v r. r\<lparr>om_Content := v\<rparr>) dec_str),
      (''tool_calls'', into om_ToolCalls (\<lambda>v r. r\<lparr>om_ToolCalls := v\<rparr>)
         (dec_list zero_openai_tool_call dec_openai_tool_call))]"

definition zero_openai_response :: openai_response where
  "zero_openai_response = \<lparr>or_Model = [], or_Choices = [], or_Usage = None, or_Error = None\<rparr>"

definition dec_openai_response :: "openai_response decoder" where
  "dec_openai_response = dec_record
     [(''model'', into or_Model (\<lambda>v r. r\<lparr>or_Model := v\<rparr>) dec_str),
      (''choices'', into or_Choices (\<lambda>v r. r\<lparr>or_Choices := v\<rparr>)
         (dec_list \<lparr>orc_Message = zero_openai_message, orc_FinishReason = []\<rparr> (dec_record
           [(''message'', into orc_Message (\<lambda>v r. r\<lparr>orc_Message := v\<rparr>) dec_openai_message),
            (''finish_reason'', into orc_FinishReason (\<lambda>v r. r\<lparr>orc_FinishReason := v\<rparr>) dec_str)]))),
      (''usage'', into or_Usage (\<lambda>v r. r\<lparr>or_Usage := v\<rparr>) (dec_ptr zero_openai_usage dec_openai_usage)),
      (''error'', into or_Error (\<lambda>v r. r\<lparr>or_Error := v\<rparr>) (dec_ptr zero_error dec_anthropic_error))]"

definition openai_content :: "openai_message \<Rightarrow> content_block list" where
  "openai_content msg =
     (let out = (if om_Content msg \<noteq> [] then [TextBlock (om_Content msg)] else [])
            @ map (\<lambda>tc. ToolUseBlockOf (otc_ID tc) (otc_Name tc) (openAIArgsToInput (otc_Arguments tc)))
                (om_ToolCalls msg)
      in if out = [] then [TextBlock []] else out)"

definition with_usage :: "usage \<Rightarrow> unified_response \<Rightarrow> unified_response \<times> usage" where
  "with_usage reported out =
     (let u = (if us_HasUpstream reported then reported else estimateUsageFromText [] (response_Text out))
      in (out\<lparr>resp_Usage := u\<rparr>, u))"

definition openai_ParseResponse ::
    "(string \<Rightarrow> string) \<Rightarrow> http_response \<Rightarrow> upstream_error + unified_response \<times> usage" where
  "openai_ParseResponse jerr resp =
     (let raw = read_limited maxResponseBody (hr_Body resp) in
      if \<not> ok_status (hr_StatusCode resp) then
        Inl (upstream_failure ''openai'' (hr_StatusCode resp) (openAIErrorMessage raw (hr_Status resp)) raw)
      else
        (case unmarshal dec_openai_response zero_openai_response raw of
           None \<Rightarrow> Inl (upstream_failure ''openai'' 0 (''decode response: '' @ jerr raw) raw)
         | Some parsed \<Rightarrow>
             (case or_Error parsed of
                Some e \<Rightarrow> Inl (upstream_failure ''openai'' (hr_StatusCode resp) (aerr_Message e) raw)
              | None \<Rightarrow>
                  (let (content, stop) = (case or_Choices parsed of
                         [] \<Rightarrow> ([], StopUnknown)
                       | c # _ \<Rightarrow> (openai_content (orc_Message c), openAIFinishToStop (orc_FinishReason c)))
                   in Inr (with_usage (usageFromOpenAI (or_Usage parsed))
                        \<lparr>resp_Model = or_Model parsed, resp_Content = content, resp_StopReason = stop,
                         resp_Usage = empty_usage\<rparr>)))))"

section \<open>Anthropic\<close>

record anthropic_resp_block =
  arb_Type :: string
  arb_Text :: string
  arb_ID :: string
  arb_Name :: string
  arb_Input :: string

record anthropic_response =
  ar_Type :: string
  ar_Model :: string
  ar_Content :: "anthropic_resp_block list"
  ar_StopReason :: string
  ar_Usage :: "anthropic_usage option"
  ar_Error :: "anthropic_error option"

definition zero_anthropic_resp_block :: anthropic_resp_block where
  "zero_anthropic_resp_block = \<lparr>arb_Type = [], arb_Text = [], arb_ID = [], arb_Name = [], arb_Input = []\<rparr>"

definition dec_anthropic_resp_block :: "anthropic_resp_block decoder" where
  "dec_anthropic_resp_block = dec_record
     [(''type'', into arb_Type (\<lambda>v r. r\<lparr>arb_Type := v\<rparr>) dec_str),
      (''text'', into arb_Text (\<lambda>v r. r\<lparr>arb_Text := v\<rparr>) dec_str),
      (''id'', into arb_ID (\<lambda>v r. r\<lparr>arb_ID := v\<rparr>) dec_str),
      (''name'', into arb_Name (\<lambda>v r. r\<lparr>arb_Name := v\<rparr>) dec_str),
      (''input'', into arb_Input (\<lambda>v r. r\<lparr>arb_Input := v\<rparr>) dec_raw)]"

definition zero_anthropic_response :: anthropic_response where
  "zero_anthropic_response = \<lparr>ar_Type = [], ar_Model = [], ar_Content = [], ar_StopReason = [],
     ar_Usage = None, ar_Error = None\<rparr>"

definition dec_anthropic_response :: "anthropic_response decoder" where
  "dec_anthropic_response = dec_record
     [(''type'', into ar_Type (\<lambda>v r. r\<lparr>ar_Type := v\<rparr>) dec_str),
      (''model'', into ar_Model (\<lambda>v r. r\<lparr>ar_Model := v\<rparr>) dec_str),
      (''content'', into ar_Content (\<lambda>v r. r\<lparr>ar_Content := v\<rparr>)
         (dec_list zero_anthropic_resp_block dec_anthropic_resp_block)),
      (''stop_reason'', into ar_StopReason (\<lambda>v r. r\<lparr>ar_StopReason := v\<rparr>) dec_str),
      (''usage'', into ar_Usage (\<lambda>v r. r\<lparr>ar_Usage := v\<rparr>) (dec_ptr zero_anthropic_usage dec_anthropic_usage)),
      (''error'', into ar_Error (\<lambda>v r. r\<lparr>ar_Error := v\<rparr>) (dec_ptr zero_error dec_anthropic_error))]"

definition anthropic_block_of :: "anthropic_resp_block \<Rightarrow> content_block list" where
  "anthropic_block_of c =
     (if arb_Type c = ''text'' then (if arb_Text c \<noteq> [] then [TextBlock (arb_Text c)] else [])
      else if arb_Type c = ''tool_use'' then [ToolUseBlockOf (arb_ID c) (arb_Name c) (arb_Input c)]
      else [])"

definition anthropic_ParseResponse ::
    "(string \<Rightarrow> string) \<Rightarrow> http_response \<Rightarrow> upstream_error + unified_response \<times> usage" where
  "anthropic_ParseResponse jerr resp =
     (let raw = read_limited maxResponseBody (hr_Body resp) in
      if \<not> ok_status (hr_StatusCode resp) then
        Inl (upstream_failure ''anthropic'' (hr_StatusCode resp) (anthropicErrorMessage raw (hr_Status resp)) raw)
      else
        (case unmarshal dec_anthropic_response zero_anthropic_response raw of
           None \<Rightarrow> Inl (upstream_failure ''anthropic'' 0 (''decode response: '' @ jerr raw) raw)
         | Some parsed \<Rightarrow>
             (case ar_Error parsed of
                Some e \<Rightarrow> Inl (upstream_failure ''anthropic'' (hr_StatusCode resp) (aerr_Message e) raw)
              | None \<Rightarrow> Inr (with_usage (usageFromAnthropic (ar_Usage parsed))
                  \<lparr>resp_Model = ar_Model parsed,
                   resp_Content = concat (map anthropic_block_of (ar_Content parsed)),
                   resp_StopReason = anthropicStopToUnified (ar_StopReason parsed),
                   resp_Usage = empty_usage\<rparr>))))"

section \<open>Bedrock\<close>

text \<open>
  Members that are decoded but never read (images, tool results and cache points in a
  response) only have to fit: \<open>fits\<close> checks them against their type.
\<close>

definition fits :: "'a \<Rightarrow> 'a decoder \<Rightarrow> 'r decoder" where
  "fits zero d j r = (r, snd (d j zero))"

text \<open>A \<open>map[string]any\<close>.\<close>

definition dec_any_map :: "unit decoder" where
  "dec_any_map j u = (u, is_null j \<or> (case j of DObj _ _ \<Rightarrow> True | _ \<Rightarrow> False))"

record bedrock_block =
  bb_Text :: string
  bb_ToolUse :: "tool_use_block option"

record bedrock_response =
  br_Content :: "bedrock_block list"
  br_StopReason :: string
  br_Usage :: "bedrock_usage option"

definition dec_bedrock_tool_use :: "tool_use_block decoder" where
  "dec_bedrock_tool_use = dec_record
     [(''tooluseid'', into tu_ID (\<lambda>v r. r\<lparr>tu_ID := v\<rparr>) dec_str),
      (''name'', into tu_Name (\<lambda>v r. r\<lparr>tu_Name := v\<rparr>) dec_str),
      (''input'', into tu_Input (\<lambda>v r. r\<lparr>tu_Input := v\<rparr>) dec_raw)]"

definition dec_bedrock_image :: "string decoder" where
  "dec_bedrock_image = dec_record
     [(''format'', dec_str), (''source'', dec_record [(''bytes'', dec_str)])]"

definition dec_bedrock_tool_result :: "string decoder" where
  "dec_bedrock_tool_result = dec_record
     [(''tooluseid'', dec_str), (''content'', fits [] (dec_list () dec_any_map)), (''status'', dec_str)]"

definition dec_bedrock_block :: "bedrock_block decoder" where
  "dec_bedrock_block = dec_record
     [(''text'', into bb_Text (\<lambda>v r. r\<lparr>bb_Text := v\<rparr>) dec_str),
      (''image'', fits None (dec_ptr [] dec_bedrock_image)),
      (''tooluse'', into bb_ToolUse (\<lambda>v r. r\<lparr>bb_ToolUse := v\<rparr>)
         (dec_ptr \<lparr>tu_ID = [], tu_Name = [], tu_Input = []\<rparr> dec_bedrock_tool_use)),
      (''toolresult'', fits None (dec_ptr [] dec_bedrock_tool_result)),
      (''cachepoint'', fits None (dec_ptr [] (dec_record [(''type'', dec_str)])))]"

definition dec_bedrock_response :: "bedrock_response decoder" where
  "dec_bedrock_response = dec_record
     [(''output'', dec_record
         [(''message'', dec_record
             [(''role'', fits [] dec_str),
              (''content'', into br_Content (\<lambda>v r. r\<lparr>br_Content := v\<rparr>)
                 (dec_list \<lparr>bb_Text = [], bb_ToolUse = None\<rparr> dec_bedrock_block))])]),
      (''stopreason'', into br_StopReason (\<lambda>v r. r\<lparr>br_StopReason := v\<rparr>) dec_str),
      (''usage'', into br_Usage (\<lambda>v r. r\<lparr>br_Usage := v\<rparr>) (dec_ptr zero_bedrock_usage dec_bedrock_usage)),
      (''message'', fits [] dec_str)]"

definition bedrockToUnifiedResponse :: "bedrock_response \<Rightarrow> unified_response" where
  "bedrockToUnifiedResponse r =
     \<lparr>resp_Model = [],
      resp_Content = concat (map (\<lambda>c. case bb_ToolUse c of
           Some tu \<Rightarrow> [ToolUseBlockOf (tu_ID tu) (tu_Name tu) (tu_Input tu)]
         | None \<Rightarrow> if bb_Text c \<noteq> [] then [TextBlock (bb_Text c)] else []) (br_Content r)),
      resp_StopReason = bedrockStopToUnified (br_StopReason r), resp_Usage = empty_usage\<rparr>"

definition bedrock_ParseResponse ::
    "(string \<Rightarrow> string) \<Rightarrow> http_response \<Rightarrow> upstream_error + unified_response \<times> usage" where
  "bedrock_ParseResponse jerr resp =
     (let raw = read_limited maxResponseBody (hr_Body resp) in
      if \<not> ok_status (hr_StatusCode resp) then
        Inl (upstream_failure ''bedrock'' (hr_StatusCode resp) (bedrockErrorMessage raw (hr_Status resp)) raw)
      else
        (case unmarshal dec_bedrock_response \<lparr>br_Content = [], br_StopReason = [], br_Usage = None\<rparr> raw of
           None \<Rightarrow> Inl (upstream_failure ''bedrock'' 0 (''decode response: '' @ jerr raw) raw)
         | Some parsed \<Rightarrow> Inr (with_usage (usageFromBedrock (br_Usage parsed)) (bedrockToUnifiedResponse parsed))))"

definition ParseResponse ::
    "string \<Rightarrow> (string \<Rightarrow> string) \<Rightarrow> http_response \<Rightarrow> upstream_error + unified_response \<times> usage" where
  "ParseResponse adapter =
     (if adapter = ''openai'' then openai_ParseResponse
      else if adapter = ''anthropic'' then anthropic_ParseResponse
      else bedrock_ParseResponse)"

section \<open>Rendering\<close>

text \<open>A Go map: assignment, with the members in the order they are marshalled.\<close>

fun put :: "string \<Rightarrow> json \<Rightarrow> (string \<times> json) list \<Rightarrow> (string \<times> json) list" where
  "put k v [] = [(k, v)]"
| "put k v ((k', v') # kvs) =
     (if k = k' then (k, v) # kvs
      else if str_less k k' then (k, v) # (k', v') # kvs
      else (k', v') # put k v kvs)"

definition BuildOpenAIResponse :: "unified_response \<Rightarrow> (string \<times> json) list" where
  "BuildOpenAIResponse r =
     (let toolCalls = map (\<lambda>c. let tu = the (cb_ToolUse c) in JObj
            [(''function'', JObj [(''arguments'', JStr (inputToOpenAIArgs (tu_Input tu))), (''name'', JStr (tu_Name tu))]),
             (''id'', JStr (tu_ID tu)), (''type'', JStr ''function'')])
            (filter IsToolUse (resp_Content r));
          message = [(''content'', JStr (response_Text r)), (''role'', JStr ''assistant'')];
          message = (if toolCalls \<noteq> [] then
              (let m = put ''tool_calls'' (JArr toolCalls) message in
               if response_Text r = [] then put ''content'' JNull m else m)
            else message)
      in [(''choices'', JArr [JObj
            [(''finish_reason'', JStr (stopToOpenAIFinish (resp_StopReason r))), (''index'', JInt 0),
             (''message'', JObj message)]]),
          (''model'', JStr (resp_Model r)), (''object'', JStr ''chat.completion''),
          (''usage'', openai_usage_obj (resp_Usage r))])"

definition buildAnthropicContentBlock :: "content_block \<Rightarrow> (string \<times> json) list option" where
  "buildAnthropicContentBlock c =
     (if IsToolUse c then
        (let tu = the (cb_ToolUse c);
             input = (if trim_space (tu_Input tu) = [] then ''{}'' else tu_Input tu) in
         Some [(''id'', JStr (tu_ID tu)), (''input'', JRaw input), (''name'', JStr (tu_Name tu)),
               (''type'', JStr ''tool_use'')])
      else if IsToolResult c then
        (let tr = the (cb_ToolResult c);
             b = [(''tool_use_id'', JStr (tr_ToolUseID tr)), (''type'', JStr ''tool_result'')];
             b = (if trim_space (tr_Content tr) \<noteq> [] then put ''content'' (JRaw (tr_Content tr)) b else b)
         in Some (if tr_IsError tr then put ''is_error'' (JBool True) b else b))
      else if IsImage c then
        (let im = the (cb_Image c) in
         if img_Kind im = ''base64'' then
           (if img_Data im = [] then None
            else Some [(''source'', JObj [(''data'', JStr (img_Data im)), (''media_type'', JStr (img_MediaType im)),
                        (''type'', JStr ''base64'')]), (''type'', JStr ''image'')])
         else if img_Kind im = ''url'' then
           (if img_URL im = [] then None
            else Some [(''source'', JObj [(''type'', JStr ''url''), (''url'', JStr (img_URL im))]),
                       (''type'', JStr ''image'')])
         else None)
      else Some [(''text'', JStr (cb_Text c)), (''type'', JStr ''text'')])"

definition BuildAnthropicContentBlock :: "content_block \<Rightarrow> json option" where
  "BuildAnthropicContentBlock c =
     map_option (\<lambda>b. JObj (if cb_CacheControl c \<noteq> None
         then put ''cache_control'' (JObj [(''type'', JStr ''ephemeral'')]) b else b))
       (buildAnthropicContentBlock c)"

definition BuildAnthropicContentBlocks :: "content_block list \<Rightarrow> json list" where
  "BuildAnthropicContentBlocks content = List.map_filter BuildAnthropicContentBlock content"

definition BuildAnthropicResponse :: "unified_response \<Rightarrow> (string \<times> json) list" where
  "BuildAnthropicResponse r =
     (let content = List.map_filter BuildAnthropicContentBlock (resp_Content r);
          content = (if content = [] then [JObj [(''text'', JStr []), (''type'', JStr ''text'')]] else content)
      in [(''content'', JArr content), (''model'', JStr (resp_Model r)), (''role'', JStr ''assistant''),
          (''stop_reason'', JStr (stopToAnthropic (resp_StopReason r))), (''type'', JStr ''message''),
          (''usage'', JObj (addCacheUsageAnthropic (resp_Usage r) @
             [(''input_tokens'', JInt (us_Prompt (resp_Usage r))),
              (''output_tokens'', JInt (us_Completion (resp_Usage r)))]))])"

definition bedrock_tool_use_obj :: "content_block \<Rightarrow> json" where
  "bedrock_tool_use_obj c =
     (let tu = the (cb_ToolUse c);
          input = (if trim_space (tu_Input tu) = [] then ''{}'' else tu_Input tu) in
      JObj [(''toolUse'', JObj [(''input'', JRaw input), (''name'', JStr (tu_Name tu)),
             (''toolUseId'', JStr (tu_ID tu))])])"

definition BuildBedrockResponse :: "unified_response \<Rightarrow> (string \<times> json) list" where
  "BuildBedrockResponse r =
     (let content = (if response_Text r \<noteq> [] then [JObj [(''text'', JStr (response_Text r))]] else [])
            @ map bedrock_tool_use_obj (filter IsToolUse (resp_Content r));
          content = (if content = [] then [JObj [(''text'', JStr [])]] else content)
      in [(''output'', JObj [(''message'', JObj [(''content'', JArr content), (''role'', JStr ''assistant'')])]),
          (''stopReason'', JStr (stopToBedrock (resp_StopReason r))),
          (''usage'', JObj (addCacheUsageBedrock (resp_Usage r) @
             [(''inputTokens'', JInt (us_Prompt (resp_Usage r))),
              (''outputTokens'', JInt (us_Completion (resp_Usage r))),
              (''totalTokens'', JInt (us_Total (resp_Usage r)))]))])"

text \<open>\<open>newid\<close> is the random id, \<open>now\<close> the time in seconds.\<close>

definition buildResponse :: "string \<Rightarrow> string \<Rightarrow> int \<Rightarrow> unified_response \<Rightarrow> json" where
  "buildResponse out newid now resp =
     (if out = OutBedrock then JObj (BuildBedrockResponse resp)
      else if out = OutAnthropic then JObj (put ''id'' (JStr (''msg_'' @ newid)) (BuildAnthropicResponse resp))
      else JObj (put ''created'' (JInt now) (put ''id'' (JStr (''chatcmpl-'' @ newid)) (BuildOpenAIResponse resp))))"

text \<open>
  \<open>json.Marshal\<close> fails when a raw message in the value is not JSON, and \<open>c.JSON\<close> then
  writes the status with no body.
\<close>

fun marshal_ok :: "json \<Rightarrow> bool" where
  "marshal_ok (JRaw s) \<longleftrightarrow> s = [] \<or> parse_json s \<noteq> None"
| "marshal_ok (JArr xs) \<longleftrightarrow> list_all marshal_ok xs"
| "marshal_ok (JObj kvs) \<longleftrightarrow> list_all (\<lambda>(k, v). marshal_ok v) kvs"
| "marshal_ok _ \<longleftrightarrow> True"

definition gin_JSON :: "int \<Rightarrow> json \<Rightarrow> client_event list" where
  "gin_JSON status body = (if marshal_ok body then [SendJSON status body] else [SendStatus status])"

end
