(* ===== verification/Event_Stream.thy ===== *)
theory Event_Stream
  imports Json
begin

text \<open>
  The two wire framings of streamed responses: the AWS event stream of Bedrock
  (\<open>adapter/bedrock_eventstream.go\<close> writes it, \<open>readEventStream\<close> and
  \<open>eventTypeFromHeaders\<close> of \<open>relay/stream.go\<close> read it) and server-sent events
  (\<open>readSSE\<close>, \<open>writeSSERaw\<close>, \<open>writeSSENamed\<close>).  A body that is read is the bytes that
  arrive and how they end.
\<close>

section \<open>Big-endian integers and CRC-32\<close>

text \<open>\<open>PutUint32\<close> and \<open>PutUint16\<close> of a value converted to the width, which drops high bits.\<close>

definition be32 :: "nat \<Rightarrow> string" where
  "be32 n = map (\<lambda>k. char_of (n div 256 ^ k mod 256)) [3, 2, 1, 0]"

definition be16 :: "nat \<Rightarrow> string" where
  "be16 n = map (\<lambda>k. char_of (n div 256 ^ k mod 256)) [1, 0]"

definition un_be :: "string \<Rightarrow> nat" where
  "un_be s = foldl (\<lambda>a c. 256 * a + of_char c) 0 s"

unbundle bit_operations_syntax

definition crc_bit :: "32 word \<Rightarrow> 32 word" where
  "crc_bit c = (if bit c 0 then drop_bit 1 c XOR 0xEDB88320 else drop_bit 1 c)"

definition crc_byte :: "char \<Rightarrow> 32 word \<Rightarrow> 32 word" where
  "crc_byte b c = (crc_bit ^^ 8) (c XOR of_char b)"

definition crc32 :: "string \<Rightarrow> 32 word" where
  "crc32 s = NOT (fold crc_byte s (NOT 0))"

definition crc_bytes :: "string \<Rightarrow> string" where
  "crc_bytes s = map (\<lambda>k. char_of (unat (drop_bit k (crc32 s) AND 255))) [24, 16, 8, 0]"

section \<open>Encoding a Bedrock frame\<close>

definition bedrockHeaderString :: nat where "bedrockHeaderString = 7"

definition appendBedrockStringHeader :: "string \<Rightarrow> string \<Rightarrow> string \<Rightarrow> string" where
  "appendBedrockStringHeader out name v =
     out @ [char_of (length name mod 256)] @ name @ [char_of bedrockHeaderString] @ be16 (length v) @ v"

definition encodeBedrockEventHeaders :: "string \<Rightarrow> string" where
  "encodeBedrockEventHeaders eventType =
     appendBedrockStringHeader
       (appendBedrockStringHeader
          (appendBedrockStringHeader [] '':event-type'' eventType)
          '':content-type'' ''application/json'')
       '':message-type'' ''event''"

definition EncodeBedrockFrame :: "string \<Rightarrow> string \<Rightarrow> string" where
  "EncodeBedrockFrame eventType payload =
     (let headers = encodeBedrockEventHeaders eventType;
          totalLen = 4 + 4 + 4 + length headers + length payload + 4;
          prelude = be32 totalLen @ be32 (length headers);
          buf = prelude @ crc_bytes prelude @ headers @ payload
      in buf @ crc_bytes buf)"

section \<open>Reading a Bedrock stream\<close>

record stream_event =
  ev_Type :: string
  ev_Payload :: string

text \<open>How a body ends: a clean end of file, or a read error.\<close>

datatype body_end = EOF | Broken

datatype read_err =
    ReadBroken
  | ReadEOF
  | ReadUnexpectedEOF
  | MalformedLengths nat nat
  | PayloadBounds

text \<open>
  \<open>eventTypeFromHeaders\<close>, at offset \<open>i\<close>; the offset only grows.
\<close>

definition value_size :: "nat \<Rightarrow> nat option" where
  "value_size ty =
     (if ty = 0 \<or> ty = 1 then Some 0 else if ty = 2 then Some 1 else if ty = 3 then Some 2
      else if ty = 4 then Some 4 else if ty = 5 then Some 8 else if ty = 8 then Some 8
      else if ty = 9 then Some 16 else None)"

function header_scan :: "string \<Rightarrow> nat \<Rightarrow> string" where
  "header_scan h i =
     (if i < length h then
        (let nameLen = of_char (h ! i); i = Suc i in
         if i + nameLen > length h then []
         else
           (let name = take nameLen (drop i h); i = i + nameLen in
            if i \<ge> length h then []
            else
              (let valueType = of_char (h ! i); i = Suc i in
               if valueType = 6 \<or> valueType = 7 then
                 (if i + 2 > length h then []
                  else
                    (let vlen = un_be (take 2 (drop i h)); i = i + 2 in
                     if i + vlen > length h then []
                     else if valueType = 7 \<and> name = '':event-type'' then take vlen (drop i h)
                     else header_scan h (i + vlen)))
               else
                 (case value_size valueType of
                    Some n \<Rightarrow> header_scan h (i + n)
                  | None \<Rightarrow> []))))
      else [])"
  by pat_completeness auto
termination
  by (relation "measure (\<lambda>(h, i). length h - i)") auto

declare header_scan.simps [simp del]

definition eventTypeFromHeaders :: "string \<Rightarrow> string" where
  "eventTypeFromHeaders h = header_scan h 0"

text \<open>\<open>io.ReadFull\<close> of n bytes: what is read and what is left, or the error.\<close>

definition ReadFull :: "body_end \<Rightarrow> nat \<Rightarrow> string \<Rightarrow> read_err + string \<times> string" where
  "ReadFull e n s =
     (if n \<le> length s then Inr (take n s, drop n s)
      else Inl (case e of Broken \<Rightarrow> ReadBroken | EOF \<Rightarrow> if s = [] then ReadEOF else ReadUnexpectedEOF))"

function readEventStream :: "body_end \<Rightarrow> string \<Rightarrow> stream_event list \<times> read_err option" where
  "readEventStream e s =
     (case ReadFull e 12 s of
        Inl err \<Rightarrow> ([], if err = ReadEOF \<or> err = ReadUnexpectedEOF then None else Some err)
      | Inr (prelude, s1) \<Rightarrow>
          (let totalLen = un_be (take 4 prelude); headersLen = un_be (take 4 (drop 4 prelude)) in
           if totalLen < 16 \<or> headersLen > totalLen then ([], Some (MalformedLengths totalLen headersLen))
           else
             (case ReadFull e (totalLen - 12) s1 of
                Inl err \<Rightarrow> ([], Some err)
              | Inr (rest, s2) \<Rightarrow>
                  if headersLen + 4 > length rest then ([], Some PayloadBounds)
                  else
                    (let eventType = eventTypeFromHeaders (take headersLen rest);
                         payload = take (length rest - 4 - headersLen) (drop headersLen rest);
                         (evs, r) = readEventStream e s2
                     in (if payload \<noteq> [] \<or> eventType \<noteq> []
                         then \<lparr>ev_Type = eventType, ev_Payload = payload\<rparr> # evs else evs, r)))))"
  by pat_completeness auto
termination
  by (relation "measure (\<lambda>(e, s). length s)") (auto simp: ReadFull_def split: if_splits)

declare readEventStream.simps [simp del]

section \<open>Server-sent events\<close>

definition crlf :: "char \<Rightarrow> bool" where
  "crlf c \<longleftrightarrow> c = CHR 0x0D \<or> c = CHR 0x0A"

definition sse_line :: "string \<Rightarrow> stream_event option" where
  "sse_line line =
     (let trimmed = rev (dropWhile crlf (rev line)) in
      if prefix ''data:'' trimmed then
        (let d = trim_space (drop 5 trimmed) in
         if d \<noteq> [] \<and> d \<noteq> ''[DONE]'' then Some \<lparr>ev_Type = [], ev_Payload = d\<rparr> else None)
      else None)"

text \<open>
  \<open>ReadBytes\<close> gives the lines; the one before the end of the body has no newline.
\<close>

definition readSSE :: "body_end \<Rightarrow> string \<Rightarrow> stream_event list \<times> read_err option" where
  "readSSE e s =
     (List.map_filter sse_line (split_char (CHR 0x0A) s),
      case e of EOF \<Rightarrow> None | Broken \<Rightarrow> Some ReadBroken)"

definition upstreamEvents :: "string \<Rightarrow> body_end \<Rightarrow> string \<Rightarrow> stream_event list \<times> read_err option" where
  "upstreamEvents provider e s =
     (if provider = ''bedrock'' then readEventStream e s else readSSE e s)"

definition newline :: string where "newline = [CHR 0x0A]"

definition writeSSERaw :: "string \<Rightarrow> string" where
  "writeSSERaw payload = ''data: '' @ payload @ newline @ newline"

definition writeSSENamedRaw :: "string \<Rightarrow> string \<Rightarrow> string" where
  "writeSSENamedRaw event payload =
     (if event \<noteq> [] then ''event: '' @ event @ newline else []) @ ''data: '' @ payload @ newline @ newline"

definition writeSSENamed :: "string \<Rightarrow> json \<Rightarrow> string" where
  "writeSSENamed event payload =
     ''event: '' @ event @ newline @ ''data: '' @ marshal payload @ newline @ newline"

definition writeBedrockFrame :: "string \<Rightarrow> json \<Rightarrow> string" where
  "writeBedrockFrame eventType payload = EncodeBedrockFrame eventType (marshal payload)"

section \<open>Reading back what was written\<close>

lemma length_be [simp]: "length (be32 n) = 4" "length (be16 n) = 2" "length (crc_bytes s) = 4"
  by (simp_all add: be32_def be16_def crc_bytes_def)

lemma foldl_be:
  "foldl (\<lambda>a c. 256 * a + of_char c) a (map (\<lambda>k. char_of (n div 256 ^ k mod 256)) (rev [0..<w]))
     = a * 256 ^ w + n mod (256::nat) ^ w"
proof (induction w arbitrary: a)
  case 0
  then show ?case by simp
next
  case (Suc w)
  have d: "of_char (char_of (n div 256 ^ w mod 256) :: char) = n div 256 ^ w mod 256"
    by (simp only: of_char_of mod_mod_trivial)
  have "n mod (256 ^ w * 256) = 256 ^ w * (n div 256 ^ w mod 256) + n mod 256 ^ w"
    by (rule mod_mult2_eq)
  then show ?case
    by (simp only: upt_Suc_append zero_le rev_append rev.simps append.simps list.map foldl_Cons Suc.IH d
        power_Suc2) (simp only: algebra_simps)
qed

lemma un_be_be32: "n < 2 ^ 32 \<Longrightarrow> un_be (be32 n) = n"
proof -
  have "[3, 2, 1, 0] = rev [0..<4]" by (simp add: upt_rec)
  then have "un_be (be32 n) = n mod 256 ^ 4"
    unfolding un_be_def be32_def using foldl_be [of 0 n 4] by (simp only: mult_0 add_0)
  then show "n < 2 ^ 32 \<Longrightarrow> un_be (be32 n) = n" by simp
qed

lemma un_be_be16: "n < 2 ^ 16 \<Longrightarrow> un_be (be16 n) = n"
proof -
  have "[1, 0] = rev [0..<2]" by (simp add: upt_rec)
  then have "un_be (be16 n) = n mod 256 ^ 2"
    unfolding un_be_def be16_def using foldl_be [of 0 n 2] by (simp only: mult_0 add_0)
  then show "n < 2 ^ 16 \<Longrightarrow> un_be (be16 n) = n" by simp
qed

lemma event_type_header:
  assumes "length t < 2 ^ 16"
  shows "eventTypeFromHeaders (encodeBedrockEventHeaders t) = t"
proof -
  have be: "be16 (length t) = [char_of (length t div 256 mod 256), char_of (length t mod 256)]"
    by (simp add: be16_def)
  have "un_be [char_of (length t div 256 mod 256), char_of (length t mod 256)] = length t"
    using un_be_be16 [OF assms] be by simp
  then show ?thesis
    by (simp add: eventTypeFromHeaders_def encodeBedrockEventHeaders_def
        appendBedrockStringHeader_def bedrockHeaderString_def header_scan.simps [of _ 0] be Let_def
        of_char_of)
qed

definition frame_ok :: "string \<times> string \<Rightarrow> bool" where
  "frame_ok f \<longleftrightarrow> length (fst f) < 2 ^ 16 \<and> fst f \<noteq> []
     \<and> length (EncodeBedrockFrame (fst f) (snd f)) < 2 ^ 32"

abbreviation frame :: "string \<times> string \<Rightarrow> string" where
  "frame f \<equiv> EncodeBedrockFrame (fst f) (snd f)"

abbreviation event_of :: "string \<times> string \<Rightarrow> stream_event" where
  "event_of f \<equiv> \<lparr>ev_Type = fst f, ev_Payload = snd f\<rparr>"

text \<open>The shape of a frame: 8 bytes of lengths, 4 of CRC, headers, payload, 4 of CRC.\<close>

lemma frame_shape:
  obtains c c' where "length c = 4" "length c' = 4"
    "EncodeBedrockFrame t p = be32 (16 + length (encodeBedrockEventHeaders t) + length p)
       @ be32 (length (encodeBedrockEventHeaders t)) @ c @ encodeBedrockEventHeaders t @ p @ c'"
  by (rule that [OF length_be(3) length_be(3)]) (simp add: EncodeBedrockFrame_def Let_def add_ac)

lemma length_frame: "length (EncodeBedrockFrame t p) = 16 + length (encodeBedrockEventHeaders t) + length p"
  by (rule frame_shape [of t p]) simp

lemma readEventStream_frame:
  assumes "frame_ok f"
  shows "readEventStream e (frame f @ s) = (let (evs, r) = readEventStream e s in (event_of f # evs, r))"
proof -
  obtain t p where f: "f = (t, p)" by fastforce
  obtain c c' where sh: "length c = 4" "length c' = 4"
    "EncodeBedrockFrame t p = be32 (16 + length (encodeBedrockEventHeaders t) + length p)
       @ be32 (length (encodeBedrockEventHeaders t)) @ c @ encodeBedrockEventHeaders t @ p @ c'"
    by (rule frame_shape)
  define h where "h = encodeBedrockEventHeaders t"
  have len: "16 + length h + length p < 2 ^ 32" "length t < 2 ^ 16" "t \<noteq> []"
    using assms by (simp_all add: frame_ok_def f length_frame h_def)
  have h: "eventTypeFromHeaders h = t" using event_type_header [OF len(2)] by (simp add: h_def)
  have u: "un_be (be32 (16 + length h + length p)) = 16 + length h + length p"
    "un_be (be32 (length h)) = length h"
    using len by (simp_all add: un_be_be32)
  have "readEventStream e ((be32 (16 + length h + length p) @ be32 (length h) @ c @ h @ p @ c') @ s) =
      (let (evs, r) = readEventStream e s in (\<lparr>ev_Type = t, ev_Payload = p\<rparr> # evs, r))"
    using sh(1,2) len h u by (subst readEventStream.simps) (simp add: ReadFull_def Let_def)
  then show ?thesis using sh(3) f by (simp add: h_def)
qed

lemma readEventStream_short:
  assumes "frame_ok f" "n < length (frame f)"
  shows "fst (readEventStream e (take n (frame f))) = []"
proof -
  obtain t p where f: "f = (t, p)" by fastforce
  obtain c c' where sh: "length c = 4" "length c' = 4"
    "EncodeBedrockFrame t p = be32 (16 + length (encodeBedrockEventHeaders t) + length p)
       @ be32 (length (encodeBedrockEventHeaders t)) @ c @ encodeBedrockEventHeaders t @ p @ c'"
    by (rule frame_shape)
  define h where "h = encodeBedrockEventHeaders t"
  define b where "b = be32 (16 + length h + length p) @ be32 (length h) @ c"
  define z where "z = h @ p @ c'"
  have fr: "frame f = b @ z" using sh(3) by (simp add: f b_def z_def h_def)
  have lb: "length b = 12" and lz: "length z = 4 + length h + length p"
    using sh by (simp_all add: b_def z_def)
  have len: "16 + length h + length p < 2 ^ 32"
    using assms(1) by (simp_all add: frame_ok_def f length_frame h_def)
  have u: "un_be (take 4 b) = 16 + length h + length p" "un_be (take 4 (drop 4 b)) = length h"
    using len by (simp_all add: b_def un_be_be32)
  show ?thesis
  proof (cases "n < 12")
    case True
    then show ?thesis by (subst readEventStream.simps) (simp add: ReadFull_def)
  next
    case False
    then obtain m where m: "n = 12 + m" by (metis le_Suc_ex not_less)
    with assms(2) fr lb have "m < length z" by simp
    then show ?thesis
      unfolding fr m using lb lz u
      by (subst readEventStream.simps) (simp add: ReadFull_def)
  qed
qed

lemma readEventStream_Nil [simp]: "readEventStream EOF [] = ([], None)" "fst (readEventStream e []) = []"
  by (simp_all add: readEventStream.simps [of _ "[]"] ReadFull_def)

lemma readEventStream_frames:
  "list_all frame_ok fs \<Longrightarrow>
     readEventStream e (concat (map frame fs) @ s) =
       (let (evs, r) = readEventStream e s in (map event_of fs @ evs, r))"
  by (induction fs) (simp_all add: readEventStream_frame split: prod.split)

lemma readEventStream_cut:
  "list_all frame_ok fs \<Longrightarrow>
     \<exists>k. fst (readEventStream e (take n (concat (map frame fs)))) = take k (map event_of fs)"
proof (induction fs arbitrary: n)
  case Nil
  then show ?case by simp
next
  case (Cons f fs)
  show ?case
  proof (cases "n < length (frame f)")
    case True
    with Cons.prems show ?thesis
      using readEventStream_short [of f n e] by (intro exI [of _ 0]) simp
  next
    case False
    from Cons obtain k where
      "fst (readEventStream e (take (n - length (frame f)) (concat (map frame fs)))) = take k (map event_of fs)"
      by auto
    with False Cons.prems show ?thesis
      by (intro exI [of _ "Suc k"]) (auto simp: readEventStream_frame split: prod.split)
  qed
qed

section \<open>SSE frames\<close>

text \<open>What \<open>json.Marshal\<close> writes has no line break, so a frame is one \<open>data\<close> line.\<close>

lemma char_of_nl: "CHR 0x0A = char_of (n::nat) \<Longrightarrow> n mod 256 = 10"
proof -
  assume "CHR 0x0A = char_of n"
  then have "of_char (char_of n :: char) = (of_char CHR 0x0A :: nat)" by simp
  then show ?thesis by (simp only: of_char_of) simp
qed

lemma small_byte_nl: "m \<noteq> 10 \<Longrightarrow> m < 256 \<Longrightarrow> CHR 0x0A \<noteq> char_of (m::nat)"
proof
  assume m: "m \<noteq> 10" "m < 256" and "CHR 0x0A = char_of m"
  from char_of_nl [OF this(3)] m show False by simp
qed

lemma hex_digit_nl: "n < 16 \<Longrightarrow> CHR 0x0A \<noteq> hex_digit n"
  unfolding hex_digit_def
  by (rule if_intro [where P = "\<lambda>c. CHR 0x0A \<noteq> c"]) (rule small_byte_nl; linarith)+

lemma encode_rune_nl:
  assumes "r \<noteq> 10"
  shows "CHR 0x0A \<notin> set (encode_rune r)"
proof -
  have b: "CHR 0x0A \<noteq> char_of (0x80 + x mod 64)" for x :: nat
  proof -
    have "x mod 64 < 64" by simp
    then show ?thesis by (intro small_byte_nl) linarith+
  qed
  consider "r < 0x80" | "0x80 \<le> r" "r < 0x800" | "0x800 \<le> r" "r < 0x10000" | "0x10000 \<le> r" "r \<le> 0x10FFFF"
    | "0x10FFFF < r" by linarith
  then show ?thesis
  proof cases
    case 1
    with small_byte_nl [of r] assms show ?thesis by (simp add: encode_rune_def)
  next
    case 2
    then have "CHR 0x0A \<noteq> char_of (0xC0 + r div 64)" by (intro small_byte_nl) auto
    with 2 b [of r] show ?thesis unfolding encode_rune_def by simp
  next
    case 3
    then have "CHR 0x0A \<noteq> char_of (0xE0 + r div 4096)" by (intro small_byte_nl) auto
    with 3 b [of r] b [of "r div 64"] show ?thesis unfolding encode_rune_def by simp
  next
    case 4
    then have "CHR 0x0A \<noteq> char_of (0xF0 + r div 262144)" by (intro small_byte_nl) auto
    with 4 b [of r] b [of "r div 64"] b [of "r div 4096"] show ?thesis unfolding encode_rune_def by simp
  next
    case 5
    then show ?thesis by (simp add: encode_rune_def)
  qed
qed

lemma nl_json_rune: "CHR 0x0A \<notin> set (json_rune r)"
proof (cases "r = 10")
  case True
  then show ?thesis by (simp add: json_rune_def)
next
  case False
  have "CHR 0x0A \<notin> set [CHR 0x5C, CHR ''u'', CHR ''0'', CHR ''0'', hex_digit (r div 16), hex_digit (r mod 16)]"
    if "r < 256"
  proof -
    have "r div 16 < 16" "r mod 16 < 16" using that by (simp_all add: less_mult_imp_div_less)
    then show ?thesis using hex_digit_nl by simp
  qed
  with False encode_rune_nl [OF False] show ?thesis
    unfolding json_rune_def by (simp add: hex_digit_nl)
qed

lemma nl_json_body: "CHR 0x0A \<notin> set (json_body s)"
proof (induction s rule: json_body.induct)
  case (1 s)
  then show ?case
    by (subst json_body.simps) (auto simp: nl_json_rune Let_def split: prod.split)
qed

lemma nl_quote: "CHR 0x0A \<notin> set (strconvQuote s)"
  by (simp add: strconvQuote_def nl_json_body)

lemma nl_dec: "CHR 0x0A \<notin> set (dec n)"
proof (induction n rule: dec.induct)
  case (1 n)
  have "CHR 0x0A \<noteq> char_of (48 + d)" if "d < 10" for d :: nat
    using that by (intro small_byte_nl) linarith+
  with 1 show ?case by (subst dec.simps) auto
qed

text \<open>The values the server builds hold no literal numbers.\<close>

fun plain_json :: "json \<Rightarrow> bool" where
  "plain_json (JDec _) = False"
| "plain_json (JRaw _) = False"
| "plain_json (JArr xs) = list_all plain_json xs"
| "plain_json (JObj kvs) = list_all (\<lambda>(k, v). plain_json v) kvs"
| "plain_json _ = True"

lemma set_str_join: "set (str_join sep xs) \<subseteq> set sep \<union> \<Union> (set ` set xs)"
  by (induction sep xs rule: str_join.induct) auto

lemma nl_marshal: "plain_json j \<Longrightarrow> CHR 0x0A \<notin> set (marshal j)"
proof (induction j rule: marshal.induct)
  case (3 i)
  then show ?case by (simp add: dec_int_def nl_dec)
next
  case (7 xs)
  then show ?case using set_str_join [of "'',''" "map marshal xs"]
    by (fastforce simp: list_all_iff)
next
  case (8 kvs)
  let ?f = "\<lambda>(k, v). strconvQuote k @ '':'' @ marshal v"
  have "CHR 0x0A \<notin> set (?f kv)" if "kv \<in> set kvs" for kv
    using 8 that nl_quote by (cases kv) (fastforce simp: list_all_iff)
  then show ?case using set_str_join [of "'',''" "map ?f kvs"] by fastforce
qed (auto simp: nl_quote)

lemma graphic_char: "33 \<le> n \<Longrightarrow> n \<le> 126 \<Longrightarrow> graphic (char_of (n::nat))"
  by (simp add: graphic_def of_char_of)

lemma dec_ends: "dec n \<noteq> [] \<and> graphic (hd (dec n)) \<and> graphic (last (dec n))"
proof (induction n rule: dec.induct)
  case (1 n)
  have "graphic (char_of (48 + d))" if "d < 10" for d :: nat
    using that by (intro graphic_char) linarith+
  with 1 show ?case by (subst (1 2 3) dec.simps) auto
qed

lemma graphic_lits [simp]:
  "graphic (CHR ''-'')" "graphic (CHR ''['')" "graphic (CHR '']'')" "graphic (CHR ''{'')"
  "graphic (CHR ''}'')" "graphic (CHR 0x22)" "graphic (CHR ''n'')" "graphic (CHR ''l'')"
  "graphic (CHR ''t'')" "graphic (CHR ''e'')" "graphic (CHR ''f'')"
  by code_simp+

lemma marshal_ends:
  "plain_json j \<Longrightarrow> marshal j \<noteq> [] \<and> graphic (hd (marshal j)) \<and> graphic (last (marshal j))"
  using dec_ends by (cases j) (auto simp: dec_int_def strconvQuote_def)

definition payload_ok :: "string \<Rightarrow> bool" where
  "payload_ok p \<longleftrightarrow> p \<noteq> [] \<and> trim_space p = p \<and> CHR 0x0A \<notin> set p \<and> p \<noteq> ''[DONE]''"

lemma marshal_obj_payload: "plain_json (JObj kvs) \<Longrightarrow> payload_ok (marshal (JObj kvs))"
  using marshal_ends [of "JObj kvs"] nl_marshal [of "JObj kvs"]
    trim_space_ends [of "marshal (JObj kvs)"] by (simp add: payload_ok_def)

lemma sse_line_data: "payload_ok p \<Longrightarrow> sse_line (''data: '' @ p) = Some \<lparr>ev_Type = [], ev_Payload = p\<rparr>"
proof -
  assume p: "payload_ok p"
  have "rev (dropWhile crlf (rev (''data: '' @ p))) = ''data: '' @ p"
  proof -
    obtain q c where q: "p = q @ [c]" using p by (cases p rule: rev_cases) (auto simp: payload_ok_def)
    then have "[c] \<notin> set space_runes" using p trimmed_last [of p] by (simp add: payload_ok_def)
    then have "\<not> crlf c" by (auto simp: crlf_def space_runes_def)
    then show ?thesis by (simp add: q)
  qed
  then show ?thesis using p by (simp add: sse_line_def Let_def payload_ok_def)
qed

lemma sse_line_other: "sse_line [] = None" "sse_line (''event: '' @ e) = None"
proof -
  have "\<not> prefix ''data:'' (rev (dropWhile crlf (rev (''event: '' @ e))))"
  proof
    assume a: "prefix ''data:'' (rev (dropWhile crlf (rev (''event: '' @ e))))"
    have "prefix (rev (dropWhile crlf (rev (''event: '' @ e)))) (''event: '' @ e)"
      by (metis suffix_dropWhile suffix_to_prefix rev_rev_ident)
    with a have "prefix ''data:'' (''event: '' @ e)" by (rule prefix_order.trans)
    then show False by simp
  qed
  then show "sse_line (''event: '' @ e) = None" by (simp add: sse_line_def Let_def)
qed (simp add: sse_line_def)

lemma sse_frame:
  assumes "payload_ok p" "CHR 0x0A \<notin> set e"
  shows "List.map_filter sse_line (split_char (CHR 0x0A) (writeSSENamedRaw e p @ s)) =
    \<lparr>ev_Type = [], ev_Payload = p\<rparr> # List.map_filter sse_line (split_char (CHR 0x0A) s)"
proof -
  have d: "split_char (CHR 0x0A) (''data: '' @ p @ newline @ newline @ s) =
      (''data: '' @ p) # [] # split_char (CHR 0x0A) s"
    using split_char_append [of "CHR 0x0A" "''data: '' @ p" "newline @ s"] assms
      split_char_append [of "CHR 0x0A" "[]" s]
    by (simp add: payload_ok_def newline_def)
  have e: "split_char (CHR 0x0A) ((''event: '' @ e) @ CHR 0x0A # r) = (''event: '' @ e) # split_char (CHR 0x0A) r" for r
    using assms by (intro split_char_append) simp
  show ?thesis
  proof (cases "e = []")
    case True
    with d sse_line_data [OF assms(1)] sse_line_other(1) show ?thesis
      by (simp add: writeSSENamedRaw_def List.map_filter_simps)
  next
    case False
    have "writeSSENamedRaw e p @ s = (''event: '' @ e) @ CHR 0x0A # (''data: '' @ p @ newline @ newline @ s)"
      using False by (simp add: writeSSENamedRaw_def newline_def)
    with e d sse_line_data [OF assms(1)] sse_line_other show ?thesis
      by (simp add: List.map_filter_simps)
  qed
qed

section \<open>Properties\<close>

text \<open>
  C31. The Bedrock framing round-trips and fails safe: a stream of encoded frames (event
  types below 64 KiB, frames below 4 GiB) reads back as exactly the frames' event types
  and payloads with a clean end, and a stream that is cut anywhere, cleanly or by an error,
  gives a prefix of those events and never another one.
\<close>

theorem event_stream_roundtrip:
  assumes "list_all frame_ok fs"
  shows "readEventStream EOF (concat (map (\<lambda>f. EncodeBedrockFrame (fst f) (snd f)) fs)) =
      (map (\<lambda>f. \<lparr>ev_Type = fst f, ev_Payload = snd f\<rparr>) fs, None)
    \<and> (\<exists>k. fst (readEventStream e (take n (concat (map (\<lambda>f. EncodeBedrockFrame (fst f) (snd f)) fs)))) =
      take k (map (\<lambda>f. \<lparr>ev_Type = fst f, ev_Payload = snd f\<rparr>) fs))"
  using readEventStream_frames [OF assms, of EOF "[]"] readEventStream_cut [OF assms, of e n] by simp

lemma event_stream_roundtrip_witness:
  "readEventStream EOF (EncodeBedrockFrame ''metadata'' ''{}'') =
     ([\<lparr>ev_Type = ''metadata'', ev_Payload = ''{}''\<rparr>], None)"
proof -
  have "list_all frame_ok [(''metadata'', ''{}'')]"
    by (simp add: frame_ok_def length_frame encodeBedrockEventHeaders_def
        appendBedrockStringHeader_def)
  from event_stream_roundtrip [OF this] show ?thesis by simp
qed

text \<open>
  C32. The SSE framing round-trips: named events written with \<open>writeSSENamedRaw\<close> read back as
  exactly their payloads, in order, for trimmed, non-empty payloads on one line that are not
  the \<open>[DONE]\<close> sentinel; every JSON object the server
  marshals is such a payload, so \<open>writeSSENamed\<close> never splits or loses an event.
\<close>

theorem sse_roundtrip:
  assumes "list_all (\<lambda>(e, p). payload_ok p \<and> CHR 0x0A \<notin> set e) evs"
    and "plain_json (JObj kvs)" and "CHR 0x0A \<notin> set name" and "name \<noteq> []"
  shows "readSSE EOF (concat (map (\<lambda>(e, p). writeSSENamedRaw e p) evs)) =
      (map (\<lambda>(e, p). \<lparr>ev_Type = [], ev_Payload = p\<rparr>) evs, None)
    \<and> readSSE EOF (writeSSENamed name (JObj kvs)) =
      ([\<lparr>ev_Type = [], ev_Payload = marshal (JObj kvs)\<rparr>], None)"
proof
  have nil: "List.map_filter sse_line (split_char (CHR 0x0A) []) = []"
    by (simp add: sse_line_other List.map_filter_simps)
  have "List.map_filter sse_line (split_char (CHR 0x0A) (concat (map (\<lambda>(e, p). writeSSENamedRaw e p) evs))) =
      map (\<lambda>(e, p). \<lparr>ev_Type = [], ev_Payload = p\<rparr>) evs"
    using assms(1)
  proof (induction evs)
    case Nil
    then show ?case using nil by simp
  next
    case (Cons ep evs)
    then show ?case by (cases ep) (auto simp: sse_frame)
  qed
  then show "readSSE EOF (concat (map (\<lambda>(e, p). writeSSENamedRaw e p) evs)) =
      (map (\<lambda>(e, p). \<lparr>ev_Type = [], ev_Payload = p\<rparr>) evs, None)"
    by (simp add: readSSE_def)
  have "writeSSENamed name (JObj kvs) = writeSSENamedRaw name (marshal (JObj kvs)) @ []"
    using assms(4) by (simp add: writeSSENamed_def writeSSENamedRaw_def)
  with sse_frame [OF marshal_obj_payload [OF assms(2)] assms(3), of "[]"] nil
  show "readSSE EOF (writeSSENamed name (JObj kvs)) =
      ([\<lparr>ev_Type = [], ev_Payload = marshal (JObj kvs)\<rparr>], None)"
    by (simp only: readSSE_def) simp
qed

lemma sse_roundtrip_witness:
  "readSSE EOF (writeSSENamedRaw ''ping'' ''{}'' @ writeSSENamedRaw [] ''{1}'') =
     ([\<lparr>ev_Type = [], ev_Payload = ''{}''\<rparr>, \<lparr>ev_Type = [], ev_Payload = ''{1}''\<rparr>], None)"
proof -
  have "trim_space ''{}'' = ''{}''" "trim_space ''{1}'' = ''{1}''" by code_simp+
  then show ?thesis
    using sse_roundtrip [of "[(''ping'', ''{}''), ([], ''{1}'')]" "[]" "''ping''"]
    by (simp add: payload_ok_def)
qed

end
