(* ===== verification/Pump.thy ===== *)
theory Pump
  imports Chunks Event_Stream Format
begin

text \<open>
  The stream pumps of \<open>relay/stream.go\<close>: \<open>pumpStream\<close>, which parses every upstream event
  and re-emits it in the output dialect, and \<open>pumpAnthropicPassthrough\<close>, which forwards
  Anthropic events.  The goroutine that reads the body is the list of its events and its
  terminal error; the client may go away after any number of events.
\<close>

section \<open>Frames written to the client\<close>

datatype frame =
    SSENamed string json
  | SSEJson json
  | SSEData string
  | SSENamedBytes string string
  | BedrockFrame string json

fun render_frame :: "frame \<Rightarrow> string" where
  "render_frame (SSENamed event payload) = writeSSENamed event payload"
| "render_frame (SSEJson payload) = writeSSERaw (marshal payload)"
| "render_frame (SSEData payload) = writeSSERaw payload"
| "render_frame (SSENamedBytes event payload) = writeSSENamedRaw event payload"
| "render_frame (BedrockFrame eventType payload) = writeBedrockFrame eventType payload"

datatype stream_error =
    UpstreamFatal upstream_error
  | ReadFailed read_err

record pump =
  pm_Usage :: "usage option"
  pm_Completion :: string
  pm_AnthOpened :: bool
  pm_AnthTextOpen :: bool
  pm_AnthToolIdx :: int
  pm_BedrockOpened :: bool
  pm_Stop :: stop_reason
  pm_Fatal :: "stream_error option"
  pm_FirstToken :: bool
  pm_Out :: "frame list"

definition pump_init :: pump where
  "pump_init = \<lparr>pm_Usage = None, pm_Completion = [], pm_AnthOpened = False, pm_AnthTextOpen = False,
     pm_AnthToolIdx = 0, pm_BedrockOpened = False, pm_Stop = StopUnknown, pm_Fatal = None,
     pm_FirstToken = False, pm_Out = []\<rparr>"

definition emit :: "frame \<Rightarrow> pump \<Rightarrow> pump" where
  "emit f p = p\<lparr>pm_Out := pm_Out p @ [f]\<rparr>"

section \<open>Usage\<close>

definition nonzero_or :: "int \<Rightarrow> int \<Rightarrow> int" where
  "nonzero_or n old = (if n \<noteq> 0 then n else old)"

definition mergeStreamUsage :: "usage option \<Rightarrow> usage \<Rightarrow> usage" where
  "mergeStreamUsage prev nxt =
     (case prev of
        None \<Rightarrow> nxt
      | Some p \<Rightarrow>
          let m = p\<lparr>us_Prompt := nonzero_or (us_Prompt nxt) (us_Prompt p),
                    us_Completion := nonzero_or (us_Completion nxt) (us_Completion p),
                    us_Total := nonzero_or (us_Total nxt) (us_Total p),
                    us_CacheRead := nonzero_or (us_CacheRead nxt) (us_CacheRead p),
                    us_CacheWrite := nonzero_or (us_CacheWrite nxt) (us_CacheWrite p),
                    us_HasUpstream := us_HasUpstream p \<or> us_HasUpstream nxt\<rparr>
          in if us_Total m = 0 then m\<lparr>us_Total := add64 (us_Prompt m) (us_Completion m)\<rparr> else m)"

definition usageTokens :: "usage \<Rightarrow> int \<Rightarrow> int \<times> int \<times> int" where
  "usageTokens u estPrompt =
     (let prompt = (if us_Prompt u = 0 \<and> estPrompt > 0 then estPrompt else us_Prompt u);
          completion = us_Completion u;
          total = (if us_Total u = 0 then add64 prompt completion else us_Total u)
      in (prompt, completion, total))"

definition estimateTextTokens :: "string \<Rightarrow> int" where
  "estimateTextTokens t = (if t = [] then 0 else (int (length t) + 3) div 4)"

definition finalizeUsage :: "usage option \<Rightarrow> string \<Rightarrow> int \<Rightarrow> int \<times> int \<times> int" where
  "finalizeUsage u completionText estPrompt =
     (case u of
        Some x \<Rightarrow> usageTokens x estPrompt
      | None \<Rightarrow> (let comp = estimateTextTokens completionText in (estPrompt, comp, add64 estPrompt comp)))"

section \<open>Anthropic output\<close>

definition block_stop :: "int \<Rightarrow> frame" where
  "block_stop i = SSENamed ''content_block_stop''
     (JObj [(''index'', JInt i), (''type'', JStr ''content_block_stop'')])"

definition block_start :: "int \<Rightarrow> json \<Rightarrow> frame" where
  "block_start i b = SSENamed ''content_block_start''
     (JObj [(''content_block'', b), (''index'', JInt i), (''type'', JStr ''content_block_start'')])"

definition block_delta :: "int \<Rightarrow> json \<Rightarrow> frame" where
  "block_delta i d = SSENamed ''content_block_delta''
     (JObj [(''delta'', d), (''index'', JInt i), (''type'', JStr ''content_block_delta'')])"

text \<open>\<open>newid\<close> is the random id of the message.\<close>

definition message_start_frame :: "string \<Rightarrow> string \<Rightarrow> frame" where
  "message_start_frame newid model = SSENamed ''message_start''
     (JObj [(''message'', JObj
         [(''content'', JArr []), (''id'', JStr (''msg_'' @ newid)), (''model'', JStr model),
          (''role'', JStr ''assistant''), (''stop_reason'', JNull), (''type'', JStr ''message''),
          (''usage'', JObj [(''input_tokens'', JInt 0), (''output_tokens'', JInt 0)])]),
       (''type'', JStr ''message_start'')])"

definition emitAnthropicPrelude :: "string \<Rightarrow> string \<Rightarrow> pump \<Rightarrow> pump" where
  "emitAnthropicPrelude newid model p =
     (if pm_AnthOpened p then p
      else emit (message_start_frame newid model) (p\<lparr>pm_AnthOpened := True\<rparr>))"

definition openAnthropicText :: "string \<Rightarrow> string \<Rightarrow> pump \<Rightarrow> pump" where
  "openAnthropicText newid model p =
     (let p = emitAnthropicPrelude newid model p in
      if pm_AnthTextOpen p then p
      else emit (block_start 0 (JObj [(''text'', JStr []), (''type'', JStr ''text'')]))
             (p\<lparr>pm_AnthTextOpen := True\<rparr>))"

definition closeAnthToolBlock :: "pump \<Rightarrow> pump" where
  "closeAnthToolBlock p =
     (if pm_AnthToolIdx p > 0 then (emit (block_stop (pm_AnthToolIdx p)) p)\<lparr>pm_AnthToolIdx := 0\<rparr> else p)"

definition closeAnthText :: "pump \<Rightarrow> pump" where
  "closeAnthText p =
     (if pm_AnthTextOpen p then (emit (block_stop 0) p)\<lparr>pm_AnthTextOpen := False\<rparr> else p)"

definition open_tool_block :: "tool_call_delta \<Rightarrow> pump \<Rightarrow> pump" where
  "open_tool_block tc p =
     (let p = closeAnthText (closeAnthToolBlock p);
          i = add64 (tc_Index tc) 1; i = (if i < 1 then 1 else i)
      in emit (block_start i (JObj
           [(''id'', JStr (tc_ID tc)), (''input'', JObj []), (''name'', JStr (tc_Name tc)),
            (''type'', JStr ''tool_use'')]))
         (p\<lparr>pm_AnthToolIdx := i\<rparr>))"

definition emitAnthropic :: "string \<Rightarrow> string \<Rightarrow> stream_chunk \<Rightarrow> pump \<Rightarrow> pump" where
  "emitAnthropic newid model chunk p =
     (case sc_ToolCallDelta chunk of
        Some tc \<Rightarrow>
          (let p = emitAnthropicPrelude newid model p;
               p = (if tc_Name tc \<noteq> [] then open_tool_block tc p else p)
           in if tc_Args tc \<noteq> [] \<and> pm_AnthToolIdx p > 0 then
                emit (block_delta (pm_AnthToolIdx p) (JObj
                  [(''partial_json'', JStr (tc_Args tc)), (''type'', JStr ''input_json_delta'')])) p
              else p)
      | None \<Rightarrow>
          if sc_Delta chunk \<noteq> [] then
            emit (block_delta 0 (JObj [(''text'', JStr (sc_Delta chunk)), (''type'', JStr ''text_delta'')]))
              (openAnthropicText newid model p)
          else p)"

section \<open>Other output\<close>

definition emitBedrockPrelude :: "pump \<Rightarrow> pump" where
  "emitBedrockPrelude p =
     (if pm_BedrockOpened p then p
      else emit (BedrockFrame ''contentBlockStart'' BedrockContentBlockStartPayload)
             (emit (BedrockFrame ''messageStart'' BedrockMessageStartPayload)
               (p\<lparr>pm_BedrockOpened := True\<rparr>)))"

definition ensurePrelude :: "string \<Rightarrow> string \<Rightarrow> string \<Rightarrow> pump \<Rightarrow> pump" where
  "ensurePrelude out newid model p =
     (if out = OutAnthropic then emitAnthropicPrelude newid model p
      else if out = OutBedrock then emitBedrockPrelude p
      else p)"

definition emitChunk :: "string \<Rightarrow> string \<Rightarrow> string \<Rightarrow> stream_chunk \<Rightarrow> pump \<Rightarrow> pump" where
  "emitChunk out newid model chunk p =
     (if out = OutAnthropic then
        (case BuildAnthropicStreamEvent chunk of
           None \<Rightarrow> p
         | Some (event, payload) \<Rightarrow>
             emit (SSENamed event payload)
               (if event = ''content_block_delta'' then ensurePrelude out newid model p else p))
      else if out = OutBedrock then
        (case BuildBedrockStreamEvent chunk of
           None \<Rightarrow> p
         | Some (eventType, payload) \<Rightarrow>
             emit (BedrockFrame eventType payload) (ensurePrelude out newid model p))
      else
        (case BuildOpenAIStreamChunk model chunk of
           None \<Rightarrow> p
         | Some obj \<Rightarrow> emit (SSEJson obj) p))"

section \<open>One event\<close>

definition record_chunk :: "stream_chunk \<Rightarrow> pump \<Rightarrow> stream_chunk \<times> pump" where
  "record_chunk chunk p =
     (let usage = (case sc_Usage chunk of None \<Rightarrow> pm_Usage p | Some u \<Rightarrow> Some (mergeStreamUsage (pm_Usage p) u));
          chunk' = (case sc_Usage chunk of None \<Rightarrow> chunk | Some _ \<Rightarrow> chunk\<lparr>sc_Usage := usage\<rparr>)
      in (chunk', p\<lparr>pm_Usage := usage,
            pm_Completion := pm_Completion p @ sc_Delta chunk,
            pm_FirstToken := pm_FirstToken p \<or> sc_Delta chunk \<noteq> [] \<or> sc_ToolCallDelta chunk \<noteq> None,
            pm_Stop := (if sc_StopReason chunk \<noteq> StopUnknown then sc_StopReason chunk else pm_Stop p)\<rparr>))"

definition process :: "string \<Rightarrow> string \<Rightarrow> string \<Rightarrow> parsed \<Rightarrow> pump \<Rightarrow> pump" where
  "process out newid model parsed p =
     (case parsed of
        None \<Rightarrow> p
      | Some (chunk, meaningful) \<Rightarrow>
          (case sc_UpstreamErr chunk of
             Some ue \<Rightarrow> p\<lparr>pm_Fatal := Some (UpstreamFatal ue)\<rparr>
           | None \<Rightarrow>
               (let (chunk, p) = record_chunk chunk p in
                if \<not> meaningful \<and> \<not> sc_Done chunk then p
                else if out = OutAnthropic then emitAnthropic newid model chunk p
                else emitChunk out newid model chunk p)))"

section \<open>The loop\<close>

definition readTerminalErr :: "read_err option \<Rightarrow> pump \<Rightarrow> pump" where
  "readTerminalErr err p =
     (case err of
        Some e \<Rightarrow> if e \<noteq> ReadEOF then p\<lparr>pm_Fatal := Some (ReadFailed e)\<rparr> else p
      | None \<Rightarrow> p)"

text \<open>
  \<open>c.Stream\<close>: after \<open>gone\<close> events, if that is \<open>Some\<close> number, the client is found to have left;
  otherwise the events are drained and then the terminal error is read.
\<close>

fun stream_loop :: "(stream_event \<Rightarrow> pump \<Rightarrow> pump) \<Rightarrow> nat option \<Rightarrow> stream_event list \<Rightarrow>
    read_err option \<Rightarrow> pump \<Rightarrow> pump" where
  "stream_loop step gone [] err p =
     (if pm_Fatal p \<noteq> None \<or> gone = Some 0 then p else readTerminalErr err p)"
| "stream_loop step gone (ev # evs) err p =
     (if pm_Fatal p \<noteq> None \<or> gone = Some 0 then p
      else stream_loop step (map_option (\<lambda>n. n - 1) gone) evs err (step ev p))"

definition terminal_framing :: "string \<Rightarrow> string \<Rightarrow> string \<Rightarrow> pump \<Rightarrow> pump" where
  "terminal_framing out newid model p =
     (if out = OutAnthropic then
        (let p = closeAnthText (closeAnthToolBlock (emitAnthropicPrelude newid model p));
             md = JObj ([(''delta'', JObj [(''stop_reason'', JStr (stopToAnthropic (pm_Stop p)))]),
                         (''type'', JStr ''message_delta'')]
                  @ (case pm_Usage p of None \<Rightarrow> [] | Some u \<Rightarrow> [(''usage'', AnthropicStreamDeltaUsage u)]))
         in emit (SSENamed ''message_stop'' (JObj [(''type'', JStr ''message_stop'')]))
              (emit (SSENamed ''message_delta'' md) p))
      else if out = OutBedrock then
        (let p = emitBedrockPrelude p;
             mu = (case pm_Usage p of None \<Rightarrow> empty_usage | Some u \<Rightarrow> u)
         in emit (BedrockFrame ''metadata'' (BedrockMetadataPayload mu))
              (emit (BedrockFrame ''messageStop'' (BedrockMessageStopPayload (pm_Stop p)))
                (emit (BedrockFrame ''contentBlockStop'' BedrockContentBlockStopPayload) p)))
      else emit (SSEData ''[DONE]'') p)"

definition pumpStream :: "string \<Rightarrow> string \<Rightarrow> string \<Rightarrow> string \<Rightarrow> nat option \<Rightarrow> body_end \<Rightarrow> string \<Rightarrow> pump" where
  "pumpStream adapter out newid model gone bend body =
     (let (evs, err) = upstreamEvents adapter bend body;
          step = (\<lambda>ev. process out newid model (ParseStreamChunk adapter (ev_Type ev) (ev_Payload ev)))
      in terminal_framing out newid model (stream_loop step gone evs err pump_init))"

section \<open>Passthrough\<close>

text \<open>The view of an event the passthrough pump takes: a subset of \<open>anthropic_event\<close>.\<close>

definition dec_start_usage :: "anthropic_start decoder" where
  "dec_start_usage = dec_record
     [(''usage'', into as_Usage (\<lambda>v r. r\<lparr>as_Usage := v\<rparr>) (dec_ptr zero_anthropic_usage dec_anthropic_usage))]"

definition dec_passthrough_event :: "anthropic_event decoder" where
  "dec_passthrough_event = dec_record
     [(''type'', into ae_Type (\<lambda>v r. r\<lparr>ae_Type := v\<rparr>) dec_str),
      (''message'', into ae_Message (\<lambda>v r. r\<lparr>ae_Message := v\<rparr>) (dec_ptr zero_start dec_start_usage)),
      (''delta'', into ae_Delta (\<lambda>v r. r\<lparr>ae_Delta := v\<rparr>) (dec_ptr zero_delta (dec_record
         [(''type'', into ad_Type (\<lambda>v r. r\<lparr>ad_Type := v\<rparr>) dec_str),
          (''text'', into ad_Text (\<lambda>v r. r\<lparr>ad_Text := v\<rparr>) dec_str),
          (''stop_reason'', into ad_StopReason (\<lambda>v r. r\<lparr>ad_StopReason := v\<rparr>) dec_str)]))),
      (''usage'', into ae_Usage (\<lambda>v r. r\<lparr>ae_Usage := v\<rparr>) (dec_ptr zero_anthropic_usage (dec_record
         [(''output_tokens'', into au_Output (\<lambda>v r. r\<lparr>au_Output := v\<rparr>) dec_gint)]))),
      (''error'', into ae_Error (\<lambda>v r. r\<lparr>ae_Error := v\<rparr>) (dec_ptr zero_error dec_anthropic_error))]"

definition passthrough_process :: "stream_event \<Rightarrow> pump \<Rightarrow> pump" where
  "passthrough_process raw p =
     (let payload = ev_Payload raw;
          ev = unmarshal_lenient dec_passthrough_event zero_anthropic_event payload;
          forward = emit (SSENamedBytes (ae_Type ev) payload) in
      if ae_Type ev = ''error'' then
        forward (p\<lparr>pm_Fatal := Some (UpstreamFatal
          \<lparr>ue_Provider = ''anthropic'', ue_StatusCode = 502, ue_Message = error_message (ae_Error ev), ue_Body = []\<rparr>)\<rparr>)
      else
        (let p = (case ae_Message ev of
               Some m \<Rightarrow> (case as_Usage m of
                   Some u \<Rightarrow> p\<lparr>pm_Usage := Some (mergeStreamUsage (pm_Usage p)
                      (part_usage (au_Input u) 0 (au_CacheRead u) (au_CacheCreation u)))\<rparr>
                 | None \<Rightarrow> p)
             | None \<Rightarrow> p);
             p = (case ae_Usage ev of
               Some u \<Rightarrow> p\<lparr>pm_Usage := Some (mergeStreamUsage (pm_Usage p) (part_usage 0 (au_Output u) 0 0))\<rparr>
             | None \<Rightarrow> p);
             p = (case ae_Delta ev of
               Some d \<Rightarrow>
                 (if ad_Type d = ''text_delta'' \<and> ad_Text d \<noteq> [] then
                    p\<lparr>pm_Completion := pm_Completion p @ ad_Text d, pm_FirstToken := True\<rparr>
                  else if ad_Type d = ''input_json_delta'' then p\<lparr>pm_FirstToken := True\<rparr>
                  else p)
             | None \<Rightarrow> p)
         in forward p))"

definition pumpAnthropicPassthrough :: "nat option \<Rightarrow> body_end \<Rightarrow> string \<Rightarrow> pump" where
  "pumpAnthropicPassthrough gone bend body =
     (let (evs, err) = upstreamEvents ''anthropic'' bend body
      in stream_loop passthrough_process gone evs err pump_init)"

definition upstreamHTTPStatus :: "stream_error \<Rightarrow> int" where
  "upstreamHTTPStatus err =
     (case err of
        UpstreamFatal ue \<Rightarrow>
          if ue_StatusCode ue < 400 \<or> ue_StatusCode ue > 599 then 502 else ue_StatusCode ue
      | ReadFailed _ \<Rightarrow> 0)"

section \<open>Content blocks of Anthropic output\<close>

text \<open>
  A monitor of the block protocol: the set of open blocks, \<open>None\<close> once the protocol is
  violated by starting an open block, a delta or stop for a block that is not open, or any
  other event.
\<close>

definition frame_index :: "frame \<Rightarrow> (string \<times> int) option" where
  "frame_index f = (case f of
     SSENamed ev (JObj kvs) \<Rightarrow> (case map_of kvs ''index'' of Some (JInt i) \<Rightarrow> Some (ev, i) | _ \<Rightarrow> None)
   | _ \<Rightarrow> None)"

definition block_step :: "int set option \<Rightarrow> frame \<Rightarrow> int set option" where
  "block_step s f = (case s of
     None \<Rightarrow> None
   | Some B \<Rightarrow>
       (case frame_index f of
          None \<Rightarrow> None
        | Some (ev, i) \<Rightarrow>
            if ev = ''content_block_start'' then (if i \<in> B then None else Some (insert i B))
            else if ev = ''content_block_delta'' then (if i \<in> B then Some B else None)
            else if ev = ''content_block_stop'' then (if i \<in> B then Some (B - {i}) else None)
            else None))"

definition blocks_run :: "frame list \<Rightarrow> int set option" where
  "blocks_run fs = foldl block_step (Some {}) fs"

lemma blocks_run_snoc [simp]: "blocks_run (fs @ [f]) = block_step (blocks_run fs) f"
  by (simp add: blocks_run_def)

lemma blocks_run_Nil [simp]: "blocks_run [] = Some {}"
  by (simp add: blocks_run_def)

lemma block_step_frames [simp]:
  "block_step (Some B) (block_start i b) = (if i \<in> B then None else Some (insert i B))"
  "block_step (Some B) (block_delta i d) = (if i \<in> B then Some B else None)"
  "block_step (Some B) (block_stop i) = (if i \<in> B then Some (B - {i}) else None)"
  by (simp_all add: block_step_def frame_index_def block_start_def block_delta_def block_stop_def)

definition open_blocks :: "pump \<Rightarrow> int set" where
  "open_blocks p = (if pm_AnthTextOpen p then {0} else {})
     \<union> (if pm_AnthToolIdx p > 0 then {pm_AnthToolIdx p} else {})"

text \<open>What holds between events: nothing is written before \<open>message_start\<close>, and after it
  exactly the blocks the pump believes open are open.\<close>

definition opened_inv :: "string \<Rightarrow> string \<Rightarrow> pump \<Rightarrow> bool" where
  "opened_inv newid model p \<longleftrightarrow> pm_AnthOpened p \<and> 0 \<le> pm_AnthToolIdx p
     \<and> (\<exists>mid. pm_Out p = message_start_frame newid model # mid \<and> blocks_run mid = Some (open_blocks p))"

definition anth_inv :: "string \<Rightarrow> string \<Rightarrow> pump \<Rightarrow> bool" where
  "anth_inv newid model p \<longleftrightarrow> opened_inv newid model p
     \<or> (\<not> pm_AnthOpened p \<and> pm_Out p = [] \<and> \<not> pm_AnthTextOpen p \<and> pm_AnthToolIdx p = 0)"

lemma emit_sel [simp]:
  "pm_Out (emit f p) = pm_Out p @ [f]" "pm_AnthOpened (emit f p) = pm_AnthOpened p"
  "pm_AnthTextOpen (emit f p) = pm_AnthTextOpen p" "pm_AnthToolIdx (emit f p) = pm_AnthToolIdx p"
  "pm_Usage (emit f p) = pm_Usage p" "pm_Completion (emit f p) = pm_Completion p"
  "pm_Stop (emit f p) = pm_Stop p" "pm_Fatal (emit f p) = pm_Fatal p"
  "pm_BedrockOpened (emit f p) = pm_BedrockOpened p" "pm_FirstToken (emit f p) = pm_FirstToken p"
  by (simp_all add: emit_def)

lemma opened_snoc:
  "opened_inv newid model p \<Longrightarrow> pm_AnthOpened p' \<Longrightarrow> 0 \<le> pm_AnthToolIdx p' \<Longrightarrow> pm_Out p' = pm_Out p @ [f] \<Longrightarrow>
     block_step (Some (open_blocks p)) f = Some (open_blocks p') \<Longrightarrow> opened_inv newid model p'"
proof -
  assume p: "opened_inv newid model p" and p': "pm_AnthOpened p'" "0 \<le> pm_AnthToolIdx p'"
    "pm_Out p' = pm_Out p @ [f]" "block_step (Some (open_blocks p)) f = Some (open_blocks p')"
  from p obtain mid where "pm_Out p = message_start_frame newid model # mid"
    "blocks_run mid = Some (open_blocks p)"
    unfolding opened_inv_def by blast
  with p' have "pm_Out p' = message_start_frame newid model # (mid @ [f])"
    "blocks_run (mid @ [f]) = Some (open_blocks p')"
    by simp_all
  with p' show ?thesis unfolding opened_inv_def by blast
qed

lemma prelude_opened: "anth_inv newid model p \<Longrightarrow> opened_inv newid model (emitAnthropicPrelude newid model p)"
  by (auto simp: anth_inv_def emitAnthropicPrelude_def opened_inv_def open_blocks_def)

lemma opened_anth: "opened_inv newid model p \<Longrightarrow> anth_inv newid model p"
  by (simp add: anth_inv_def)

lemma closeTool_opened:
  assumes "opened_inv newid model p"
  shows "opened_inv newid model (closeAnthToolBlock p) \<and> pm_AnthToolIdx (closeAnthToolBlock p) = 0
    \<and> pm_AnthTextOpen (closeAnthToolBlock p) = pm_AnthTextOpen p"
proof (cases "pm_AnthToolIdx p > 0")
  case True
  then have "opened_inv newid model (closeAnthToolBlock p)"
    using assms
    by (intro opened_snoc [OF assms, of _ "block_stop (pm_AnthToolIdx p)"])
      (auto simp: closeAnthToolBlock_def open_blocks_def opened_inv_def)
  with True show ?thesis by (simp add: closeAnthToolBlock_def)
next
  case False
  with assms show ?thesis by (simp add: closeAnthToolBlock_def opened_inv_def)
qed

lemma closeText_opened:
  assumes "opened_inv newid model p"
  shows "opened_inv newid model (closeAnthText p) \<and> \<not> pm_AnthTextOpen (closeAnthText p)
    \<and> pm_AnthToolIdx (closeAnthText p) = pm_AnthToolIdx p"
proof (cases "pm_AnthTextOpen p")
  case True
  then have "opened_inv newid model (closeAnthText p)"
    using assms
    by (intro opened_snoc [OF assms, of _ "block_stop 0"])
      (auto simp: closeAnthText_def open_blocks_def opened_inv_def)
  with True show ?thesis by (simp add: closeAnthText_def)
next
  case False
  with assms show ?thesis by (simp add: closeAnthText_def)
qed

lemma openText_opened:
  assumes "anth_inv newid model p"
  shows "opened_inv newid model (openAnthropicText newid model p) \<and> pm_AnthTextOpen (openAnthropicText newid model p)"
proof -
  let ?q = "emitAnthropicPrelude newid model p"
  note q = prelude_opened [OF assms]
  show ?thesis
  proof (cases "pm_AnthTextOpen ?q")
    case True
    with q show ?thesis by (simp add: openAnthropicText_def Let_def)
  next
    case False
    let ?f = "block_start 0 (JObj [(''text'', JStr []), (''type'', JStr ''text'')])"
    have "openAnthropicText newid model p = emit ?f (?q\<lparr>pm_AnthTextOpen := True\<rparr>)"
      using False by (simp add: openAnthropicText_def Let_def)
    moreover have "opened_inv newid model (emit ?f (?q\<lparr>pm_AnthTextOpen := True\<rparr>))"
      using q False by (intro opened_snoc [OF q, of _ ?f]) (auto simp: opened_inv_def open_blocks_def)
    ultimately show ?thesis by simp
  qed
qed

lemma open_tool_opened:
  assumes "opened_inv newid model p"
  shows "opened_inv newid model (open_tool_block tc p)"
proof -
  let ?q = "closeAnthText (closeAnthToolBlock p)"
  have q: "opened_inv newid model ?q" "\<not> pm_AnthTextOpen ?q" "pm_AnthToolIdx ?q = 0"
    using closeTool_opened [OF assms] closeText_opened [of newid model "closeAnthToolBlock p"] by auto
  define i where "i = (if add64 (tc_Index tc) 1 < 1 then 1 else add64 (tc_Index tc) 1)"
  have "1 \<le> i" by (simp add: i_def)
  with q show ?thesis
    unfolding open_tool_block_def Let_def i_def [symmetric]
    by (intro opened_snoc [OF q(1)]) (auto simp: opened_inv_def open_blocks_def)
qed

lemma emitAnthropic_inv:
  assumes "anth_inv newid model p"
  shows "anth_inv newid model (emitAnthropic newid model chunk p)"
proof (cases "sc_ToolCallDelta chunk")
  case None
  show ?thesis
  proof (cases "sc_Delta chunk = []")
    case False
    let ?d = "JObj [(''text'', JStr (sc_Delta chunk)), (''type'', JStr ''text_delta'')]"
    let ?q = "openAnthropicText newid model p"
    have q: "opened_inv newid model ?q" "pm_AnthTextOpen ?q" using openText_opened [OF assms] by auto
    have "opened_inv newid model (emit (block_delta 0 ?d) ?q)"
      using q by (intro opened_snoc [OF q(1), of _ "block_delta 0 ?d"]) (auto simp: opened_inv_def open_blocks_def)
    with None False show ?thesis by (simp add: emitAnthropic_def opened_anth)
  qed (simp add: emitAnthropic_def None assms)
next
  case (Some tc)
  let ?d = "JObj [(''partial_json'', JStr (tc_Args tc)), (''type'', JStr ''input_json_delta'')]"
  define q where "q = (if tc_Name tc \<noteq> [] then open_tool_block tc (emitAnthropicPrelude newid model p)
    else emitAnthropicPrelude newid model p)"
  have q: "opened_inv newid model q"
    using prelude_opened [OF assms] by (simp add: q_def open_tool_opened)
  have "opened_inv newid model (emit (block_delta (pm_AnthToolIdx q) ?d) q)" if "pm_AnthToolIdx q > 0"
    using q that by (intro opened_snoc [OF q, of _ "block_delta (pm_AnthToolIdx q) ?d"])
      (auto simp: opened_inv_def open_blocks_def)
  with q show ?thesis
    unfolding emitAnthropic_def Some option.case Let_def q_def [symmetric] by (simp add: opened_anth)
qed

lemma record_chunk_sel:
  assumes "record_chunk chunk p = (chunk', p')"
  shows "pm_Out p' = pm_Out p" "pm_AnthOpened p' = pm_AnthOpened p" "pm_AnthTextOpen p' = pm_AnthTextOpen p"
    "pm_AnthToolIdx p' = pm_AnthToolIdx p" "pm_BedrockOpened p' = pm_BedrockOpened p"
    "pm_Fatal p' = pm_Fatal p" "pm_Completion p' = pm_Completion p @ sc_Delta chunk"
    "sc_Delta chunk' = sc_Delta chunk" "sc_ToolCallDelta chunk' = sc_ToolCallDelta chunk"
    "sc_Done chunk' = sc_Done chunk" "sc_StopReason chunk' = sc_StopReason chunk"
  using assms by (auto simp: record_chunk_def Let_def split: option.splits)

lemma anth_inv_cong:
  "anth_inv newid model p \<Longrightarrow> pm_Out p' = pm_Out p \<Longrightarrow> pm_AnthOpened p' = pm_AnthOpened p \<Longrightarrow>
     pm_AnthTextOpen p' = pm_AnthTextOpen p \<Longrightarrow> pm_AnthToolIdx p' = pm_AnthToolIdx p \<Longrightarrow> anth_inv newid model p'"
proof -
  assume a: "anth_inv newid model p" "pm_Out p' = pm_Out p" "pm_AnthOpened p' = pm_AnthOpened p"
    "pm_AnthTextOpen p' = pm_AnthTextOpen p" "pm_AnthToolIdx p' = pm_AnthToolIdx p"
  then have "open_blocks p' = open_blocks p" by (simp add: open_blocks_def)
  with a show ?thesis by (simp add: anth_inv_def opened_inv_def)
qed

lemma process_inv:
  assumes "anth_inv newid model p"
  shows "anth_inv newid model (process OutAnthropic newid model parsed p)"
proof (cases parsed)
  case None
  with assms show ?thesis by (simp add: process_def)
next
  case (Some cm)
  obtain chunk m where cm: "cm = (chunk, m)" by fastforce
  show ?thesis
  proof (cases "sc_UpstreamErr chunk")
    case (Some ue)
    then show ?thesis
      using assms \<open>parsed = Some cm\<close> by (simp add: process_def cm anth_inv_cong [OF assms])
  next
    case None
    obtain chunk' p' where r: "record_chunk chunk p = (chunk', p')" by fastforce
    have "anth_inv newid model p'"
      using record_chunk_sel [OF r] by (intro anth_inv_cong [OF assms]) auto
    then show ?thesis
      using None \<open>parsed = Some cm\<close> emitAnthropic_inv [of newid model p' chunk']
      by (simp add: process_def cm r)
  qed
qed

lemma stream_loop_inv:
  assumes "P p" "\<And>ev p. P p \<Longrightarrow> P (step ev p)" "\<And>p e. P p \<Longrightarrow> P (p\<lparr>pm_Fatal := e\<rparr>)"
  shows "P (stream_loop step gone evs err p)"
  using assms(1)
proof (induction evs arbitrary: p gone)
  case Nil
  then show ?case using assms(3) by (auto simp: readTerminalErr_def split: option.splits)
next
  case (Cons ev evs)
  then show ?case using assms(2) by simp
qed

lemma pump_init_inv: "anth_inv newid model pump_init"
  by (simp add: anth_inv_def pump_init_def)

definition run_pump :: "string \<Rightarrow> string \<Rightarrow> string \<Rightarrow> string \<Rightarrow> nat option \<Rightarrow> body_end \<Rightarrow> string \<Rightarrow> pump" where
  "run_pump adapter out newid model gone bend body =
     (let (evs, err) = upstreamEvents adapter bend body in
      stream_loop (\<lambda>ev. process out newid model (ParseStreamChunk adapter (ev_Type ev) (ev_Payload ev)))
        gone evs err pump_init)"

lemma pumpStream_run:
  "pumpStream adapter out newid model gone bend body =
     terminal_framing out newid model (run_pump adapter out newid model gone bend body)"
  by (simp add: pumpStream_def run_pump_def Let_def split: prod.split)

lemma run_pump_inv: "anth_inv newid model (run_pump adapter OutAnthropic newid model gone bend body)"
  unfolding run_pump_def
  by (simp add: Let_def split: prod.split)
    (intro allI impI stream_loop_inv [where P = "anth_inv newid model"] pump_init_inv process_inv;
     erule anth_inv_cong; simp)


text \<open>Text that arrives while a tool block is open is streamed without closing that block.\<close>

lemma text_overlaps_tool_block:
  assumes "opened_inv newid model p" "0 < pm_AnthToolIdx p" "\<not> pm_AnthTextOpen p"
    "sc_ToolCallDelta chunk = None" "sc_Delta chunk \<noteq> []"
  shows "open_blocks (emitAnthropic newid model chunk p) = {0, pm_AnthToolIdx p}"
  using assms
  by (auto simp: emitAnthropic_def openAnthropicText_def emitAnthropicPrelude_def open_blocks_def
      opened_inv_def Let_def)

section \<open>Text\<close>

text \<open>The text a frame delivers to the client, in each dialect.\<close>

definition member :: "string \<Rightarrow> json option \<Rightarrow> json option" where
  "member k j = (case j of Some (JObj kvs) \<Rightarrow> map_of kvs k | _ \<Rightarrow> None)"

definition json_text :: "json option \<Rightarrow> string" where
  "json_text j = (case j of Some (JStr s) \<Rightarrow> s | _ \<Rightarrow> [])"

definition first_elem :: "json option \<Rightarrow> json option" where
  "first_elem j = (case j of Some (JArr (x # _)) \<Rightarrow> Some x | _ \<Rightarrow> None)"

fun frame_text :: "frame \<Rightarrow> string" where
  "frame_text (SSENamed _ j) = json_text (member ''text'' (member ''delta'' (Some j)))"
| "frame_text (SSEJson j) =
     json_text (member ''content'' (member ''delta'' (first_elem (member ''choices'' (Some j)))))"
| "frame_text (BedrockFrame _ j) = json_text (member ''text'' (member ''delta'' (Some j)))"
| "frame_text _ = []"

definition text_of :: "frame list \<Rightarrow> string" where
  "text_of fs = concat (map frame_text fs)"

lemmas text_simps = text_of_def member_def json_text_def first_elem_def

lemma text_of_append [simp]: "text_of (fs @ [f]) = text_of fs @ frame_text f"
  by (simp add: text_of_def)

lemma frame_text_framing [simp]:
  "frame_text (block_start i b) = []" "frame_text (block_stop i) = []"
  "frame_text (message_start_frame newid model) = []"
  "frame_text (block_delta i (JObj [(''text'', JStr t), k])) = t"
  "frame_text (block_delta i (JObj [(''partial_json'', JStr t), (''type'', k')])) = []"
  by (simp_all add: block_start_def block_stop_def block_delta_def message_start_frame_def text_simps)

lemma text_prelude [simp]: "text_of (pm_Out (emitAnthropicPrelude newid model p)) = text_of (pm_Out p)"
  by (simp add: emitAnthropicPrelude_def)

lemma text_close [simp]:
  "text_of (pm_Out (closeAnthText p)) = text_of (pm_Out p)"
  "text_of (pm_Out (closeAnthToolBlock p)) = text_of (pm_Out p)"
  by (simp_all add: closeAnthText_def closeAnthToolBlock_def)

lemma text_open [simp]:
  "text_of (pm_Out (openAnthropicText newid model p)) = text_of (pm_Out p)"
  "text_of (pm_Out (open_tool_block tc p)) = text_of (pm_Out p)"
  by (simp_all add: openAnthropicText_def open_tool_block_def Let_def)

lemma text_bedrock_prelude [simp]: "text_of (pm_Out (emitBedrockPrelude p)) = text_of (pm_Out p)"
  by (simp add: emitBedrockPrelude_def BedrockContentBlockStartPayload_def BedrockMessageStartPayload_def
      text_simps)

lemma text_emitAnthropic:
  "text_of (pm_Out (emitAnthropic newid model chunk p)) =
     text_of (pm_Out p) @ (if sc_ToolCallDelta chunk = None then sc_Delta chunk else [])"
  by (simp add: emitAnthropic_def Let_def split: option.split)

lemma text_openai:
  "BuildOpenAIStreamChunk model chunk = Some j \<Longrightarrow> frame_text (SSEJson j) = sc_Delta chunk"
  "BuildOpenAIStreamChunk model chunk = None \<Longrightarrow> sc_Delta chunk = []"
proof -
  have "frame_text (SSEJson (openai_chunk_obj model [JObj [(''delta'', openai_delta_obj chunk), fr, i]] u)) =
      sc_Delta chunk" for fr i u
    by (simp add: openai_chunk_obj_def openai_delta_obj_def text_simps split: option.split)
  moreover have "frame_text (SSEJson (openai_chunk_obj model [] u)) = []" for u
    by (simp add: openai_chunk_obj_def text_simps)
  ultimately show "BuildOpenAIStreamChunk model chunk = Some j \<Longrightarrow> frame_text (SSEJson j) = sc_Delta chunk"
    unfolding BuildOpenAIStreamChunk_def by (auto split: if_splits)
  show "BuildOpenAIStreamChunk model chunk = None \<Longrightarrow> sc_Delta chunk = []"
    by (simp add: BuildOpenAIStreamChunk_def split: if_splits)
qed

lemma text_emitChunk:
  assumes "out \<noteq> OutAnthropic"
  shows "text_of (pm_Out (emitChunk out newid model chunk p)) = text_of (pm_Out p) @ sc_Delta chunk"
proof (cases "out = OutBedrock")
  case True
  then show ?thesis
    using assms by (auto simp: emitChunk_def BuildBedrockStreamEvent_def ensurePrelude_def)
      (simp add: text_simps)
next
  case False
  then show ?thesis
    using assms text_openai [of model chunk] by (auto simp: emitChunk_def split: option.split)
qed

text \<open>What the parsers guarantee: a chunk with text is meaningful, and only OpenAI chunks
  carry text together with a tool call.\<close>

definition parsed_ok :: "string \<Rightarrow> parsed \<Rightarrow> bool" where
  "parsed_ok adapter r = (case r of None \<Rightarrow> True
     | Some (c, m) \<Rightarrow> (sc_Delta c \<noteq> [] \<longrightarrow> m) \<and> (adapter \<noteq> ''openai'' \<longrightarrow> sc_Delta c = [] \<or> sc_ToolCallDelta c = None))"

lemma empty_chunk_sel [simp]:
  "sc_Delta empty_chunk = []" "sc_ToolCallDelta empty_chunk = None" "sc_UpstreamErr empty_chunk = None"
  "sc_Done empty_chunk = False" "sc_StopReason empty_chunk = StopUnknown" "sc_Usage empty_chunk = None"
  by (simp_all add: empty_chunk_def)

lemma parse_openai_ok: "parsed_ok ''openai'' (openai_ParseStreamChunk t s)"
  by (simp add: parsed_ok_def openai_ParseStreamChunk_def meaningful_chunk_def Let_def split: option.split)

lemma parse_anthropic_ok: "parsed_ok a (anthropic_ParseStreamChunk t s)"
  by (auto simp: parsed_ok_def anthropic_ParseStreamChunk_def anthropic_event_chunk_def Let_def
      split: option.splits if_splits)

lemma parse_wrapped_ok: "parsed_ok a (parseWrappedStreamEvent s)"
  by (auto simp: parsed_ok_def parseWrappedStreamEvent_def bedrock_result_def meaningful_chunk_def
      split: option.splits)

lemma parse_bedrock_ok: "parsed_ok a (bedrock_ParseStreamChunk t s)"
proof (cases "trim_space s = [] \<or> t = []")
  case True
  then show ?thesis using parse_wrapped_ok [of a "trim_space s"]
    by (auto simp: bedrock_ParseStreamChunk_def Let_def parsed_ok_def)
next
  case False
  then show ?thesis
    by (auto simp: parsed_ok_def bedrock_ParseStreamChunk_def bedrock_result_def meaningful_chunk_def Let_def
        split: option.splits if_splits prod.splits)
qed

lemma parse_ok: "parsed_ok adapter (ParseStreamChunk adapter t s)"
  by (simp add: ParseStreamChunk_def parse_openai_ok parse_anthropic_ok parse_bedrock_ok)

lemma process_text:
  assumes "parsed_ok adapter r" "out \<noteq> OutAnthropic \<or> adapter \<noteq> ''openai''"
    "text_of (pm_Out p) = pm_Completion p"
  shows "text_of (pm_Out (process out newid model r p)) = pm_Completion (process out newid model r p)"
proof (cases r)
  case None
  with assms show ?thesis by (simp add: process_def)
next
  case (Some cm)
  obtain chunk m where cm: "cm = (chunk, m)" by fastforce
  show ?thesis
  proof (cases "sc_UpstreamErr chunk")
    case (Some ue)
    with assms \<open>r = Some cm\<close> show ?thesis by (simp add: process_def cm)
  next
    case None
    obtain chunk' p' where rc: "record_chunk chunk p = (chunk', p')" by fastforce
    have c: "sc_Delta chunk \<noteq> [] \<longrightarrow> m" "adapter \<noteq> ''openai'' \<longrightarrow> sc_Delta chunk = [] \<or> sc_ToolCallDelta chunk = None"
      using assms(1) \<open>r = Some cm\<close> by (simp_all add: parsed_ok_def cm)
    have comp: "pm_Completion (emitAnthropic newid model chunk' p') = pm_Completion p'"
      "pm_Completion (emitChunk out newid model chunk' p') = pm_Completion p'"
      by (simp_all add: emitAnthropic_def emitChunk_def ensurePrelude_def openAnthropicText_def
          emitAnthropicPrelude_def open_tool_block_def closeAnthText_def closeAnthToolBlock_def
          emitBedrockPrelude_def Let_def split: option.split prod.split)
    show ?thesis
      using assms(2,3) c comp None \<open>r = Some cm\<close> record_chunk_sel [OF rc]
        text_emitAnthropic [of newid model chunk' p'] text_emitChunk [of out newid model chunk' p']
      by (auto simp: process_def cm rc)
  qed
qed

lemma run_pump_text:
  assumes "out \<noteq> OutAnthropic \<or> adapter \<noteq> ''openai''"
  shows "text_of (pm_Out (run_pump adapter out newid model gone bend body)) =
    pm_Completion (run_pump adapter out newid model gone bend body)"
  unfolding run_pump_def
  by (simp add: Let_def split: prod.split)
    (intro allI impI stream_loop_inv [where P = "\<lambda>p. text_of (pm_Out p) = pm_Completion p"]
      process_text [OF parse_ok assms]; simp add: pump_init_def text_of_def)

lemma terminal_framing_text:
  "text_of (pm_Out (terminal_framing out newid model p)) = text_of (pm_Out p)
   \<and> pm_Completion (terminal_framing out newid model p) = pm_Completion p"
  by (simp add: terminal_framing_def Let_def closeAnthText_def closeAnthToolBlock_def emitAnthropicPrelude_def
      emitBedrockPrelude_def BedrockMetadataPayload_def BedrockMessageStopPayload_def
      BedrockContentBlockStopPayload_def BedrockContentBlockStartPayload_def BedrockMessageStartPayload_def
      text_simps split: option.split)

section \<open>The loop as a fold\<close>

text \<open>The events the loop handles without a fatal error: those up to the client's departure
  and before the first fatal one.\<close>

definition taken :: "nat option \<Rightarrow> 'a list \<Rightarrow> 'a list" where
  "taken gone evs = (case gone of None \<Rightarrow> evs | Some n \<Rightarrow> take n evs)"

lemma taken_simps [simp]:
  "taken gone [] = []" "taken (Some 0) evs = []"
  "gone \<noteq> Some 0 \<Longrightarrow> taken gone (ev # evs) = ev # taken (map_option (\<lambda>n. n - 1) gone) evs"
  by (auto simp: taken_def take_Cons split: option.split nat.split)

lemma stream_loop_fatal [simp]: "pm_Fatal p \<noteq> None \<Longrightarrow> stream_loop step gone evs err p = p"
  by (cases evs) simp_all

lemma readTerminalErr_sel [simp]:
  "pm_Out (readTerminalErr err p) = pm_Out p" "pm_Usage (readTerminalErr err p) = pm_Usage p"
  "pm_Completion (readTerminalErr err p) = pm_Completion p"
  by (simp_all add: readTerminalErr_def split: option.split)

lemma stream_loop_fold:
  assumes "\<And>ev p. pm_Fatal p = None \<Longrightarrow> pm_Fatal (step ev p) \<noteq> None \<longleftrightarrow> fatal ev"
    and "\<And>ev p. pm_Fatal p = None \<Longrightarrow> \<not> fatal ev \<Longrightarrow> f (step ev p) = g (f p) ev"
    and "\<And>ev p. pm_Fatal p = None \<Longrightarrow> fatal ev \<Longrightarrow> f (step ev p) = f p"
    and "\<And>p. f (readTerminalErr err p) = f p"
    and "pm_Fatal p = None"
  shows "f (stream_loop step gone evs err p) = foldl g (f p) (takeWhile (\<lambda>ev. \<not> fatal ev) (taken gone evs))"
  using assms(5)
proof (induction evs arbitrary: p gone)
  case Nil
  then show ?case using assms(4) by simp
next
  case (Cons ev evs)
  show ?case
  proof (cases "gone = Some 0 \<or> fatal ev")
    case True
    then show ?thesis using Cons.prems assms(1,3) [of p ev] by auto
  next
    case False
    then show ?thesis using Cons assms(1,2) [of p ev] by simp
  qed
qed

lemma stream_loop_fatal_at:
  assumes "\<And>ev p. pm_Fatal p = None \<Longrightarrow> ev \<in> set before \<Longrightarrow> pm_Fatal (step ev p) = None"
    and "\<And>p. pm_Fatal p = None \<Longrightarrow> pm_Fatal (step bad p) = Some e"
    and "pm_Fatal p = None" and "case gone of None \<Rightarrow> True | Some n \<Rightarrow> length before < n"
  shows "pm_Fatal (stream_loop step gone (before @ bad # later) err p) = Some e"
  using assms
proof (induction before arbitrary: p gone)
  case Nil
  then have "pm_Fatal (step bad p) = Some e" "gone \<noteq> Some 0" by (auto split: option.splits)
  then show ?case by simp (simp add: Nil)
next
  case (Cons ev evs)
  from Cons.prems(1,3) have "pm_Fatal (step ev p) = None" by simp
  moreover have "case map_option (\<lambda>n. n - 1) gone of None \<Rightarrow> True | Some n \<Rightarrow> length evs < n"
    using Cons.prems(4) by (auto split: option.splits)
  moreover have "gone \<noteq> Some 0" using Cons.prems(4) by (auto split: option.splits)
  ultimately show ?case
    using Cons.IH [of "step ev p" "map_option (\<lambda>n. n - 1) gone"] Cons.prems by simp
qed

section \<open>What an event contributes\<close>

definition ev_parse :: "string \<Rightarrow> stream_event \<Rightarrow> parsed" where
  "ev_parse adapter ev = ParseStreamChunk adapter (ev_Type ev) (ev_Payload ev)"

definition ev_fatal :: "string \<Rightarrow> stream_event \<Rightarrow> bool" where
  "ev_fatal adapter ev \<longleftrightarrow>
     (case ev_parse adapter ev of None \<Rightarrow> False | Some (c, _) \<Rightarrow> sc_UpstreamErr c \<noteq> None)"

definition ev_text :: "string \<Rightarrow> stream_event \<Rightarrow> string" where
  "ev_text adapter ev = (case ev_parse adapter ev of None \<Rightarrow> [] | Some (c, _) \<Rightarrow> sc_Delta c)"

definition ev_usage :: "string \<Rightarrow> stream_event \<Rightarrow> usage option" where
  "ev_usage adapter ev = (case ev_parse adapter ev of None \<Rightarrow> None | Some (c, _) \<Rightarrow> sc_Usage c)"

definition upstream_seen :: "string \<Rightarrow> nat option \<Rightarrow> body_end \<Rightarrow> string \<Rightarrow> stream_event list" where
  "upstream_seen adapter gone bend body =
     takeWhile (\<lambda>ev. \<not> ev_fatal adapter ev) (taken gone (fst (upstreamEvents adapter bend body)))"

lemma process_fields:
  assumes "pm_Fatal p = None"
  shows "pm_Fatal (process out newid model (ev_parse adapter ev) p) \<noteq> None \<longleftrightarrow> ev_fatal adapter ev"
    and "\<not> ev_fatal adapter ev \<Longrightarrow>
      pm_Completion (process out newid model (ev_parse adapter ev) p) = pm_Completion p @ ev_text adapter ev"
    and "\<not> ev_fatal adapter ev \<Longrightarrow>
      pm_Usage (process out newid model (ev_parse adapter ev) p) =
        (case ev_usage adapter ev of None \<Rightarrow> pm_Usage p | Some u \<Rightarrow> Some (mergeStreamUsage (pm_Usage p) u))"
    and "ev_fatal adapter ev \<Longrightarrow>
      pm_Completion (process out newid model (ev_parse adapter ev) p) = pm_Completion p"
    and "ev_fatal adapter ev \<Longrightarrow> pm_Usage (process out newid model (ev_parse adapter ev) p) = pm_Usage p"
proof -
  have e: "pm_Fatal (emitAnthropic newid model c q) = pm_Fatal q"
    "pm_Usage (emitAnthropic newid model c q) = pm_Usage q"
    "pm_Completion (emitAnthropic newid model c q) = pm_Completion q"
    "pm_Fatal (emitChunk out newid model c q) = pm_Fatal q"
    "pm_Usage (emitChunk out newid model c q) = pm_Usage q"
    "pm_Completion (emitChunk out newid model c q) = pm_Completion q" for c q
    by (simp_all add: emitAnthropic_def emitChunk_def ensurePrelude_def openAnthropicText_def
        emitAnthropicPrelude_def open_tool_block_def closeAnthText_def closeAnthToolBlock_def
        emitBedrockPrelude_def Let_def split: option.split prod.split)
  show "pm_Fatal (process out newid model (ev_parse adapter ev) p) \<noteq> None \<longleftrightarrow> ev_fatal adapter ev"
    using assms
    by (auto simp: process_def ev_fatal_def record_chunk_def Let_def e split: option.splits prod.splits)
  show "\<not> ev_fatal adapter ev \<Longrightarrow>
      pm_Completion (process out newid model (ev_parse adapter ev) p) = pm_Completion p @ ev_text adapter ev"
    by (auto simp: process_def ev_fatal_def ev_text_def record_chunk_def Let_def e split: option.splits prod.splits)
  show "\<not> ev_fatal adapter ev \<Longrightarrow>
      pm_Usage (process out newid model (ev_parse adapter ev) p) =
        (case ev_usage adapter ev of None \<Rightarrow> pm_Usage p | Some u \<Rightarrow> Some (mergeStreamUsage (pm_Usage p) u))"
    by (auto simp: process_def ev_fatal_def ev_usage_def record_chunk_def Let_def e split: option.splits prod.splits)
  show "ev_fatal adapter ev \<Longrightarrow>
      pm_Completion (process out newid model (ev_parse adapter ev) p) = pm_Completion p"
    "ev_fatal adapter ev \<Longrightarrow> pm_Usage (process out newid model (ev_parse adapter ev) p) = pm_Usage p"
    by (auto simp: process_def ev_fatal_def split: option.splits prod.splits)
qed

lemma run_pump_fold:
  assumes "\<And>ev p. pm_Fatal p = None \<Longrightarrow> \<not> ev_fatal adapter ev \<Longrightarrow>
      f (process out newid model (ev_parse adapter ev) p) = g (f p) ev"
    and "\<And>ev p. pm_Fatal p = None \<Longrightarrow> ev_fatal adapter ev \<Longrightarrow>
      f (process out newid model (ev_parse adapter ev) p) = f p"
    and "\<And>e p. f (readTerminalErr e p) = f p"
  shows "f (run_pump adapter out newid model gone bend body) =
    foldl g (f pump_init) (upstream_seen adapter gone bend body)"
proof -
  obtain evs err where u: "upstreamEvents adapter bend body = (evs, err)" by fastforce
  have "pm_Fatal pump_init = None" by (simp add: pump_init_def)
  have "f (stream_loop (\<lambda>ev. process out newid model (ev_parse adapter ev)) gone evs err pump_init) =
      foldl g (f pump_init) (takeWhile (\<lambda>ev. \<not> ev_fatal adapter ev) (taken gone evs))"
    by (rule stream_loop_fold) (assumption | rule process_fields(1) assms \<open>pm_Fatal pump_init = None\<close>)+
  then show ?thesis
    by (simp only: run_pump_def upstream_seen_def u Let_def prod.case fst_conv ev_parse_def)
qed

lemma run_pump_completion:
  "pm_Completion (run_pump adapter out newid model gone bend body) =
     concat (map (ev_text adapter) (upstream_seen adapter gone bend body))"
proof -
  have "foldl (\<lambda>s ev. s @ ev_text adapter ev) s evs = s @ concat (map (ev_text adapter) evs)" for s evs
    by (induction evs arbitrary: s) simp_all
  then show ?thesis
    using run_pump_fold [where f = pm_Completion and g = "\<lambda>s ev. s @ ev_text adapter ev" and adapter = adapter
        and out = out and newid = newid and model = model and gone = gone and bend = bend and body = body]
    by (simp add: process_fields pump_init_def)
qed

lemma run_pump_usage:
  "pm_Usage (run_pump adapter out newid model gone bend body) =
     foldl (\<lambda>a u. Some (mergeStreamUsage a u)) None
       (List.map_filter (ev_usage adapter) (upstream_seen adapter gone bend body))"
proof -
  have "foldl (\<lambda>a ev. case ev_usage adapter ev of None \<Rightarrow> a | Some u \<Rightarrow> Some (mergeStreamUsage a u)) a evs =
      foldl (\<lambda>a u. Some (mergeStreamUsage a u)) a (List.map_filter (ev_usage adapter) evs)" for a evs
    by (induction evs arbitrary: a) (simp_all add: List.map_filter_simps split: option.split)
  then show ?thesis
    using run_pump_fold [where f = pm_Usage and g = "\<lambda>a ev. case ev_usage adapter ev of None \<Rightarrow> a
          | Some u \<Rightarrow> Some (mergeStreamUsage a u)" and adapter = adapter
        and out = out and newid = newid and model = model and gone = gone and bend = bend and body = body]
    by (simp add: process_fields pump_init_def)
qed

text \<open>The last non-zero value of a field, the fold \<open>mergeStreamUsage\<close> computes.\<close>

definition last_nonzero :: "int list \<Rightarrow> int" where
  "last_nonzero xs = (case filter (\<lambda>x. x \<noteq> 0) (rev xs) of [] \<Rightarrow> 0 | x # _ \<Rightarrow> x)"

lemma last_nonzero_snoc: "last_nonzero (xs @ [x]) = nonzero_or x (last_nonzero xs)"
  by (simp add: last_nonzero_def nonzero_or_def)

lemma last_nonzero_single [simp]: "last_nonzero [x] = x"
  by (simp add: last_nonzero_def)

lemma merge_sel [simp]:
  "us_Prompt (mergeStreamUsage (Some p) u) = nonzero_or (us_Prompt u) (us_Prompt p)"
  "us_Completion (mergeStreamUsage (Some p) u) = nonzero_or (us_Completion u) (us_Completion p)"
  "us_CacheRead (mergeStreamUsage (Some p) u) = nonzero_or (us_CacheRead u) (us_CacheRead p)"
  "us_CacheWrite (mergeStreamUsage (Some p) u) = nonzero_or (us_CacheWrite u) (us_CacheWrite p)"
  "mergeStreamUsage None u = u"
  by (simp_all add: mergeStreamUsage_def Let_def)

lemma merge_all:
  "us \<noteq> [] \<Longrightarrow> \<exists>m. foldl (\<lambda>a u. Some (mergeStreamUsage a u)) None us = Some m
     \<and> us_Prompt m = last_nonzero (map us_Prompt us) \<and> us_Completion m = last_nonzero (map us_Completion us)
     \<and> us_CacheRead m = last_nonzero (map us_CacheRead us) \<and> us_CacheWrite m = last_nonzero (map us_CacheWrite us)"
proof (induction us rule: rev_nonempty_induct)
  case (single u)
  then show ?case by simp
next
  case (snoc u us)
  then show ?case by (auto simp: last_nonzero_snoc)
qed

section \<open>What passes through\<close>

definition passthrough_type :: "stream_event \<Rightarrow> string" where
  "passthrough_type ev =
     ae_Type (unmarshal_lenient dec_passthrough_event zero_anthropic_event (ev_Payload ev))"

definition passthrough_frame :: "stream_event \<Rightarrow> frame" where
  "passthrough_frame ev = SSENamedBytes (passthrough_type ev) (ev_Payload ev)"

text \<open>The events up to the first one with the property, that one included.\<close>

fun through :: "('a \<Rightarrow> bool) \<Rightarrow> 'a list \<Rightarrow> 'a list" where
  "through P [] = []"
| "through P (x # xs) = x # (if P x then [] else through P xs)"

lemma set_through: "set (through P xs) \<subseteq> set xs"
  by (induction xs) auto

lemma set_taken: "set (taken gone xs) \<subseteq> set xs"
  by (auto simp: taken_def dest: in_set_takeD split: option.splits)

lemma passthrough_process_out:
  "pm_Out (passthrough_process ev p) = pm_Out p @ [passthrough_frame ev]"
  "pm_Fatal (passthrough_process ev p) =
     (if passthrough_type ev = ''error'' then
        Some (UpstreamFatal \<lparr>ue_Provider = ''anthropic'', ue_StatusCode = 502,
          ue_Message = error_message (ae_Error
            (unmarshal_lenient dec_passthrough_event zero_anthropic_event (ev_Payload ev))), ue_Body = []\<rparr>)
      else pm_Fatal p)"
  by (simp_all add: passthrough_process_def passthrough_frame_def passthrough_type_def Let_def
      split: option.split)

lemma passthrough_loop_out:
  "pm_Fatal p = None \<Longrightarrow>
     pm_Out (stream_loop passthrough_process gone evs err p) =
       pm_Out p @ map passthrough_frame (through (\<lambda>ev. passthrough_type ev = ''error'') (taken gone evs))"
proof (induction evs arbitrary: p gone)
  case Nil
  then show ?case by simp
next
  case (Cons ev evs)
  show ?case
  proof (cases "gone = Some 0")
    case False
    show ?thesis
    proof (cases "passthrough_type ev = ''error''")
      case True
      then show ?thesis using False Cons.prems by (simp add: passthrough_process_out)
    next
      case no: False
      then have "pm_Fatal (passthrough_process ev p) = None"
        using Cons.prems by (simp add: passthrough_process_out)
      from Cons.IH [OF this] show ?thesis using False no Cons.prems by (simp add: passthrough_process_out)
    qed
  qed (use Cons.prems in simp)
qed

lemma map_filter_mem: "y \<in> set (List.map_filter f xs) \<Longrightarrow> \<exists>x\<in>set xs. f x = Some y"
  by (induction xs) (auto simp: List.map_filter_simps split: option.splits)

text \<open>Every SSE event that is read is a payload that is written back on one line.\<close>

lemma sse_line_payload:
  assumes "sse_line l = Some ev" "CHR 0x0A \<notin> set l"
  shows "payload_ok (ev_Payload ev) \<and> ev_Type ev = []"
proof -
  let ?t = "rev (dropWhile crlf (rev l))"
  from assms(1) have ev: "ev = \<lparr>ev_Type = [], ev_Payload = trim_space (drop 5 ?t)\<rparr>"
    "trim_space (drop 5 ?t) \<noteq> []" "trim_space (drop 5 ?t) \<noteq> ''[DONE]''"
    by (auto simp: sse_line_def Let_def split: if_splits)
  have "set ?t \<subseteq> set l" by (auto dest: set_dropWhileD)
  then have "set (trim_space (drop 5 ?t)) \<subseteq> set l"
    using set_trim_space [of "drop 5 ?t"] set_drop_subset [of 5 ?t] by (meson order_trans)
  with ev assms(2) show ?thesis by (auto simp: payload_ok_def)
qed

lemma readSSE_payloads:
  "ev \<in> set (fst (readSSE e s)) \<Longrightarrow> payload_ok (ev_Payload ev) \<and> ev_Type ev = []"
  using map_filter_mem [of ev sse_line "split_char (CHR 0x0A) s"]
  by (auto simp: readSSE_def dest: split_char_no_sep sse_line_payload)

lemma readSSE_written:
  "\<forall>ev\<in>set evs. payload_ok (ev_Payload ev) \<and> ev_Type ev = [] \<and> CHR 0x0A \<notin> set (f ev) \<Longrightarrow>
     readSSE EOF (concat (map (\<lambda>ev. writeSSENamedRaw (f ev) (ev_Payload ev)) evs)) = (evs, None)"
proof (induction evs)
  case Nil
  then show ?case by (simp add: readSSE_def sse_line_other List.map_filter_simps)
next
  case (Cons ev evs)
  then show ?case by (cases ev) (simp add: readSSE_def sse_frame)
qed

section \<open>Bedrock exceptions\<close>

text \<open>The exceptions of the stream are the events of exception type with a body.\<close>

definition bedrock_exception :: "string \<times> string \<Rightarrow> bool" where
  "bedrock_exception f \<longleftrightarrow> isBedrockExceptionEvent (fst f) \<and> trim_space (snd f) \<noteq> []"

definition bedrock_exception_error :: "string \<times> string \<Rightarrow> upstream_error" where
  "bedrock_exception_error f =
     (let msg = unmarshal_lenient dec_exception [] (trim_space (snd f)) in
      \<lparr>ue_Provider = ''bedrock'', ue_StatusCode = bedrockExceptionStatus (fst f),
       ue_Message = (if msg = [] then fst f else msg), ue_Body = []\<rparr>)"

lemma ev_fatal_bedrock:
  "fst f \<noteq> [] \<Longrightarrow> ev_fatal ''bedrock'' (event_of f) \<longleftrightarrow> bedrock_exception f"
  by (auto simp: ev_fatal_def ev_parse_def ParseStreamChunk_def bedrock_ParseStreamChunk_def Let_def
      bedrock_exception_def bedrock_result_def split: option.splits prod.splits if_splits)

lemma process_bedrock_exception:
  "fst f \<noteq> [] \<Longrightarrow> bedrock_exception f \<Longrightarrow>
     pm_Fatal (process out newid model (ev_parse ''bedrock'' (event_of f)) p) =
       Some (UpstreamFatal (bedrock_exception_error f))"
  by (simp add: process_def ev_parse_def ParseStreamChunk_def bedrock_ParseStreamChunk_def Let_def
      bedrock_exception_def bedrock_exception_error_def)

lemma frame_ok_type: "list_all frame_ok fs \<Longrightarrow> f \<in> set fs \<Longrightarrow> fst f \<noteq> []"
  by (auto simp: list_all_iff frame_ok_def)

lemma terminal_framing_fatal [simp]: "pm_Fatal (terminal_framing out newid model p) = pm_Fatal p"
  by (simp add: terminal_framing_def Let_def closeAnthText_def closeAnthToolBlock_def
      emitAnthropicPrelude_def emitBedrockPrelude_def)

section \<open>Properties\<close>





text \<open>
  C33. The Anthropic passthrough neither changes, drops, adds nor reorders an event: a client
  that reads the forwarded bytes sees exactly the provider's events, up to the client's
  departure or to the first error event, which is forwarded too, when no event's type has a
  line break in it.
\<close>

theorem passthrough_faithful:
  assumes "list_all (\<lambda>ev. CHR 0x0A \<notin> set (passthrough_type ev)) (fst (readSSE bend body))"
  shows "readSSE EOF (concat (map render_frame (pm_Out (pumpAnthropicPassthrough gone bend body)))) =
    (through (\<lambda>ev. passthrough_type ev = ''error'') (taken gone (fst (readSSE bend body))), None)"
proof -
  let ?evs = "through (\<lambda>ev. passthrough_type ev = ''error'') (taken gone (fst (readSSE bend body)))"
  have "pm_Out (pumpAnthropicPassthrough gone bend body) = map passthrough_frame ?evs"
    unfolding pumpAnthropicPassthrough_def Let_def
    by (cases "readSSE bend body")
      (simp add: upstreamEvents_def passthrough_loop_out pump_init_def)
  moreover have "\<forall>ev\<in>set ?evs. payload_ok (ev_Payload ev) \<and> ev_Type ev = [] \<and> CHR 0x0A \<notin> set (passthrough_type ev)"
    using set_through [of "\<lambda>ev. passthrough_type ev = ''error''" "taken gone (fst (readSSE bend body))"]
      set_taken [of gone "fst (readSSE bend body)"] assms readSSE_payloads [of _ bend body]
    by (fastforce simp: list_all_iff)
  moreover have "map render_frame (map passthrough_frame evs) =
      map (\<lambda>ev. writeSSENamedRaw (passthrough_type ev) (ev_Payload ev)) evs" for evs
    by (simp add: passthrough_frame_def)
  ultimately show ?thesis by (simp only: readSSE_written)
qed

lemma passthrough_faithful_witness:
  "readSSE EOF (concat (map render_frame (pm_Out (pumpAnthropicPassthrough None EOF
     (''data: {\"type\":\"ping\"}'' @ newline))))) =
   ([\<lparr>ev_Type = [], ev_Payload = ''{\"type\":\"ping\"}''\<rparr>], None)"
proof -
  let ?body = "''data: {\"type\":\"ping\"}'' @ newline"
  have "list_all (\<lambda>ev. CHR 0x0A \<notin> set (passthrough_type ev)) (fst (readSSE EOF ?body))"
    "through (\<lambda>ev. passthrough_type ev = ''error'') (taken None (fst (readSSE EOF ?body))) =
      [\<lparr>ev_Type = [], ev_Payload = ''{\"type\":\"ping\"}''\<rparr>]"
    by code_simp+
  then show ?thesis using passthrough_faithful [of EOF ?body None] by simp
qed

text \<open>
  An exception frame in a Bedrock stream is never lost: whatever frames precede it
  (none of them an exception) and follow it, the request ends with the provider's error,
  with the status documented for that exception, the client still gets the text of the
  frames before it and none of the text after it.
\<close>

lemma bedrock_exception_fatal:
  assumes "list_all frame_ok (before @ bad # later)"
    and "list_all (\<lambda>f. \<not> bedrock_exception f) before" and "bedrock_exception bad"
  shows "pm_Fatal (pumpStream ''bedrock'' out newid model None bend
      (concat (map frame (before @ bad # later)))) = Some (UpstreamFatal (bedrock_exception_error bad))
    \<and> upstreamHTTPStatus (UpstreamFatal (bedrock_exception_error bad)) = bedrockExceptionStatus (fst bad)
    \<and> text_of (pm_Out (pumpStream ''bedrock'' out newid model None bend
      (concat (map frame (before @ bad # later))))) = concat (map (\<lambda>f. ev_text ''bedrock'' (event_of f)) before)"
proof -
  let ?body = "concat (map frame (before @ bad # later))"
  obtain evs0 err where n: "readEventStream bend [] = (evs0, err)" by fastforce
  with readEventStream_Nil(2) [of bend] have "evs0 = []" by simp
  then have u: "upstreamEvents ''bedrock'' bend ?body =
      (map event_of before @ event_of bad # map event_of later, err)"
    using readEventStream_frames [OF assms(1), of bend "[]"] n by (simp add: upstreamEvents_def)
  have t: "fst f \<noteq> []" if "f \<in> set (before @ bad # later)" for f
    using frame_ok_type [OF assms(1) that] .
  have ok: "\<not> ev_fatal ''bedrock'' ev" if "ev \<in> set (map event_of before)" for ev
  proof -
    from that obtain f where f: "f \<in> set before" "ev = event_of f" by auto
    with t ev_fatal_bedrock [of f] assms(2) show ?thesis by (simp add: list_all_iff)
  qed
  have bad: "ev_fatal ''bedrock'' (event_of bad)" using ev_fatal_bedrock [of bad] t [of bad] assms(3) by simp
  have "pm_Fatal (run_pump ''bedrock'' out newid model None bend ?body) =
      Some (UpstreamFatal (bedrock_exception_error bad))"
    unfolding run_pump_def u Let_def prod.case ev_parse_def [symmetric]
  proof (rule stream_loop_fatal_at)
    show "pm_Fatal (process out newid model (ev_parse ''bedrock'' ev) p) = None"
      if "pm_Fatal p = None" "ev \<in> set (map event_of before)" for ev p
      using process_fields(1) [OF that(1), of out newid model "''bedrock''" ev] ok [OF that(2)] by simp
  qed (use process_bedrock_exception assms(3) t [of bad] in \<open>auto simp: pump_init_def\<close>)
  moreover have "upstream_seen ''bedrock'' None bend ?body = map event_of before"
  proof -
    have "takeWhile (\<lambda>ev. \<not> ev_fatal ''bedrock'' ev) (map event_of before @ event_of bad # map event_of later) =
        map event_of before"
      by (subst takeWhile_append2) (use ok bad in \<open>auto simp del: set_map\<close>)
    then show ?thesis unfolding upstream_seen_def u by (simp add: taken_def)
  qed
  moreover have "upstreamHTTPStatus (UpstreamFatal (bedrock_exception_error bad)) = bedrockExceptionStatus (fst bad)"
    by (simp add: upstreamHTTPStatus_def bedrock_exception_error_def bedrockExceptionStatus_def Let_def)
  ultimately show ?thesis
    using terminal_framing_text [of out newid model "run_pump ''bedrock'' out newid model None bend ?body"]
      run_pump_text [of out "''bedrock''" newid model None bend ?body]
      run_pump_completion [of "''bedrock''" out newid model None bend ?body]
    unfolding pumpStream_run by (simp add: o_def)
qed

lemma bedrock_exception_fatal_witness:
  "pm_Fatal (pumpStream ''bedrock'' OutOpenAI ''id'' ''m'' None EOF
     (EncodeBedrockFrame ''throttlingException'' ''{}'')) =
   Some (UpstreamFatal (bedrock_exception_error (''throttlingException'', ''{}'')))"
proof -
  have "list_all frame_ok ([] @ (''throttlingException'', ''{}'') # [])"
    by (simp add: frame_ok_def length_frame encodeBedrockEventHeaders_def appendBedrockStringHeader_def)
  moreover have "bedrock_exception (''throttlingException'', ''{}'')" by code_simp
  ultimately show ?thesis
    using bedrock_exception_fatal [of "[]" "(''throttlingException'', ''{}'')" "[]" OutOpenAI "''id''" "''m''" EOF]
    by simp
qed

end
