(* ===== verification/Relay.thy ===== *)
theory Relay
  imports Responses Pump Router Quota Pricing Format
begin

text \<open>
  The relay of \<open>relay/relay.go\<close>, \<open>relay/stream.go\<close> and \<open>relay/channel_meta.go\<close>: admission,
  routing, failover over the candidate channels, the response, the log row and the debit.
  What a request does to the outside is its trace: the calls to upstream providers and
  what is written to the client, in order.
\<close>

section \<open>The environment\<close>

text \<open>
  What the relay calls outside the modelled code: the random source and the routing probe, the
  texts of database, network and \<open>encoding/json\<close> errors and of \<open>fmt\<close>'s quoted strings, random ids and
  the clock, the adapters' request builders, and the HTTP clients, given the number of the
  attempt.  A request of type \<open>'req\<close> is what a builder makes and a client sends.
\<close>

record stream_response =
  sr_Response :: http_response
  sr_End :: body_end
  sr_Gone :: "nat option"

record 'req relay_env =
  env_intn :: "nat \<Rightarrow> int \<Rightarrow> int"
  env_probe :: "probe option"
  env_errText :: "err \<Rightarrow> string"
  env_readErrText :: string
  env_quote :: "string \<Rightarrow> string"
  env_jerr :: "string \<Rightarrow> string"
  env_newid :: string
  env_now :: int
  env_BuildRequest :: "string \<Rightarrow> unified_request \<Rightarrow> channel \<Rightarrow> string + 'req"
  env_httpDo :: "nat \<Rightarrow> 'req \<Rightarrow> string + http_response"
  env_streamDo :: "nat \<Rightarrow> 'req \<Rightarrow> string + stream_response"

datatype relay_event =
    ToClient client_event
  | CallUpstream nat string

abbreviation to_client :: "client_event list \<Rightarrow> relay_event list" where
  "to_client evs \<equiv> map ToClient evs"

record request_context =
  rc_format :: string
  rc_outFormat :: string
  rc_uni :: unified_request
  rc_token :: token_row
  rc_user :: user
  rc_reqBodyRaw :: string
  rc_respBodyRaw :: string
  rc_probeInfo :: string

text \<open>An attempt: the channel and the upstream model id.\<close>

type_synonym attempt = "channel \<times> string"

text \<open>\<open>adapter.For\<close>: the name of the adapter of a channel.\<close>

definition For :: "channel \<Rightarrow> string option" where
  "For ch =
     (if ch_Type ch = ChannelOpenAI then Some ''openai''
      else if ch_Type ch = ChannelBedrock then Some ''bedrock''
      else if ch_Type ch = ChannelAnthropic then Some ''anthropic''
      else None)"

section \<open>Admission\<close>

text \<open>A value that is not an array of strings is an error, which means no restriction.\<close>

fun allowed_model :: "json \<Rightarrow> string option" where
  "allowed_model (JStr s) = Some s"
| "allowed_model JNull = Some []"
| "allowed_model _ = None"

definition decodeAllowedModels :: "token_row \<Rightarrow> string list" where
  "decodeAllowedModels tok =
     (case tok_AllowedModels tok of
        Some (JArr xs) \<Rightarrow>
          (if list_all (\<lambda>x. allowed_model x \<noteq> None) xs then map (\<lambda>x. the (allowed_model x)) xs else [])
      | _ \<Rightarrow> [])"

definition modelAllowed :: "token_row \<Rightarrow> string \<Rightarrow> bool" where
  "modelAllowed tok requested =
     (let allowed = decodeAllowedModels tok in allowed = [] \<or> list_ex (\<lambda>m. m = requested) allowed)"

section \<open>Amounts in messages\<close>

text \<open>Division of natural numbers (as integers), rounded to the nearest, ties to even.\<close>

definition round_div :: "int \<Rightarrow> int \<Rightarrow> int" where
  "round_div a b =
     (let q = a div b; r = a mod b in
      if 2 * r > b \<or> (2 * r = b \<and> odd q) then q + 1 else q)"

text \<open>\<open>float64(n)\<close> of a natural number below \<open>2 ^ 63\<close>.\<close>

definition float_of_nat :: "int \<Rightarrow> int" where
  "float_of_nat n =
     (case find (\<lambda>k. n < 2 ^ 53 * 2 ^ k) [0..<11] of
        None \<Rightarrow> n
      | Some k \<Rightarrow> round_div n (2 ^ k) * 2 ^ k)"

text \<open>
  \<open>FormatFloat(x / 1e6, 'f', 4, 64)\<close>: the quotient is the nearest float64, a multiple of
  \<open>2 ^ - t\<close> with 53 significant bits, whose exact value is then rounded to four decimals.
\<close>

definition four_decimals :: "int \<Rightarrow> string" where
  "four_decimals n =
     (let k = (case find (\<lambda>t. 2 ^ 52 * 1000000 \<le> n * 2 ^ t) [0..<80] of
           None \<Rightarrow> 0
         | Some t \<Rightarrow> round_div (round_div (n * 2 ^ t) 1000000 * 10000) (2 ^ t));
          d = dec (nat (k mod 10000))
      in dec (nat (k div 10000)) @ ''.'' @ replicate (4 - length d) CHR ''0'' @ d)"

definition formatMicroUSD :: "int \<Rightarrow> string" where
  "formatMicroUSD micro =
     ''$'' @ (if micro < 0 then ''-'' @ four_decimals (float_of_nat (- micro))
             else four_decimals (float_of_nat micro))"

section \<open>Channel metadata\<close>

definition isSafeHeaderByte :: "char \<Rightarrow> bool" where
  "isSafeHeaderByte b \<longleftrightarrow> (of_char b :: nat) \<ge> 32 \<and> (of_char b :: nat) < 127 \<and> b \<noteq> CHR ''%''"

definition upper_hex :: "nat \<Rightarrow> char" where
  "upper_hex n = (if n < 10 then char_of (48 + n) else char_of (55 + n))"

definition percentEncodeHeaderValue :: "string \<Rightarrow> string" where
  "percentEncodeHeaderValue s =
     (if list_all isSafeHeaderByte s then s
      else concat (map (\<lambda>b. if isSafeHeaderByte b then [b]
         else [CHR ''%'', upper_hex (of_char b div 16), upper_hex (of_char b mod 16)]) s))"

definition setChannelHeaders :: "channel \<Rightarrow> client_event list" where
  "setChannelHeaders ch =
     [SetHeader ''X-Router-Channel-Id'' (dec (ch_ID ch)),
      SetHeader ''X-Router-Channel-Name'' (percentEncodeHeaderValue (ch_Name ch)),
      SetHeader ''X-Router-Channel-Type'' (ch_Type ch)]"

definition setStreamHeaders :: "string \<Rightarrow> channel \<Rightarrow> client_event list" where
  "setStreamHeaders out ch =
     [SetHeader ''Content-Type'' (if out = OutBedrock then ''application/vnd.amazon.eventstream'' else ''text/event-stream''),
      SetHeader ''Cache-Control'' ''no-cache'',
      SetHeader ''Connection'' ''keep-alive'',
      SetHeader ''X-Accel-Buffering'' ''no'']
     @ setChannelHeaders ch @ [SendStatus 200]"

definition maybeInjectSystemCache :: "unified_request \<Rightarrow> channel \<Rightarrow> string \<Rightarrow> unified_request" where
  "maybeInjectSystemCache uni ch upstreamModel =
     (if ur_SystemCacheControl uni \<noteq> None then uni
      else if \<not> ch_AutoCacheSystem ch then uni
      else if ch_Type ch \<noteq> ChannelBedrock \<and> ch_Type ch \<noteq> ChannelAnthropic then uni
      else
        (let sys = trim_space (ur_System uni) in
         if sys = [] then uni
         else
           (let threshold = (if str_contains (lower_view upstreamModel) ''haiku'' then 4096 else 1024) in
            if EstimateSystemTokens sys < threshold then uni
            else uni\<lparr>ur_SystemCacheControl := Some ''ephemeral''\<rparr>)))"

section \<open>Routing\<close>

definition routeInput :: "request_context \<Rightarrow> int \<Rightarrow> route_input" where
  "routeInput rc estPrompt =
     \<lparr>ri_Group = tok_Group (rc_token rc), ri_Model = ur_Model (rc_uni rc), ri_EstTokens = estPrompt,
      ri_Prompt = RenderProbePrompt (ur_System (rc_uni rc))
        (map (\<lambda>m. (msg_Role m, ProbeText m)) (ur_Messages (rc_uni rc)))\<rparr>"

definition probeInfoJSON :: "selection \<Rightarrow> string" where
  "probeInfoJSON sel =
     (case sel_Probe sel of
        None \<Rightarrow> []
      | Some p \<Rightarrow> marshal (JObj
          ([(''w'', JInt (pr_W p)), (''t'', JInt (pr_T p)), (''name'', JStr (pr_Name p))]
           @ (if pr_Err p \<noteq> [] then [(''err'', JStr (pr_Err p))] else []))))"

definition noCandidateText :: string where
  "noCandidateText = ''no candidate channel can serve the request''"

definition rule_ident :: "'req relay_env \<Rightarrow> string \<Rightarrow> nat \<Rightarrow> string" where
  "rule_ident env name i = env_quote env name @ '' (id '' @ dec i @ '')''"

text \<open>The texts of the errors routing returns.\<close>

definition err_text :: "'req relay_env \<Rightarrow> err \<Rightarrow> string" where
  "err_text env e =
     (case e of
        ErrNoCandidate d \<Rightarrow>
          (case d of
             NoDetail \<Rightarrow> noCandidateText
           | RuleTargetWithoutChannel name i target requested \<Rightarrow>
               noCandidateText @ '': rule '' @ rule_ident env name i
               @ '' has no enabled target channel (target_model '' @ env_quote env target
               @ '', request asked for '' @ env_quote env requested @ '')''
           | RuleWithoutChannel name i requested \<Rightarrow>
               noCandidateText @ '': rule '' @ rule_ident env name i
               @ '' has no enabled target channel able to serve '' @ env_quote env requested)
      | _ \<Rightarrow> env_errText env e)"

definition trim_prefix :: "string \<Rightarrow> string \<Rightarrow> string" where
  "trim_prefix p s = (if prefix p s then drop (length p) s else s)"

definition noCandidateDetail :: "string \<Rightarrow> string" where
  "noCandidateDetail full =
     (if full = noCandidateText then []
      else trim_space (trim_prefix '':'' (trim_prefix noCandidateText full)))"

section \<open>Accounting\<close>

definition logIOMaxBytes :: nat where "logIOMaxBytes = 32768"

definition truncateLog :: "string \<Rightarrow> string" where
  "truncateLog s =
     (if int (length s) \<le> int logIOMaxBytes then s
      else take logIOMaxBytes s @ [CHR 0x0A, CHR 0xE2, CHR 0x80, CHR 0xA6] @ ''[truncated]'')"

definition requestLogIOEnabled :: "bool db" where
  "requestLogIOEnabled = bindM (GetOption OptRequestLogIO ''false'') (\<lambda>v. retM (v = ''true''))"

text \<open>A row PostgreSQL accepts: valid text, and at most 128 characters in a \<open>varchar(128)\<close>.\<close>

definition storable_log :: "request_log \<Rightarrow> bool" where
  "storable_log l \<longleftrightarrow>
     list_all valid_text [log_Model l, log_UpstreamModel l, log_ErrorMessage l]
     \<and> length (runes (log_Model l)) \<le> 128 \<and> length (runes (log_UpstreamModel l)) \<le> 128
     \<and> list_all (\<lambda>b. case b of None \<Rightarrow> True | Some s \<Rightarrow> valid_text s)
         [log_RequestBody l, log_ResponseBody l, log_ProbeInfo l]"

definition write_log :: "request_log \<Rightarrow> unit db" where
  "write_log l = db_write_if (\<lambda>_. storable_log l) (\<lambda>w. w\<lparr>w_logs := w_logs w @ [l]\<rparr>)"

text \<open>The price and the usage a successful request is charged with.\<close>

type_synonym billing = "model_price option \<times> usage"

definition log_row ::
    "request_context \<Rightarrow> attempt option \<Rightarrow> routing_rule option \<Rightarrow> string \<Rightarrow> int \<Rightarrow> string \<Rightarrow>
      int \<times> int \<times> int \<Rightarrow> bool \<Rightarrow> billing option \<Rightarrow> bool \<Rightarrow> request_log" where
  "log_row rc att rule status httpStatus errMsg toks stream bill capture =
     \<lparr>log_UserID = user_ID (rc_user rc),
      log_TokenID = Some (tok_ID (rc_token rc)),
      log_ChannelID = (case att of None \<Rightarrow> 0 | Some (ch, _) \<Rightarrow> ch_ID ch),
      log_RuleID = map_option rule_ID rule,
      log_Model = ur_Model (rc_uni rc),
      log_UpstreamModel = (case att of Some (_, u) \<Rightarrow> if u \<noteq> [] then u else ur_Model (rc_uni rc)
         | None \<Rightarrow> ur_Model (rc_uni rc)),
      log_InboundFormat = rc_format rc,
      log_PromptTokens = fst toks,
      log_CompletionTokens = fst (snd toks),
      log_TotalTokens = snd (snd toks),
      log_CacheReadTokens = map_option (\<lambda>b. us_CacheRead (snd b)) bill,
      log_CacheWriteTokens = map_option (\<lambda>b. us_CacheWrite (snd b)) bill,
      log_CostMicroUSD = map_option (\<lambda>b. Cost (fst b) (snd b)) bill,
      log_Status = status,
      log_HTTPStatus = httpStatus,
      log_ErrorMessage = errMsg,
      log_IsStream = stream,
      log_IsTest = False,
      log_RequestBody = (if capture then Some (truncateLog (rc_reqBodyRaw rc)) else None),
      log_ResponseBody = (if capture then Some (truncateLog (rc_respBodyRaw rc)) else None),
      log_ProbeInfo = (if rc_probeInfo rc \<noteq> [] then Some (rc_probeInfo rc) else None)\<rparr>"

text \<open>\<open>finish\<close> ignores the errors of the log insertion and of the debit.\<close>

definition finish ::
    "request_context \<Rightarrow> attempt option \<Rightarrow> routing_rule option \<Rightarrow> string \<Rightarrow> int \<Rightarrow> string \<Rightarrow>
      int \<times> int \<times> int \<Rightarrow> bool \<Rightarrow> billing option \<Rightarrow> unit db" where
  "finish rc att rule status httpStatus errMsg toks stream bill =
     bindM requestLogIOEnabled (\<lambda>capture.
       seqM (tryM (write_log (log_row rc att rule status httpStatus errMsg toks stream bill capture)))
         (let cost = (case bill of None \<Rightarrow> 0 | Some b \<Rightarrow> Cost (fst b) (snd b)) in
          if status = LogSuccess \<and> cost > 0
          then seqM (tryM (Consume (tok_ID (rc_token rc)) (user_ID (rc_user rc)) cost)) (retM ())
          else retM ()))"

section \<open>Failures\<close>

text \<open>
  A handler's computation: it cannot fail, it leaves a trace.  \<open>finishing evs m\<close> is the trace
  followed by a call of \<open>finish\<close>.
\<close>

type_synonym handler = "world \<Rightarrow> relay_event list \<times> world"

definition finishing :: "relay_event list \<Rightarrow> unit db \<Rightarrow> handler" where
  "finishing evs m w = (evs, snd (m w))"

definition failNoChannel :: "'req relay_env \<Rightarrow> request_context \<Rightarrow> err \<Rightarrow> int \<Rightarrow> bool \<Rightarrow> handler" where
  "failNoChannel env rc e estPrompt stream =
     (let msg = ''no upstream channel can serve model '' @ [CHR 0x22] @ ur_Model (rc_uni rc) @ [CHR 0x22];
          full = err_text env e;
          msg = (case e of
              ErrNoCandidate _ \<Rightarrow> (let detail = noCandidateDetail full in
                 if detail \<noteq> [] then msg @ '': '' @ detail else msg)
            | _ \<Rightarrow> ''routing failed: '' @ full)
      in finishing (to_client (WriteOutError (rc_outFormat rc) 502 ClassUpstream msg))
           (finish rc None None LogError 502 msg (estPrompt, 0, estPrompt) stream None))"

definition clamp_status :: "int \<Rightarrow> int" where
  "clamp_status status = (if status < 400 \<or> status > 599 then 502 else status)"

definition failUpstream ::
    "request_context \<Rightarrow> upstream_error \<Rightarrow> attempt option \<Rightarrow> int \<Rightarrow> bool \<Rightarrow> routing_rule option \<Rightarrow> handler" where
  "failUpstream rc ue att estPrompt stream rule =
     (let status = clamp_status (ue_StatusCode ue) in
      finishing (to_client (WriteOutError (rc_outFormat rc) status ClassUpstream (ue_Message ue)))
        (finish rc att rule LogError status (upstream_Error ue) (estPrompt, 0, estPrompt) stream None))"

definition failAllCandidates ::
    "request_context \<Rightarrow> string option \<Rightarrow> attempt option \<Rightarrow> int \<Rightarrow> bool \<Rightarrow> routing_rule option \<Rightarrow> handler" where
  "failAllCandidates rc lastErr att estPrompt stream rule =
     (let msg = ''all candidate upstream channels failed''
            @ (case lastErr of None \<Rightarrow> [] | Some e \<Rightarrow> '': '' @ e)
      in finishing (to_client (WriteOutError (rc_outFormat rc) 502 ClassUpstream msg))
           (finish rc att rule LogError 502 msg (estPrompt, 0, estPrompt) stream None))"

text \<open>The Recover middleware: a panic before anything was written.\<close>

definition recovered :: handler where
  "recovered w = (to_client [SendJSON 500 (JObj [(''error'', JObj
     [(''message'', JStr ''internal server error''), (''type'', JStr ''internal_error'')])])], w)"

section \<open>The price gate\<close>

definition prompt_usage :: "int \<Rightarrow> usage" where
  "prompt_usage n = empty_usage\<lparr>us_Prompt := n\<rparr>"

definition reject :: "request_context \<Rightarrow> attempt \<Rightarrow> routing_rule option \<Rightarrow> int \<Rightarrow> bool \<Rightarrow>
    int \<Rightarrow> ErrorClass \<Rightarrow> string \<Rightarrow> string \<Rightarrow> handler" where
  "reject rc att rule estPrompt stream status cls msg logMsg =
     finishing (to_client (WriteOutError (rc_outFormat rc) status cls msg))
       (finish rc (Some att) rule LogError status logMsg (estPrompt, 0, estPrompt) stream None)"

text \<open>The resolved price, or the trace of the rejection.\<close>

definition gateModelPrice :: "'req relay_env \<Rightarrow> request_context \<Rightarrow> attempt \<Rightarrow> routing_rule option \<Rightarrow> int \<Rightarrow> bool \<Rightarrow>
    world \<Rightarrow> (relay_event list + model_price option) \<times> world" where
  "gateModelPrice env rc att rule estPrompt stream w =
     (case Lookup (ch_ID (fst att)) (snd att) w of
        (Inl e, w1) \<Rightarrow>
          (case reject rc att rule estPrompt stream 500 ClassInternal ''could not look up model price''
              (''price lookup: '' @ env_errText env e) w1 of (evs, w2) \<Rightarrow> (Inl evs, w2))
      | (Inr price, w1) \<Rightarrow>
          (let estCost = Cost price (prompt_usage estPrompt) in
           case CheckRemaining (tok_ID (rc_token rc)) (user_ID (rc_user rc)) estCost w1 of
             (Inl e, w2) \<Rightarrow>
               (case reject rc att rule estPrompt stream 500 ClassInternal ''could not check quota''
                   (''quota check: '' @ env_errText env e) w2 of (evs, w3) \<Rightarrow> (Inl evs, w3))
           | (Inr rem, w2) \<Rightarrow>
               if rem \<ge> 0 \<and> rem < estCost then
                 (let msg = ''insufficient balance: estimated cost '' @ formatMicroUSD estCost
                        @ '' exceeds remaining '' @ formatMicroUSD rem in
                  case reject rc att rule estPrompt stream 402 ClassQuota msg msg w2 of (evs, w3) \<Rightarrow> (Inl evs, w3))
               else (Inr price, w2)))"

section \<open>Failover\<close>

text \<open>
  An attempt either ends the request (\<open>Stop\<close>, with its trace) or fails over with an error and
  the attempt it was (\<open>None\<close> when it did not get as far as resolving one).
\<close>

datatype outcome =
    Stop "relay_event list"
  | Failover string "attempt option" "relay_event list"

function failover_loop ::
    "(selection \<Rightarrow> channel \<Rightarrow> world \<Rightarrow> outcome \<times> world) \<Rightarrow>
     (string option \<Rightarrow> attempt option \<Rightarrow> handler) \<Rightarrow>
     selection \<Rightarrow> string option \<Rightarrow> attempt option \<Rightarrow> handler" where
  "failover_loop attempt exhausted sel lastErr lastAtt w =
     (case next_channel sel of
        (Inl _, _) \<Rightarrow> exhausted lastErr lastAtt w
      | (Inr ch, sel') \<Rightarrow>
          (case attempt sel' ch w of
             (Stop evs, w') \<Rightarrow> (evs, w')
           | (Failover e att evs, w') \<Rightarrow>
               (case failover_loop attempt exhausted sel' (Some e) (if att = None then lastAtt else att) w' of
                  (evs', w'') \<Rightarrow> (evs @ evs', w''))))"
  by pat_completeness auto
termination
  by (relation "measure (\<lambda>(_, _, sel, _). length (sel_candidates sel) - sel_cursor sel)")
    (auto simp: next_channel_def split: if_splits)

declare failover_loop.simps [simp del]

definition no_adapter :: "channel \<Rightarrow> string" where
  "no_adapter ch = ''no adapter for channel type '' @ ch_Type ch"

definition upstream_request :: "request_context \<Rightarrow> channel \<Rightarrow> string \<Rightarrow> unified_request" where
  "upstream_request rc ch upstreamModel =
     maybeInjectSystemCache ((rc_uni rc)\<lparr>ur_Model := upstreamModel\<rparr>) ch upstreamModel"

definition serve_success ::
    "'req relay_env \<Rightarrow> request_context \<Rightarrow> int \<Rightarrow> attempt \<Rightarrow> routing_rule option \<Rightarrow> model_price option \<Rightarrow>
     unified_response \<Rightarrow> usage \<Rightarrow> handler" where
  "serve_success env rc estPrompt att rule price uniResp usage =
     (let body = buildResponse (rc_outFormat rc) (env_newid env) (env_now env)
            (uniResp\<lparr>resp_Model := ur_Model (rc_uni rc)\<rparr>);
          rc = (if marshal_ok body then rc\<lparr>rc_respBodyRaw := marshal body\<rparr> else rc)
      in finishing (to_client (setChannelHeaders (fst att) @ gin_JSON 200 body))
           (finish rc (Some att) rule LogSuccess 200 [] (usageTokens usage estPrompt) False (Some (price, usage))))"

definition nonstream_attempt ::
    "'req relay_env \<Rightarrow> request_context \<Rightarrow> int \<Rightarrow> selection \<Rightarrow> channel \<Rightarrow> world \<Rightarrow> outcome \<times> world" where
  "nonstream_attempt env rc estPrompt sel ch w =
     (case For ch of
        None \<Rightarrow> (Failover (no_adapter ch) None [], w)
      | Some ad \<Rightarrow>
          (let upstreamModel = UpstreamModel ch (EffectiveModel sel);
               uni = upstream_request rc ch upstreamModel;
               att = (ch, upstreamModel)
           in case gateModelPrice env rc att (sel_Rule sel) estPrompt False w of
                (Inl evs, w1) \<Rightarrow> (Stop evs, w1)
              | (Inr price, w1) \<Rightarrow>
                  (case env_BuildRequest env ad uni ch of
                     Inl buildErr \<Rightarrow> (Failover buildErr (Some att) [], w1)
                   | Inr req \<Rightarrow>
                       (let call = [CallUpstream (ch_ID ch) upstreamModel] in
                        case env_httpDo env (sel_cursor sel) req of
                          Inl doErr \<Rightarrow> (Failover doErr (Some att) call, w1)
                        | Inr resp \<Rightarrow>
                            (case ParseResponse ad (env_jerr env) resp of
                               Inl ue \<Rightarrow>
                                 if \<not> Retryable ue then
                                   (case failUpstream rc ue (Some att) estPrompt False (sel_Rule sel) w1 of
                                      (evs, w2) \<Rightarrow> (Stop (call @ evs), w2))
                                 else (Failover (upstream_Error ue) (Some att) call, w1)
                             | Inr (uniResp, usage) \<Rightarrow>
                                 (case serve_success env rc estPrompt att (sel_Rule sel) price uniResp usage w1 of
                                    (evs, w2) \<Rightarrow> (Stop (call @ evs), w2)))))))"

definition serveNonStream :: "'req relay_env \<Rightarrow> request_context \<Rightarrow> int \<Rightarrow> handler" where
  "serveNonStream env rc estPrompt w =
     (case SelectChannelCtx (env_intn env) (env_probe env) (routeInput rc estPrompt) w of
        (Inl e, w1) \<Rightarrow> if e = GoPanic then recovered w1 else failNoChannel env rc e estPrompt False w1
      | (Inr sel, w1) \<Rightarrow>
          (let rc = rc\<lparr>rc_probeInfo := probeInfoJSON sel\<rparr> in
           failover_loop (nonstream_attempt env rc estPrompt)
             (\<lambda>lastErr lastAtt. failAllCandidates rc lastErr lastAtt estPrompt False (sel_Rule sel))
             sel None None w1))"

section \<open>Streaming\<close>

definition emptyStreamWarning :: string where
  "emptyStreamWarning = ''upstream stream produced no content''"

definition stream_error_text :: "'req relay_env \<Rightarrow> stream_error \<Rightarrow> string" where
  "stream_error_text env e =
     (case e of
        UpstreamFatal ue \<Rightarrow> upstream_Error ue
      | ReadFailed r \<Rightarrow>
          (case r of
             ReadBroken \<Rightarrow> env_readErrText env
           | ReadEOF \<Rightarrow> ''EOF''
           | ReadUnexpectedEOF \<Rightarrow> ''unexpected EOF''
           | MalformedLengths t h \<Rightarrow> ''bedrock event-stream: malformed frame lengths total='' @ dec t @ '' headers='' @ dec h
           | PayloadBounds \<Rightarrow> ''bedrock event-stream: payload bounds exceed frame''))"

text \<open>What the stream phase makes of the pump's result.\<close>

definition stream_status :: "'req relay_env \<Rightarrow> pump \<Rightarrow> string \<times> int \<times> string" where
  "stream_status env p =
     (case pm_Fatal p of
        Some e \<Rightarrow> (LogError, if upstreamHTTPStatus e \<noteq> 0 then upstreamHTTPStatus e else 200, stream_error_text env e)
      | None \<Rightarrow> (LogSuccess, 200, if pm_Completion p = [] \<and> pm_Usage p = None then emptyStreamWarning else []))"

definition stream_usage :: "int \<times> int \<times> int \<Rightarrow> usage option \<Rightarrow> usage" where
  "stream_usage toks reported =
     empty_usage\<lparr>us_Prompt := fst toks, us_Completion := fst (snd toks), us_Total := snd (snd toks),
       us_CacheRead := (case reported of None \<Rightarrow> 0 | Some u \<Rightarrow> us_CacheRead u),
       us_CacheWrite := (case reported of None \<Rightarrow> 0 | Some u \<Rightarrow> us_CacheWrite u)\<rparr>"

definition stream_billing :: "'req relay_env \<Rightarrow> pump \<Rightarrow> model_price option \<Rightarrow> int \<Rightarrow> billing option" where
  "stream_billing env p price estPrompt =
     (if fst (stream_status env p) = LogSuccess \<and> price \<noteq> None
      then Some (price, stream_usage (finalizeUsage (pm_Usage p) (pm_Completion p) estPrompt) (pm_Usage p))
      else None)"

definition run_stream :: "'req relay_env \<Rightarrow> request_context \<Rightarrow> string \<Rightarrow> stream_response \<Rightarrow> pump" where
  "run_stream env rc ad rsp =
     (if ad = ''anthropic'' \<and> rc_outFormat rc = OutAnthropic
      then pumpAnthropicPassthrough (sr_Gone rsp) (sr_End rsp) (hr_Body (sr_Response rsp))
      else pumpStream ad (rc_outFormat rc) (env_newid env) (ur_Model (rc_uni rc))
             (sr_Gone rsp) (sr_End rsp) (hr_Body (sr_Response rsp)))"

definition stream_phase ::
    "'req relay_env \<Rightarrow> request_context \<Rightarrow> int \<Rightarrow> attempt \<Rightarrow> routing_rule option \<Rightarrow> model_price option \<Rightarrow>
     string \<Rightarrow> stream_response \<Rightarrow> handler" where
  "stream_phase env rc estPrompt att rule price ad rsp =
     (let p = run_stream env rc ad rsp;
          toks = finalizeUsage (pm_Usage p) (pm_Completion p) estPrompt;
          (status, httpStatus, errMsg) = stream_status env p;
          rc' = rc\<lparr>rc_respBodyRaw := pm_Completion p\<rparr>
      in finishing (to_client (setStreamHeaders (rc_outFormat rc) (fst att)
             @ map (\<lambda>f. SendFrame (render_frame f)) (pm_Out p)))
           (finish rc' (Some att) rule status httpStatus errMsg toks True (stream_billing env p price estPrompt)))"

definition maxErrorBody :: int where "maxErrorBody = 8192"

definition stream_attempt ::
    "'req relay_env \<Rightarrow> request_context \<Rightarrow> int \<Rightarrow> selection \<Rightarrow> channel \<Rightarrow> world \<Rightarrow> outcome \<times> world" where
  "stream_attempt env rc estPrompt sel ch w =
     (case For ch of
        None \<Rightarrow> (Failover (no_adapter ch) None [], w)
      | Some ad \<Rightarrow>
          (let upstreamModel = UpstreamModel ch (EffectiveModel sel);
               uni = maybeInjectSystemCache ((rc_uni rc)\<lparr>ur_Model := upstreamModel, ur_Stream := True\<rparr>) ch upstreamModel;
               att = (ch, upstreamModel)
           in case gateModelPrice env rc att (sel_Rule sel) estPrompt True w of
                (Inl evs, w1) \<Rightarrow> (Stop evs, w1)
              | (Inr price, w1) \<Rightarrow>
                  (case env_BuildRequest env ad uni ch of
                     Inl buildErr \<Rightarrow> (Failover buildErr (Some att) [], w1)
                   | Inr req \<Rightarrow>
                       (let call = [CallUpstream (ch_ID ch) upstreamModel] in
                        case env_streamDo env (sel_cursor sel) req of
                          Inl doErr \<Rightarrow> (Failover doErr (Some att) call, w1)
                        | Inr rsp \<Rightarrow>
                            if \<not> ok_status (hr_StatusCode (sr_Response rsp)) then
                              (let body = read_limited maxErrorBody (hr_Body (sr_Response rsp));
                                   ue = \<lparr>ue_Provider = ad, ue_StatusCode = hr_StatusCode (sr_Response rsp),
                                         ue_Message = trim_space body, ue_Body = []\<rparr>
                               in if Retryable ue then (Failover (upstream_Error ue) (Some att) call, w1)
                                  else (case failUpstream rc ue (Some att) estPrompt True (sel_Rule sel) w1 of
                                          (evs, w2) \<Rightarrow> (Stop (call @ evs), w2)))
                            else
                              (case stream_phase env rc estPrompt att (sel_Rule sel) price ad rsp w1 of
                                 (evs, w2) \<Rightarrow> (Stop (call @ evs), w2))))))"

definition serveStream :: "'req relay_env \<Rightarrow> request_context \<Rightarrow> int \<Rightarrow> handler" where
  "serveStream env rc estPrompt w =
     (case SelectChannelCtx (env_intn env) (env_probe env) (routeInput rc estPrompt) w of
        (Inl e, w1) \<Rightarrow> if e = GoPanic then recovered w1 else failNoChannel env rc e estPrompt True w1
      | (Inr sel, w1) \<Rightarrow>
          (let rc = rc\<lparr>rc_probeInfo := probeInfoJSON sel\<rparr> in
           failover_loop (stream_attempt env rc estPrompt)
             (\<lambda>lastErr lastAtt. failAllCandidates rc lastErr lastAtt estPrompt True (sel_Rule sel))
             sel None None w1))"

section \<open>Requests\<close>

definition handle :: "'req relay_env \<Rightarrow> token_row option \<Rightarrow> user option \<Rightarrow> string \<Rightarrow> unified_request \<Rightarrow> string \<Rightarrow> handler" where
  "handle env tok usr format uni rawBody w =
     (case (tok, usr) of
        (Some t, Some u) \<Rightarrow>
          if \<not> modelAllowed t (ur_Model uni) then
            (to_client (WriteClassError format 403 ClassPermission
               (''model '' @ [CHR 0x22] @ ur_Model uni @ [CHR 0x22] @ '' is not allowed for this API key'')), w)
          else
            (let estPrompt = EstimatePromptTokens uni;
                 rc = \<lparr>rc_format = format, rc_outFormat = outFormatFor format (tok_OutputFormat t), rc_uni = uni,
                       rc_token = t, rc_user = u, rc_reqBodyRaw = rawBody, rc_respBodyRaw = [], rc_probeInfo = []\<rparr>
             in (if ur_Stream uni then serveStream env rc estPrompt else serveNonStream env rc estPrompt) w)
      | _ \<Rightarrow> (to_client (WriteClassError format 401 ClassAuthentication ''authentication required''), w))"

section \<open>What a handler leaves behind\<close>

text \<open>A response: headers, then one JSON response or one status line followed by frames.\<close>

fun is_header :: "client_event \<Rightarrow> bool" where
  "is_header (SetHeader _ _) = True"
| "is_header _ = False"

definition response_shape :: "client_event list \<Rightarrow> bool" where
  "response_shape resp \<longleftrightarrow> (\<exists>hs. list_all is_header hs \<and>
     ((\<exists>status body. resp = hs @ [SendJSON status body])
      \<or> (\<exists>frames. resp = hs @ SendStatus 200 # map SendFrame frames)))"

fun event_status :: "client_event \<Rightarrow> int option" where
  "event_status (SendJSON status _) = Some status"
| "event_status (SendStatus status) = Some status"
| "event_status _ = None"

definition response_status :: "client_event list \<Rightarrow> int option" where
  "response_status resp = (case List.map_filter event_status resp of s # _ \<Rightarrow> Some s | [] \<Rightarrow> None)"

lemma response_shape_JSON [simp]: "response_shape [SendJSON status body]"
  unfolding response_shape_def by (intro exI [of _ "[]"]) simp

lemma response_shape_WriteOutError [simp]:
  "response_shape (WriteOutError out status cls msg)" "response_shape (WriteClassError format status cls msg)"
  by (simp_all add: WriteOutError_def WriteClassError_def WriteError_def)

lemma response_status_JSON [simp]: "response_status [SendJSON status body] = Some status"
  by (simp add: response_status_def List.map_filter_simps)

lemma headers [simp]: "list_all is_header (setChannelHeaders ch)"
  by (simp add: setChannelHeaders_def)

lemma response_shape_answer [simp]:
  "response_shape (setChannelHeaders ch @ gin_JSON 200 body)"
  "response_status (setChannelHeaders ch @ gin_JSON 200 body) = Some 200"
proof -
  have "response_shape (setChannelHeaders ch @ SendStatus 200 # map SendFrame [])"
    unfolding response_shape_def by (intro exI [of _ "setChannelHeaders ch"]) (metis headers)
  then show "response_shape (setChannelHeaders ch @ gin_JSON 200 body)"
    unfolding response_shape_def gin_JSON_def
    by (cases "marshal_ok body") (auto intro!: exI [of _ "setChannelHeaders ch"])
  show "response_status (setChannelHeaders ch @ gin_JSON 200 body) = Some 200"
    by (simp add: response_status_def gin_JSON_def setChannelHeaders_def List.map_filter_simps)
qed

lemma response_shape_stream [simp]:
  "response_shape (setStreamHeaders out ch @ map (\<lambda>f. SendFrame (render_frame f)) fs)"
  "response_status (setStreamHeaders out ch @ map (\<lambda>f. SendFrame (render_frame f)) fs) = Some 200"
proof -
  let ?hs = "[SetHeader ''Content-Type'' (if out = OutBedrock then ''application/vnd.amazon.eventstream'' else ''text/event-stream''),
      SetHeader ''Cache-Control'' ''no-cache'', SetHeader ''Connection'' ''keep-alive'',
      SetHeader ''X-Accel-Buffering'' ''no''] @ setChannelHeaders ch"
  have "setStreamHeaders out ch @ map (\<lambda>f. SendFrame (render_frame f)) fs =
      ?hs @ SendStatus 200 # map SendFrame (map render_frame fs)"
    by (simp add: setStreamHeaders_def comp_def)
  then show "response_shape (setStreamHeaders out ch @ map (\<lambda>f. SendFrame (render_frame f)) fs)"
    unfolding response_shape_def
    by (intro exI [of _ ?hs] conjI disjI2 exI [of _ "map render_frame fs"]) (simp_all add: setChannelHeaders_def)
  show "response_status (setStreamHeaders out ch @ map (\<lambda>f. SendFrame (render_frame f)) fs) = Some 200"
    by (simp add: response_status_def setStreamHeaders_def setChannelHeaders_def List.map_filter_simps)
qed

text \<open>Adding log rows changes no count.\<close>

lemma live_logs [simp]:
  "live_token (w\<lparr>w_logs := ls, w_faults := fs\<rparr>) = live_token w"
  "live_user (w\<lparr>w_logs := ls, w_faults := fs\<rparr>) = live_user w"
proof -
  have r: "redis_val (w\<lparr>w_logs := ls, w_faults := fs\<rparr>) k = redis_val w k" for k
    unfolding redis_val_def by simp
  have d: "db_token_used (w\<lparr>w_logs := ls, w_faults := fs\<rparr>) = db_token_used w"
    "db_user_used (w\<lparr>w_logs := ls, w_faults := fs\<rparr>) = db_user_used w"
    by (simp_all add: fun_eq_iff db_token_used_def db_user_used_def find_token_def find_user_def)
  show "live_token (w\<lparr>w_logs := ls, w_faults := fs\<rparr>) = live_token w"
    "live_user (w\<lparr>w_logs := ls, w_faults := fs\<rparr>) = live_user w"
    unfolding live_def r d by (rule refl)+
qed

lemma write_log_step:
  "write_log l w = (r, w') \<Longrightarrow>
     \<exists>logs fs. w' = w\<lparr>w_logs := w_logs w @ logs, w_faults := fs\<rparr> \<and> (logs = [] \<or> logs = [l] \<and> storable_log l)"
proof (cases rule: io_cases [of ErrDB w])
  case (ok fs)
  assume "write_log l w = (r, w')"
  with ok have "w' = w\<lparr>w_logs := w_logs w @ (if storable_log l then [l] else []), w_faults := fs\<rparr>"
    by (cases w) (auto simp: write_log_def db_write_if_def bindM_def split: if_splits)
  then show ?thesis by (metis (full_types))
next
  case (fail fs)
  assume "write_log l w = (r, w')"
  with fail have "w' = w\<lparr>w_logs := w_logs w @ [], w_faults := fs\<rparr>"
    by (cases w) (simp add: write_log_def db_write_if_def bindM_def)
  then show ?thesis by blast
qed

lemma write_log_ok:
  "w_faults w = [] \<Longrightarrow> storable_log l \<Longrightarrow> write_log l w = (Inr (), w\<lparr>w_logs := w_logs w @ [l]\<rparr>)"
  by (simp add: write_log_def db_write_if_def bindM_def)

lemma requestLogIOEnabled_step:
  "\<exists>b w'. requestLogIOEnabled w = (Inr b, w') \<and> same_data w w'"
proof -
  obtain r w' where g: "GetOption OptRequestLogIO ''false'' w = (r, w')" by fastforce
  with GetOption_no_error [OF g] GetOption_data [OF g] show ?thesis
    by (auto simp: requestLogIOEnabled_def bindM_def)
qed

text \<open>
  \<open>finish\<close> in one step: a state with at most one more log row and the same counts, followed
  by the debit of the row's cost if the request succeeded and costs something.
\<close>

definition charge :: "string \<Rightarrow> billing option \<Rightarrow> int" where
  "charge status bill =
     (if status = LogSuccess then (case bill of None \<Rightarrow> 0 | Some b \<Rightarrow> Cost (fst b) (snd b)) else 0)"

lemma finish_step:
  "\<exists>v logs capture. live_token v = live_token w \<and> live_user v = live_user w
     \<and> w_logs v = w_logs w @ logs
     \<and> (logs = [] \<or> logs = [log_row rc att rule status code msg toks stream bill capture])
     \<and> snd (finish rc att rule status code msg toks stream bill w) =
         (if charge status bill > 0
          then snd (Consume (tok_ID (rc_token rc)) (user_ID (rc_user rc)) (charge status bill) v) else v)"
proof -
  obtain capture w1 where o1: "requestLogIOEnabled w = (Inr capture, w1)" "same_data w w1"
    using requestLogIOEnabled_step by blast
  let ?l = "log_row rc att rule status code msg toks stream bill capture"
  obtain r v where l: "write_log ?l w1 = (r, v)" by fastforce
  obtain logs fs where v: "v = w1\<lparr>w_logs := w_logs w1 @ logs, w_faults := fs\<rparr>" "logs = [] \<or> logs = [?l]"
    using write_log_step [OF l] by blast
  have "live_token v = live_token w" "live_user v = live_user w" "w_logs v = w_logs w @ logs"
    using lazy_load_live [OF lazy_load_same [OF o1(2)]] same_dataD [OF o1(2)]
    by (simp_all add: v(1) fun_eq_iff)
  moreover have "snd (finish rc att rule status code msg toks stream bill w) =
      (if charge status bill > 0
       then snd (Consume (tok_ID (rc_token rc)) (user_ID (rc_user rc)) (charge status bill) v) else v)"
    using o1(1) l
    by (cases "Consume (tok_ID (rc_token rc)) (user_ID (rc_user rc)) (charge status bill) v")
      (auto simp: finish_def bindM_def seqM_def tryM_def charge_def Let_def split: option.splits)
  ultimately show ?thesis using v(2) by blast
qed

section \<open>The contract of a request\<close>

text \<open>
  \<open>concluded rc w resp w'\<close>: the request is answered with \<open>resp\<close>, at most one log row of this
  user and token is added, and usage changes only by the debit of the cost the row shows,
  after an answer with status 200.
\<close>

definition log_matches :: "request_context \<Rightarrow> client_event list \<Rightarrow> int \<Rightarrow> request_log \<Rightarrow> bool" where
  "log_matches rc resp cost l \<longleftrightarrow>
     log_UserID l = user_ID (rc_user rc) \<and> log_TokenID l = Some (tok_ID (rc_token rc))
     \<and> (log_IsStream l \<or> response_status resp = Some (log_HTTPStatus l))
     \<and> (if log_Status l = LogSuccess then response_status resp = Some 200
         else log_CostMicroUSD l = None)
     \<and> cost = (case log_CostMicroUSD l of None \<Rightarrow> 0 | Some c \<Rightarrow> c)"

definition concluded :: "request_context \<Rightarrow> world \<Rightarrow> client_event list \<Rightarrow> world \<Rightarrow> bool" where
  "concluded rc w resp w' \<longleftrightarrow> response_shape resp \<and>
     (\<exists>v logs cost. live_token v = live_token w \<and> live_user v = live_user w
       \<and> w_logs v = w_logs w @ logs \<and> length logs \<le> 1 \<and> list_all (log_matches rc resp cost) logs
       \<and> w' = (if cost > 0 then snd (Consume (tok_ID (rc_token rc)) (user_ID (rc_user rc)) cost v) else v)
       \<and> (if cost > 0 then response_status resp = Some 200 else True))"

lemma concluded_lazy: "lazy_load w v \<Longrightarrow> concluded rc v resp w' \<Longrightarrow> concluded rc w resp w'"
  using lazy_load_live [of w v] lazy_load_frame(4) [of w v]
  unfolding concluded_def fun_eq_iff by metis

lemma concluded_same: "same_data w v \<Longrightarrow> concluded rc v resp w' \<Longrightarrow> concluded rc w resp w'"
  by (rule concluded_lazy [OF lazy_load_same])

lemma concluded_cong:
  "rc_token rc' = rc_token rc \<Longrightarrow> rc_user rc' = rc_user rc \<Longrightarrow> concluded rc' w resp w' = concluded rc w resp w'"
  by (simp add: concluded_def log_matches_def [abs_def])

lemma finishing_concluded:
  assumes "response_shape resp"
    and "stream \<or> response_status resp = Some code"
    and "if status = LogSuccess then response_status resp = Some 200 else bill = None"
  shows "\<exists>w'. finishing (to_client resp) (finish rc att rule status code msg toks stream bill) w =
      (to_client resp, w') \<and> concluded rc w resp w'"
proof -
  from finish_step [of w rc att rule status code msg toks stream bill] obtain v logs capture where f:
      "live_token v = live_token w" "live_user v = live_user w" "w_logs v = w_logs w @ logs"
      "logs = [] \<or> logs = [log_row rc att rule status code msg toks stream bill capture]"
      "snd (finish rc att rule status code msg toks stream bill w) =
         (if charge status bill > 0
          then snd (Consume (tok_ID (rc_token rc)) (user_ID (rc_user rc)) (charge status bill) v) else v)"
    by (elim exE conjE) (rule that)
  have "log_matches rc resp (charge status bill)
      (log_row rc att rule status code msg toks stream bill capture)"
    using assms(2,3)
    by (cases bill; cases "status = LogSuccess") (simp_all add: log_matches_def log_row_def charge_def)
  moreover have "charge status bill > 0 \<Longrightarrow> response_status resp = Some 200"
    using assms(3) by (simp add: charge_def split: if_splits)
  ultimately have "concluded rc w resp (snd (finish rc att rule status code msg toks stream bill w))"
    unfolding concluded_def f(5)
  proof (intro conjI exI [of _ v] exI [of _ logs] exI [of _ "charge status bill"])
    show "length logs \<le> 1" using f(4) by (elim disjE) simp_all
    show "list_all (log_matches rc resp (charge status bill)) logs"
      using f(4) \<open>log_matches _ _ _ _\<close> by (elim disjE) simp_all
  qed (use assms(1) f(1-3) \<open>charge status bill > 0 \<Longrightarrow> _\<close> in simp_all)
  then show ?thesis by (simp add: finishing_def)
qed

section \<open>The failover loop\<close>

text \<open>
  The interface between the loop and the two kinds of attempt: what an attempt may do to the
  trace and the world when it ends the request and when it fails over.
\<close>

abbreviation calls :: "(nat \<times> string) list \<Rightarrow> relay_event list" where
  "calls cs \<equiv> map (\<lambda>(i, m). CallUpstream i m) cs"

definition call_of :: "selection \<Rightarrow> channel \<Rightarrow> nat \<times> string" where
  "call_of sel ch = (ch_ID ch, UpstreamModel ch (EffectiveModel sel))"

text \<open>The channels that are still to be tried, within the retry budget.\<close>

definition plan :: "selection \<Rightarrow> channel list" where
  "plan sel = drop (sel_cursor sel) (take (nat (sel_maxRetries sel)) (sel_candidates sel))"

lemma plan_next:
  assumes "next_channel sel = (Inr ch, sel')"
  shows "plan sel = ch # plan sel'"
proof -
  let ?xs = "take (nat (sel_maxRetries sel)) (sel_candidates sel)"
  from assms have "sel_cursor sel < length ?xs" "ch = ?xs ! sel_cursor sel"
    "sel' = sel\<lparr>sel_cursor := Suc (sel_cursor sel)\<rparr>"
    by (auto simp: next_channel_def split: if_splits)
  then show ?thesis
    using Cons_nth_drop_Suc [of "sel_cursor sel" ?xs] by (simp add: plan_def)
qed

lemma plan_stop: "next_channel sel = (Inl e, sel') \<Longrightarrow> plan sel = []"
  by (auto simp: plan_def next_channel_def split: if_splits)

locale failover =
  fixes attempt :: "selection \<Rightarrow> channel \<Rightarrow> world \<Rightarrow> outcome \<times> world"
    and exhausted :: "string option \<Rightarrow> attempt option \<Rightarrow> handler"
    and served :: "world \<Rightarrow> client_event list \<Rightarrow> world \<Rightarrow> bool"
  assumes stop: "attempt sel ch w = (Stop evs, w') \<Longrightarrow>
      \<exists>cs resp. evs = calls cs @ to_client resp \<and> (cs = [] \<or> cs = [call_of sel ch]) \<and> served w resp w'"
    and next_attempt: "attempt sel ch w = (Failover e att evs, w') \<Longrightarrow>
      lazy_load w w' \<and> (\<exists>cs. evs = calls cs \<and> (cs = [] \<or> cs = [call_of sel ch]))"
    and exhausted: "\<exists>resp w'. exhausted lastErr lastAtt w = (to_client resp, w') \<and> served w resp w'"
    and served_lazy: "lazy_load w v \<Longrightarrow> served v resp w' \<Longrightarrow> served w resp w'"
begin

lemma loop:
  "\<exists>cs resp w'. failover_loop attempt exhausted sel lastErr lastAtt w = (calls cs @ to_client resp, w')
     \<and> subseq cs (map (call_of sel) (plan sel)) \<and> served w resp w'"
proof (induction "plan sel" arbitrary: sel lastErr lastAtt w)
  case Nil
  then obtain e sel' where n: "next_channel sel = (Inl e, sel')"
    by (cases "next_channel sel"; cases "fst (next_channel sel)") (auto dest: plan_next)
  obtain resp w' where "exhausted lastErr lastAtt w = (to_client resp, w')" "served w resp w'"
    using exhausted by blast
  with n show ?case
    by (intro exI [of _ "[]"] exI [of _ resp] exI [of _ w']) (simp add: failover_loop.simps [of _ _ sel])
next
  case (Cons ch chs)
  from Cons.hyps(2) obtain sel' where n: "next_channel sel = (Inr ch, sel')" and p: "chs = plan sel'"
    by (cases "next_channel sel"; cases "fst (next_channel sel)") (auto dest: plan_next plan_stop)
  from n have same: "call_of sel' = call_of sel"
    by (auto simp: next_channel_def call_of_def [abs_def] EffectiveModel_def split: if_splits)
  show ?case
  proof (cases "attempt sel' ch w")
    case (Pair out w1)
    show ?thesis
    proof (cases out)
      case (Stop evs)
      with stop Pair obtain cs resp where s: "evs = calls cs @ to_client resp"
        "cs = [] \<or> cs = [call_of sel' ch]" "served w resp w1"
        by blast
      then have "subseq cs (map (call_of sel) (plan sel))"
        using same by (elim disjE) (simp_all flip: Cons.hyps(2))
      with s n Pair Stop show ?thesis
        by (intro exI [of _ cs] exI [of _ resp] exI [of _ w1]) (simp add: failover_loop.simps [of _ _ sel])
    next
      case (Failover e att evs)
      with next_attempt Pair obtain cs where s: "evs = calls cs" "cs = [] \<or> cs = [call_of sel' ch]"
        "lazy_load w w1"
        by blast
      obtain cs' resp w' where r:
        "failover_loop attempt exhausted sel' (Some e) (if att = None then lastAtt else att) w1 =
           (calls cs' @ to_client resp, w')"
        "subseq cs' (map (call_of sel') (plan sel'))" "served w1 resp w'"
        using Cons.hyps(1) [OF p] by blast
      have "subseq (cs @ cs') (map (call_of sel) (plan sel))"
        using s(2) r(2) plan_next [OF n] same by (elim disjE) (simp_all add: list_emb_Cons)
      moreover have "served w resp w'" using served_lazy [OF s(3) r(3)] .
      moreover have "failover_loop attempt exhausted sel lastErr lastAtt w = (calls (cs @ cs') @ to_client resp, w')"
        using n Pair Failover r(1) s(1) by (simp add: failover_loop.simps [of _ _ sel])
      ultimately show ?thesis by blast
    qed
  qed
qed

end

section \<open>Both kinds of attempt keep the contract\<close>

lemma Lookup_data: "Lookup i m w = (r, w') \<Longrightarrow> same_data w w'"
  by (auto simp: Lookup_def bindM_def dest: db_read_data split: prod.splits sum.splits)

lemma response_status_WriteOutError [simp]:
  "response_status (WriteOutError out status cls msg) = Some status"
  "response_status (WriteClassError format status cls msg) = Some status"
  by (simp_all add: WriteOutError_def WriteClassError_def WriteError_def)

lemma finishing_error:
  "\<exists>resp w'. finishing (to_client (WriteOutError out code cls msg))
       (finish rc att rule LogError code m toks stream None) w = (to_client resp, w') \<and> concluded rc w resp w'"
  by (rule exI [of _ "WriteOutError out code cls msg"]) (intro finishing_concluded; simp add: enum_defs)

lemma failures_concluded:
  "\<exists>resp w'. reject rc att rule estPrompt stream status cls msg logMsg w = (to_client resp, w')
     \<and> concluded rc w resp w'"
  "\<exists>resp w'. failUpstream rc ue att' estPrompt stream rule w = (to_client resp, w') \<and> concluded rc w resp w'"
  "\<exists>resp w'. failAllCandidates rc lastErr att' estPrompt stream rule w = (to_client resp, w')
     \<and> concluded rc w resp w'"
  "\<exists>resp w'. failNoChannel env rc e estPrompt stream w = (to_client resp, w') \<and> concluded rc w resp w'"
  unfolding reject_def failUpstream_def failAllCandidates_def failNoChannel_def Let_def
  by (rule finishing_error)+

lemma gate_step:
  assumes "gateModelPrice env rc att rule estPrompt stream w = (r, w')"
  shows "case r of Inl evs \<Rightarrow> \<exists>resp. evs = to_client resp \<and> concluded rc w resp w'
    | Inr _ \<Rightarrow> lazy_load w w'"
proof -
  obtain r1 w1 where l: "Lookup (ch_ID (fst att)) (snd att) w = (r1, w1)" by fastforce
  note d = Lookup_data [OF l]
  show ?thesis
  proof (cases r1)
    case (Inl e)
    obtain resp w2 where rj: "reject rc att rule estPrompt stream 500 ClassInternal ''could not look up model price''
        (''price lookup: '' @ env_errText env e) w1 = (to_client resp, w2)" "concluded rc w1 resp w2"
      using failures_concluded(1) by blast
    with Inl l assms concluded_same [OF d rj(2)] show ?thesis
      by (auto simp: gateModelPrice_def)
  next
    case (Inr price)
    let ?est = "Cost price (prompt_usage estPrompt)"
    obtain r2 w2 where c: "CheckRemaining (tok_ID (rc_token rc)) (user_ID (rc_user rc)) ?est w1 = (r2, w2)"
      by fastforce
    have lz: "lazy_load w w2"
      using lazy_load_trans [OF lazy_load_same [OF d] CheckRemaining_lazy [OF c]] .
    show ?thesis
    proof (cases r2)
      case (Inl e)
      obtain resp w3 where rj: "reject rc att rule estPrompt stream 500 ClassInternal ''could not check quota''
          (''quota check: '' @ env_errText env e) w2 = (to_client resp, w3)" "concluded rc w2 resp w3"
        using failures_concluded(1) by blast
      with Inl \<open>r1 = Inr price\<close> l c assms concluded_lazy [OF lz rj(2)] show ?thesis
        by (auto simp: gateModelPrice_def)
    next
      case (Inr rem)
      let ?msg = "''insufficient balance: estimated cost '' @ formatMicroUSD ?est
          @ '' exceeds remaining '' @ formatMicroUSD rem"
      obtain resp w3 where rj: "reject rc att rule estPrompt stream 402 ClassQuota ?msg ?msg w2 = (to_client resp, w3)"
          "concluded rc w2 resp w3"
        using failures_concluded(1) by blast
      with Inr \<open>r1 = Inr price\<close> l c assms lz concluded_lazy [OF lz rj(2)] show ?thesis
        by (auto simp: gateModelPrice_def Let_def split: if_splits)
    qed
  qed
qed

section \<open>Attempts\<close>

lemma serve_success_concluded:
  "\<exists>resp w'. serve_success env rc estPrompt att rule price uniResp usage w = (to_client resp, w')
     \<and> concluded rc w resp w'"
proof -
  define body where "body = buildResponse (rc_outFormat rc) (env_newid env) (env_now env)
      (uniResp\<lparr>resp_Model := ur_Model (rc_uni rc)\<rparr>)"
  let ?rc = "if marshal_ok body then rc\<lparr>rc_respBodyRaw := marshal body\<rparr> else rc"
  let ?resp = "setChannelHeaders (fst att) @ gin_JSON 200 body"
  have "\<exists>w'. finishing (to_client ?resp) (finish ?rc (Some att) rule LogSuccess 200 []
        (usageTokens usage estPrompt) False (Some (price, usage))) w = (to_client ?resp, w')
      \<and> concluded ?rc w ?resp w'"
    by (rule finishing_concluded) simp_all
  moreover have "concluded ?rc w ?resp w' = concluded rc w ?resp w'" for w'
    by (rule concluded_cong) simp_all
  ultimately show ?thesis
    unfolding serve_success_def Let_def body_def [symmetric] by blast
qed

lemma stream_billing_success: "fst (stream_status env p) \<noteq> LogSuccess \<Longrightarrow> stream_billing env p price est = None"
  by (simp add: stream_billing_def)

lemma stream_phase_concluded:
  "\<exists>resp w'. stream_phase env rc estPrompt att rule price ad rsp w = (to_client resp, w')
     \<and> concluded rc w resp w'"
proof -
  define p where "p = run_stream env rc ad rsp"
  obtain status code msg where st: "stream_status env p = (status, code, msg)" by (cases "stream_status env p")
  let ?rc = "rc\<lparr>rc_respBodyRaw := pm_Completion p\<rparr>"
  let ?resp = "setStreamHeaders (rc_outFormat rc) (fst att) @ map (\<lambda>f. SendFrame (render_frame f)) (pm_Out p)"
  have "\<exists>w'. finishing (to_client ?resp) (finish ?rc (Some att) rule status code msg
        (finalizeUsage (pm_Usage p) (pm_Completion p) estPrompt) True (stream_billing env p price estPrompt)) w =
        (to_client ?resp, w') \<and> concluded ?rc w ?resp w'"
    using stream_billing_success [of env p] st by (intro finishing_concluded) simp_all
  moreover have "concluded ?rc w ?resp w' = concluded rc w ?resp w'" for w'
    by (rule concluded_cong) simp_all
  ultimately show ?thesis
    unfolding stream_phase_def Let_def p_def [symmetric] st prod.case by blast
qed

lemma nonstream_attempt_cases:
  assumes "nonstream_attempt env rc estPrompt sel ch w = (out, w')"
  shows "case out of
      Stop evs \<Rightarrow> \<exists>cs resp. evs = calls cs @ to_client resp \<and> (cs = [] \<or> cs = [call_of sel ch])
        \<and> concluded rc w resp w'
    | Failover e att evs \<Rightarrow> lazy_load w w' \<and> (\<exists>cs. evs = calls cs \<and> (cs = [] \<or> cs = [call_of sel ch]))"
proof (cases "For ch")
  case None
  with assms show ?thesis by (auto simp: nonstream_attempt_def intro: exI [of _ "[]"])
next
  case (Some ad)
  define um where "um = UpstreamModel ch (EffectiveModel sel)"
  define uni where "uni = upstream_request rc ch um"
  let ?call = "[CallUpstream (ch_ID ch) um]"
  note c = call_of_def [of sel ch, folded um_def]
  obtain g w1 where gate: "gateModelPrice env rc (ch, um) (sel_Rule sel) estPrompt False w = (g, w1)" by fastforce
  note run = assms [unfolded nonstream_attempt_def Some option.case Let_def um_def [symmetric]
      uni_def [symmetric] gate prod.case]
  show ?thesis
  proof (cases g)
    case (Inl evs)
    with gate_step [OF gate] run show ?thesis by (auto intro!: exI [of _ "[] :: (nat \<times> string) list"]) blast
  next
    case (Inr price)
    with gate_step [OF gate] have lz: "lazy_load w w1" by simp
    show ?thesis
    proof (cases "env_BuildRequest env ad uni ch")
      case (Inl e)
      with run Inr lz show ?thesis by (auto intro: exI [of _ "[]"])
    next
      case req: (Inr req)
      show ?thesis
      proof (cases "env_httpDo env (sel_cursor sel) req")
        case (Inl e)
        with run Inr req lz show ?thesis by (auto simp: c intro!: exI [of _ "[call_of sel ch]"])
      next
        case resp: (Inr resp)
        show ?thesis
        proof (cases "ParseResponse ad (env_jerr env) resp")
          case ue: (Inl ue)
          show ?thesis
          proof (cases "Retryable ue")
            case True
            with run Inr req resp ue lz show ?thesis by (auto simp: c intro!: exI [of _ "[call_of sel ch]"])
          next
            case False
            obtain r w2 where f: "failUpstream rc ue (Some (ch, um)) estPrompt False (sel_Rule sel) w1 = (to_client r, w2)"
                "concluded rc w1 r w2"
              using failures_concluded(2) by blast
            with False run Inr req resp ue have "out = Stop (?call @ to_client r)" "w' = w2" by auto
            with concluded_lazy [OF lz f(2)] show ?thesis
              by (auto simp: c intro!: exI [of _ "[call_of sel ch]"] exI [of _ r])
          qed
        next
          case ok: (Inr ru)
          obtain ur us where ru: "ru = (ur, us)" by fastforce
          obtain r w2 where f: "serve_success env rc estPrompt (ch, um) (sel_Rule sel) price ur us w1 = (to_client r, w2)"
              "concluded rc w1 r w2"
            using serve_success_concluded by blast
          with run Inr req resp ok ru have "out = Stop (?call @ to_client r)" "w' = w2" by auto
          with concluded_lazy [OF lz f(2)] show ?thesis
            by (auto simp: c intro!: exI [of _ "[call_of sel ch]"] exI [of _ r])
        qed
      qed
    qed
  qed
qed

lemma stream_attempt_cases:
  assumes "stream_attempt env rc estPrompt sel ch w = (out, w')"
  shows "case out of
      Stop evs \<Rightarrow> \<exists>cs resp. evs = calls cs @ to_client resp \<and> (cs = [] \<or> cs = [call_of sel ch])
        \<and> concluded rc w resp w'
    | Failover e att evs \<Rightarrow> lazy_load w w' \<and> (\<exists>cs. evs = calls cs \<and> (cs = [] \<or> cs = [call_of sel ch]))"
proof (cases "For ch")
  case None
  with assms show ?thesis by (auto simp: stream_attempt_def intro: exI [of _ "[]"])
next
  case (Some ad)
  define um where "um = UpstreamModel ch (EffectiveModel sel)"
  define uni where "uni = maybeInjectSystemCache ((rc_uni rc)\<lparr>ur_Model := um, ur_Stream := True\<rparr>) ch um"
  note c = call_of_def [of sel ch, folded um_def]
  obtain g w1 where gate: "gateModelPrice env rc (ch, um) (sel_Rule sel) estPrompt True w = (g, w1)" by fastforce
  note run = assms [unfolded stream_attempt_def Some option.case Let_def um_def [symmetric]
      uni_def [symmetric] gate prod.case]
  show ?thesis
  proof (cases g)
    case (Inl evs)
    with gate_step [OF gate] run show ?thesis by (auto intro!: exI [of _ "[] :: (nat \<times> string) list"]) blast
  next
    case (Inr price)
    with gate_step [OF gate] have lz: "lazy_load w w1" by simp
    show ?thesis
    proof (cases "env_BuildRequest env ad uni ch")
      case (Inl e)
      with run Inr lz show ?thesis by (auto intro: exI [of _ "[]"])
    next
      case req: (Inr req)
      show ?thesis
      proof (cases "env_streamDo env (sel_cursor sel) req")
        case (Inl e)
        with run Inr req lz show ?thesis by (auto simp: c intro!: exI [of _ "[call_of sel ch]"])
      next
        case rsp: (Inr rsp)
        let ?ue = "\<lparr>ue_Provider = ad, ue_StatusCode = hr_StatusCode (sr_Response rsp),
          ue_Message = trim_space (read_limited maxErrorBody (hr_Body (sr_Response rsp))), ue_Body = []\<rparr>"
        obtain r w2 where f: "failUpstream rc ?ue (Some (ch, um)) estPrompt True (sel_Rule sel) w1 = (to_client r, w2)"
            "concluded rc w1 r w2"
          using failures_concluded(2) by blast
        obtain r' w2' where s: "stream_phase env rc estPrompt (ch, um) (sel_Rule sel) price ad rsp w1 = (to_client r', w2')"
            "concluded rc w1 r' w2'"
          using stream_phase_concluded by blast
        from run Inr req rsp f(1) s(1) lz concluded_lazy [OF lz f(2)] concluded_lazy [OF lz s(2)] show ?thesis
          by (auto simp: c split: if_splits intro!: exI [of _ "[call_of sel ch]"]) blast+
      qed
    qed
  qed
qed

interpretation nonstream: failover "nonstream_attempt env rc estPrompt"
    "\<lambda>lastErr lastAtt. failAllCandidates rc lastErr lastAtt estPrompt False rule" "concluded rc"
  for env rc estPrompt rule
  by unfold_locales
    (auto dest: nonstream_attempt_cases intro: concluded_lazy failures_concluded(3))

interpretation stream: failover "stream_attempt env rc estPrompt"
    "\<lambda>lastErr lastAtt. failAllCandidates rc lastErr lastAtt estPrompt True rule" "concluded rc"
  for env rc estPrompt rule
  by unfold_locales
    (auto dest: stream_attempt_cases intro: concluded_lazy failures_concluded(3))

section \<open>Requests as a whole\<close>

lemma SelectChannelCtx_data: "SelectChannelCtx intn pb inp w = (r, w') \<Longrightarrow> same_data w w'"
proof -
  have d: "maxRetries v = (r, v') \<Longrightarrow> same_data v v'" "enabledRulesByPriority v = (r2, v') \<Longrightarrow> same_data v v'"
    "candidateChannels m e v = (r2', v') \<Longrightarrow> same_data v v'" for m e v r r2 r2' v'
    by (auto simp: maxRetries_def enabledRulesByPriority_def candidateChannels_def bindM_def
        split: prod.splits sum.splits dest: GetOption_data db_read_data)
  assume "SelectChannelCtx intn pb inp w = (r, w')"
  then show ?thesis
    unfolding SelectChannelCtx_unfold
    by (auto simp: bindM_def Let_def split: prod.splits sum.splits if_splits option.splits
        dest!: d intro: same_data_trans)
qed

text \<open>A panic concludes a request as well: nothing has been written or charged.\<close>

lemma silent_concluded:
  assumes "response_shape resp" "live_token v = live_token w" "live_user v = live_user w" "w_logs v = w_logs w"
  shows "concluded rc w resp v"
  unfolding concluded_def
  using assms by (intro conjI exI [of _ v] exI [of _ "[]"] exI [of _ "0 :: int"]) simp_all

lemma recovered_concluded: "\<exists>resp. recovered w = (to_client resp, w) \<and> concluded rc w resp w"
  unfolding recovered_def
  by (intro exI [of _ "[SendJSON 500 _]"] conjI refl silent_concluded) simp_all

definition probed :: "request_context \<Rightarrow> selection \<Rightarrow> request_context" where
  "probed rc sel = rc\<lparr>rc_probeInfo := probeInfoJSON sel\<rparr>"

lemma serve_step:
  assumes "SelectChannelCtx (env_intn env) (env_probe env) (routeInput rc estPrompt) w = (Inr sel, w1)"
  shows "\<exists>cs resp w'. serveNonStream env rc estPrompt w = (calls cs @ to_client resp, w')
      \<and> subseq cs (map (call_of sel) (plan sel)) \<and> concluded rc w resp w'"
    and "\<exists>cs resp w'. serveStream env rc estPrompt w = (calls cs @ to_client resp, w')
      \<and> subseq cs (map (call_of sel) (plan sel)) \<and> concluded rc w resp w'"
proof -
  note d = SelectChannelCtx_data [OF assms]
  have c: "concluded (probed rc sel) w1 resp w' \<Longrightarrow> concluded rc w resp w'" for resp w'
    using concluded_same [OF d] concluded_cong [of "probed rc sel" rc] by (simp add: probed_def)
  show "\<exists>cs resp w'. serveNonStream env rc estPrompt w = (calls cs @ to_client resp, w')
      \<and> subseq cs (map (call_of sel) (plan sel)) \<and> concluded rc w resp w'"
    using nonstream.loop [where env = env and rc = "probed rc sel" and rule = "sel_Rule sel" and sel = sel and w = w1
        and estPrompt = estPrompt and lastErr = None and lastAtt = None] c
    unfolding serveNonStream_def assms prod.case sum.case Let_def probed_def [symmetric] by blast
  show "\<exists>cs resp w'. serveStream env rc estPrompt w = (calls cs @ to_client resp, w')
      \<and> subseq cs (map (call_of sel) (plan sel)) \<and> concluded rc w resp w'"
    using stream.loop [where env = env and rc = "probed rc sel" and rule = "sel_Rule sel" and sel = sel and w = w1
        and estPrompt = estPrompt and lastErr = None and lastAtt = None] c
    unfolding serveStream_def assms prod.case sum.case Let_def probed_def [symmetric] by blast
qed

lemma serve_none:
  assumes "SelectChannelCtx (env_intn env) (env_probe env) (routeInput rc estPrompt) w = (Inl e, w1)"
  shows "\<exists>resp w'. serveNonStream env rc estPrompt w = (to_client resp, w') \<and> concluded rc w resp w'"
    and "\<exists>resp w'. serveStream env rc estPrompt w = (to_client resp, w') \<and> concluded rc w resp w'"
proof -
  note c = concluded_same [OF SelectChannelCtx_data [OF assms]]
  show "\<exists>resp w'. serveNonStream env rc estPrompt w = (to_client resp, w') \<and> concluded rc w resp w'"
    using recovered_concluded [of w1 rc] failures_concluded(4) [of env rc e estPrompt False w1] c
    unfolding serveNonStream_def assms prod.case sum.case by (cases "e = GoPanic") (simp, blast)+
  show "\<exists>resp w'. serveStream env rc estPrompt w = (to_client resp, w') \<and> concluded rc w resp w'"
    using recovered_concluded [of w1 rc] failures_concluded(4) [of env rc e estPrompt True w1] c
    unfolding serveStream_def assms prod.case sum.case by (cases "e = GoPanic") (simp, blast)+
qed

definition request_context_of :: "token_row \<Rightarrow> user \<Rightarrow> string \<Rightarrow> unified_request \<Rightarrow> string \<Rightarrow> request_context" where
  "request_context_of t u format uni rawBody =
     \<lparr>rc_format = format, rc_outFormat = outFormatFor format (tok_OutputFormat t), rc_uni = uni, rc_token = t,
      rc_user = u, rc_reqBodyRaw = rawBody, rc_respBodyRaw = [], rc_probeInfo = []\<rparr>"

lemma handle_serve:
  "modelAllowed t (ur_Model uni) \<Longrightarrow> handle env (Some t) (Some u) format uni rawBody w =
     (let rc = request_context_of t u format uni rawBody; est = EstimatePromptTokens uni in
      if ur_Stream uni then serveStream env rc est w else serveNonStream env rc est w)"
  by (simp add: handle_def request_context_of_def Let_def)

lemma handle_concluded:
  "\<exists>cs resp w'. handle env (Some t) (Some u) format uni rawBody w = (calls cs @ to_client resp, w')
     \<and> concluded (request_context_of t u format uni rawBody) w resp w'"
proof (cases "modelAllowed t (ur_Model uni)")
  case False
  let ?resp = "WriteClassError format 403 ClassPermission
      (''model '' @ [CHR 0x22] @ ur_Model uni @ [CHR 0x22] @ '' is not allowed for this API key'')"
  have "handle env (Some t) (Some u) format uni rawBody w = (calls [] @ to_client ?resp, w)"
    using False by (simp add: handle_def)
  moreover have "concluded (request_context_of t u format uni rawBody) w ?resp w"
    by (rule silent_concluded) simp_all
  ultimately show ?thesis by blast
next
  case True
  let ?rc = "request_context_of t u format uni rawBody"
  let ?est = "EstimatePromptTokens uni"
  obtain r w1 where sel: "SelectChannelCtx (env_intn env) (env_probe env) (routeInput ?rc ?est) w = (r, w1)"
    by fastforce
  show ?thesis
  proof (cases r)
    case (Inl e)
    have n: "calls [] @ xs = xs" for xs by simp
    from serve_none [OF sel [unfolded Inl]] show ?thesis
      unfolding handle_serve [OF True] Let_def by (cases "ur_Stream uni") (metis n)+
  next
    case (Inr s)
    from serve_step [OF sel [unfolded Inr]] show ?thesis
      unfolding handle_serve [OF True] Let_def by (cases "ur_Stream uni") (simp, blast)+
  qed
qed

section \<open>The gate without database failures\<close>

lemma bindM_logs:
  assumes "\<And>v. w_logs (snd (m v)) = w_logs v" "\<And>x v. w_logs (snd (f x v)) = w_logs v"
  shows "w_logs (snd (bindM m f v)) = w_logs v"
proof -
  obtain r v' where m: "m v = (r, v')" by fastforce
  with assms(1) [of v] have "w_logs v' = w_logs v" by simp
  with m assms(2) show ?thesis by (cases r) (simp_all add: bindM_def)
qed

lemma seqM_logs:
  "(\<And>v. w_logs (snd (m v)) = w_logs v) \<Longrightarrow> (\<And>v. w_logs (snd (n v)) = w_logs v) \<Longrightarrow>
     w_logs (snd (seqM m n v)) = w_logs v"
  unfolding seqM_def by (rule bindM_logs)

lemma Consume_logs: "w_logs (snd (Consume i j n w)) = w_logs w"
proof -
  have db: "(\<And>u. w_logs (f u) = w_logs u) \<Longrightarrow> w_logs (snd (db_write_if ok f v)) = w_logs v" for ok f v
    by (cases rule: io_cases [of ErrDB v]) (auto simp: db_write_if_def bindM_def)
  have q: "w_logs (snd (tokenQuotaAndUsed a v)) = w_logs v" "w_logs (snd (userQuotaAndUsed a v)) = w_logs v" for a v
    using lazy_load_frame(4) tokenQuotaAndUsed_step [of a v] userQuotaAndUsed_step [of a v]
    by (metis prod.collapse)+
  have inc: "w_logs (snd (redis_incrby k m v)) = w_logs v" for k m v
    by (cases rule: io_cases [of ErrRedis v]) (auto simp: redis_incrby_def bindM_def Let_def redis_upd_def)
  have "w_logs (snd (seqM (db_add_token_used i n) (db_add_user_used j n) w)) = w_logs w"
    unfolding db_add_token_used_def db_add_user_used_def
    by (intro seqM_logs db) (simp_all add: upd_token_def upd_user_def)
  moreover have "w_logs (snd (seqM (tokenQuotaAndUsed i) (seqM (userQuotaAndUsed j)
      (seqM (redis_incrby (tokenUsedKey i) n) (seqM (redis_incrby (userUsedKey j) n)
        (modifyM (markDirty i j))))) w)) = w_logs w"
    by (intro seqM_logs q inc) (simp add: markDirty_def)
  ultimately show ?thesis by (simp add: Consume_def)
qed

text \<open>The headroom of a token and its user, in a state without failures.\<close>

definition headroom :: "world \<Rightarrow> nat \<Rightarrow> nat \<Rightarrow> int option" where
  "headroom w i j =
     (case (find_token i w, find_user j w, live_token w i, live_user w j) of
        (Some t, Some u, Some tu, Some uu) \<Rightarrow>
          Some (minRemaining (remaining (tok_Quota t) tu) (remaining (user_Quota u) uu))
      | _ \<Rightarrow> None)"

lemma headroom_lazy: "lazy_load w w' \<Longrightarrow> headroom w' i j = headroom w i j"
  using lazy_load_frame(12,13) [of w w'] lazy_load_live [of w w'] by (simp add: headroom_def)

definition price_of :: "world \<Rightarrow> nat \<Rightarrow> string \<Rightarrow> model_price option" where
  "price_of w i m =
     (case price_row i m w of
        None \<Rightarrow> None
      | Some p \<Rightarrow> if price_Input p \<le> 0 \<or> price_Output p \<le> 0 then None else Some p)"

lemma price_of_lazy: "lazy_load w w' \<Longrightarrow> price_of w' i m = price_of w i m"
  using lazy_load_frame(3) [of w w'] by (simp add: price_of_def price_row_def)

lemma Lookup_ok: "w_faults w = [] \<Longrightarrow> Lookup i m w = (Inr (price_of w i m), w)"
  by (simp add: Lookup_def bindM_def price_of_def)

lemma CheckRemaining_headroom:
  assumes "w_faults w = []" "headroom w i j = Some r"
  shows "\<exists>w'. CheckRemaining i j est w = (Inr r, w') \<and> lazy_load w w' \<and> w_faults w' = []"
  using assms(2) CheckRemaining_ok [OF assms(1), of i _ j _ _ _ est]
  by (auto simp: headroom_def split: option.splits)

definition affordable :: "world \<Rightarrow> request_context \<Rightarrow> int \<Rightarrow> attempt \<Rightarrow> int \<Rightarrow> bool" where
  "affordable w rc estPrompt att r \<longleftrightarrow>
     \<not> (0 \<le> r \<and> r < Cost (price_of w (ch_ID (fst att)) (snd att)) (prompt_usage estPrompt))"

lemma gate_pass:
  assumes "w_faults w = []" "headroom w (tok_ID (rc_token rc)) (user_ID (rc_user rc)) = Some r"
    "affordable w rc estPrompt att r"
  shows "\<exists>w'. gateModelPrice env rc att rule estPrompt stream w =
      (Inr (price_of w (ch_ID (fst att)) (snd att)), w') \<and> lazy_load w w' \<and> w_faults w' = []"
proof -
  obtain w' where "CheckRemaining (tok_ID (rc_token rc)) (user_ID (rc_user rc))
      (Cost (price_of w (ch_ID (fst att)) (snd att)) (prompt_usage estPrompt)) w = (Inr r, w')"
      "lazy_load w w'" "w_faults w' = []"
    using CheckRemaining_headroom [OF assms(1,2)] by blast
  with assms(3) show ?thesis
    by (auto simp: gateModelPrice_def Lookup_ok [OF assms(1)] affordable_def simp del: append_Cons)
qed

definition balance_message :: "int \<Rightarrow> int \<Rightarrow> string" where
  "balance_message estCost rem =
     ''insufficient balance: estimated cost '' @ formatMicroUSD estCost
     @ '' exceeds remaining '' @ formatMicroUSD rem"

lemma gate_reject:
  assumes "w_faults w = []" "headroom w (tok_ID (rc_token rc)) (user_ID (rc_user rc)) = Some r"
    "\<not> affordable w rc estPrompt att r"
  shows "fst (gateModelPrice env rc att rule estPrompt stream w) =
      Inl (to_client (WriteOutError (rc_outFormat rc) 402 ClassQuota
        (balance_message (Cost (price_of w (ch_ID (fst att)) (snd att)) (prompt_usage estPrompt)) r)))"
proof -
  obtain w' where "CheckRemaining (tok_ID (rc_token rc)) (user_ID (rc_user rc))
      (Cost (price_of w (ch_ID (fst att)) (snd att)) (prompt_usage estPrompt)) w = (Inr r, w')"
    using CheckRemaining_headroom [OF assms(1,2)] by blast
  with assms(3) show ?thesis
    by (simp add: gateModelPrice_def Lookup_ok [OF assms(1)] Let_def affordable_def reject_def
        finishing_def balance_message_def del: append_Cons)
qed

section \<open>Percent encoding is reversible\<close>

definition hex_digit_val :: "char \<Rightarrow> nat" where
  "hex_digit_val c = (let n = of_char c in if n < 58 then n - 48 else n - 55)"

fun percent_decode :: "string \<Rightarrow> string" where
  "percent_decode (p # a # b # s) =
     (if p = CHR ''%'' then char_of (16 * hex_digit_val a + hex_digit_val b) # percent_decode s
      else p # percent_decode (a # b # s))"
| "percent_decode s = s"

lemma hex_digit_val_upper: "n < 16 \<Longrightarrow> hex_digit_val (upper_hex n) = n"
  by (simp add: hex_digit_val_def upper_hex_def Let_def of_char_of)

lemma percent_decode_safe: "c \<noteq> CHR ''%'' \<Longrightarrow> percent_decode (c # s) = c # percent_decode s"
  by (cases s rule: percent_decode.cases) simp_all

lemma percent_decode_escape:
  "percent_decode (CHR ''%'' # upper_hex (of_char b div 16) # upper_hex (of_char b mod 16) # s) =
     b # percent_decode s"
proof -
  have "of_char b < (256 :: nat)" by simp
  then have "of_char b div 16 < (16 :: nat)" by (simp add: less_mult_imp_div_less)
  then show ?thesis by (simp add: hex_digit_val_upper)
qed

lemma percent_decode_id: "list_all isSafeHeaderByte s \<Longrightarrow> percent_decode s = s"
  by (induction s) (auto simp: isSafeHeaderByte_def percent_decode_safe)

end
