(* ===== verification/Relay_Correct.thy ===== *)
theory Relay_Correct
  imports Relay
begin

text \<open>
  The properties of the relay: the answer to a request, its log row and its debit, the channels it
  calls, and the attempts of the failover loop when no call to the database fails.
\<close>

section \<open>A sample deployment\<close>

definition relay_world :: "int \<Rightarrow> world" where
  "relay_world used =
     \<lparr>w_users = [sample_user 7 1000 20], w_tokens = [sample_token 1 7 500 used],
      w_channels = [sample_channel 1 1], w_rules = [],
      w_prices = [\<lparr>price_ID = 1, price_ChannelID = 1, price_Model = ''m'', price_Input = 2000000,
        price_Output = 4000000, price_CacheRead = 0, price_CacheWrite = 0\<rparr>],
      w_options = Map.empty, w_logs = [], w_seq = (\<lambda>_. 1), w_redis = None,
      w_dirtyTokens = [], w_dirtyUsers = [], w_faults = [], w_now = 0\<rparr>"

definition relay_body :: string where
  "relay_body = ''{\"choices\":[{\"message\":{\"content\":\"hi\"},\"finish_reason\":\"stop\"}],\"usage\":{\"prompt_tokens\":3,\"completion_tokens\":2,\"total_tokens\":5}}''"

definition relay_env :: "int \<Rightarrow> unit relay_env" where
  "relay_env status =
     \<lparr>env_intn = (\<lambda>_ _. 0), env_probe = None, env_errText = (\<lambda>_. []), env_readErrText = [],
      env_quote = (\<lambda>s. s), env_jerr = (\<lambda>_. []), env_newid = ''id'', env_now = 0,
      env_BuildRequest = (\<lambda>_ _ _. Inr ()),
      env_httpDo = (\<lambda>_ _. Inr \<lparr>hr_StatusCode = status, hr_Status = ''st'', hr_Body = relay_body\<rparr>),
      env_streamDo = (\<lambda>_ _. Inl ''down'')\<rparr>"

definition relay_request :: "bool \<Rightarrow> string \<Rightarrow> unified_request" where
  "relay_request stream text =
     \<lparr>ur_Model = ''m'', ur_System = [], ur_Messages = [\<lparr>msg_Role = ''user'', msg_Content = [TextBlock text]\<rparr>],
      ur_SystemCacheControl = None, ur_Stream = stream, ur_MaxTokens = None, ur_Temperature = None,
      ur_TopP = None, ur_StopSequences = [],
      ur_Tools = [], ur_ToolChoice = []\<rparr>"

lemma relay_select:
  "SelectChannelCtx (\<lambda>_ _. 0) None (routeInput (request_context_of (sample_token 1 7 500 used) (sample_user 7 1000 20)
       FormatOpenAI (relay_request b t) []) est) (relay_world used) =
     (Inr \<lparr>sel_Rule = None, sel_Model = ''m'', sel_Probe = None, sel_effectiveModel = ''m'',
           sel_candidates = [sample_channel 1 1], sel_maxRetries = 3, sel_cursor = 0\<rparr>, (relay_world used))"
  (is "?run = (?r, _)")
proof -
  have "candidateChannels None ''m'' (relay_world used) = (Inr [sample_channel 1 1], (relay_world used))"
  proof -
    have "candidates_of None ''m'' (relay_world used) = [sample_channel 1 1]" by code_simp
    then show ?thesis by (simp add: candidateChannels_ok relay_world_def)
  qed
  moreover have "enabledRulesByPriority (relay_world used) = (Inr [], (relay_world used))"
    by (simp add: enabledRulesByPriority_def relay_world_def)
  moreover have "maxRetries (relay_world used) = (Inr 3, (relay_world used))"
  proof -
    have "GetOption OptMaxRetries [] (relay_world used) = (Inr [], (relay_world used))"
      by (simp add: GetOption_def bindM_def tryM_def relay_world_def)
    moreover have "ParseInt (trim_space []) = None" by code_simp
    ultimately show ?thesis by (simp add: maxRetries_def bindM_def DefaultMaxRetries_def)
  qed
  moreover have "loadBalanceOrder (\<lambda>_ _. 0) [sample_channel 1 1] = Some [sample_channel 1 1]" by code_simp
  moreover have "effective_model None m = m" for m by (simp add: effective_model_def)
  moreover have "run_probe None False inp = (None, base_vars inp)" for inp by (simp add: run_probe_def)
  ultimately show ?thesis
    unfolding SelectChannelCtx_unfold
    by (simp add: bindM_def routeInput_def request_context_of_def relay_request_def Let_def)
qed

lemma relay_models:
  "UpstreamModel (sample_channel 1 1) ''m'' = ''m''" "ur_Model (relay_request b text) = ''m''"
  "effective_model None ''m'' = ''m''" "ur_Stream (relay_request b text) = b"
  by (simp_all add: UpstreamModel_def decodeMapping_def sample_channel_def relay_request_def effective_model_def)

lemma relay_allowed: "modelAllowed (sample_token 1 7 500 used) (ur_Model (relay_request b text))"
  by (simp add: modelAllowed_def decodeAllowedModels_def sample_token_def)

lemma relay_selects:
  "SelectChannelCtx (env_intn (relay_env status)) (env_probe (relay_env status))
     (routeInput (request_context_of (sample_token 1 7 500 used) (sample_user 7 1000 20) FormatOpenAI (relay_request b text) [])
        (EstimatePromptTokens (relay_request b text))) (relay_world used) =
     (Inr \<lparr>sel_Rule = None, sel_Model = ''m'', sel_Probe = None, sel_effectiveModel = ''m'',
           sel_candidates = [sample_channel 1 1], sel_maxRetries = 3, sel_cursor = 0\<rparr>, (relay_world used))"
  using relay_select by (simp add: relay_env_def)

lemma subseq_distinct_map: "subseq xs ys \<Longrightarrow> distinct ys \<Longrightarrow> distinct xs"
  by (induction rule: list_emb.induct) (auto dest: list_emb_set)

lemma request_context_of_simps [simp]:
  "rc_token (request_context_of t u format uni rawBody) = t"
  "rc_user (request_context_of t u format uni rawBody) = u"
  by (simp_all add: request_context_of_def)

lemma concludedE:
  assumes "concluded (request_context_of t u format uni rawBody) w resp w'"
  obtains v logs cost where "response_shape resp" "live_token v = live_token w" "live_user v = live_user w"
    "w_logs v = w_logs w @ logs" "length logs \<le> 1" 
    "list_all (log_matches (request_context_of t u format uni rawBody) resp cost) logs"
    "w' = (if cost > 0 then snd (Consume (tok_ID t) (user_ID u) cost v) else v)"
    "if cost > 0 then response_status resp = Some 200 else True"
  using assms unfolding concluded_def request_context_of_simps by (elim conjE exE) (rule that)

section \<open>Properties\<close>

text \<open>
  C5. Every request, authenticated or not and whatever the database, the routing and the
  providers do, makes its upstream calls first and is then answered exactly once: headers and
  one JSON response, or headers, one status line and the frames of a stream; and it adds at
  most one row to the request log.
\<close>

theorem relay_answers_once:
  "\<exists>cs resp logs. fst (handle env tok usr format uni rawBody w) = calls cs @ to_client resp
     \<and> response_shape resp
     \<and> w_logs (snd (handle env tok usr format uni rawBody w)) = w_logs w @ logs \<and> length logs \<le> 1"
proof (cases "\<exists>t u. tok = Some t \<and> usr = Some u")
  case True
  then obtain t u where tu: "tok = Some t" "usr = Some u" by blast
  obtain cs resp w' where h: "handle env (Some t) (Some u) format uni rawBody w = (calls cs @ to_client resp, w')"
    and c: "concluded (request_context_of t u format uni rawBody) w resp w'"
    using handle_concluded by blast
  from c obtain v logs cost where "response_shape resp" "w_logs v = w_logs w @ logs" "length logs \<le> 1"
    "w' = (if cost > 0 then snd (Consume (tok_ID t) (user_ID u) cost v) else v)"
    by (elim concludedE)
  with h show ?thesis by (auto simp: tu Consume_logs)
next
  case False
  let ?resp = "WriteClassError format 401 ClassAuthentication ''authentication required''"
  have "handle env tok usr format uni rawBody w = (calls [] @ to_client ?resp, w)"
    using False by (auto simp: handle_def split: option.splits)
  moreover have "response_shape ?resp" by simp
  ultimately show ?thesis by (intro exI [of _ "[]"] exI [of _ ?resp]) simp
qed

text \<open>
  C3. Usage and the log agree, whatever fails: the only change a request makes to any usage
  count is the debit of one cost, at its token and its user; it happens only after the client was
  answered with status 200, and if the request left a log row, that row belongs to this
  user and token and shows exactly that cost (and no cost if the request failed).
\<close>

theorem relay_debit_follows_log:
  "\<exists>cs resp v logs cost.
     handle env (Some t) (Some u) format uni rawBody w =
       (calls cs @ to_client resp, if cost > 0 then snd (Consume (tok_ID t) (user_ID u) cost v) else v)
     \<and> live_token v = live_token w \<and> live_user v = live_user w \<and> w_logs v = w_logs w @ logs
     \<and> list_all (\<lambda>l. log_UserID l = user_ID u \<and> log_TokenID l = Some (tok_ID t)
         \<and> cost = (case log_CostMicroUSD l of None \<Rightarrow> 0 | Some c \<Rightarrow> c)
         \<and> (if log_Status l = LogSuccess then response_status resp = Some 200 else log_CostMicroUSD l = None)) logs
     \<and> (if cost > 0 then response_status resp = Some 200 else True)"
proof -
  obtain cs resp w' where h: "handle env (Some t) (Some u) format uni rawBody w = (calls cs @ to_client resp, w')"
    and c: "concluded (request_context_of t u format uni rawBody) w resp w'"
    using handle_concluded by blast
  from c obtain v logs cost where v: "live_token v = live_token w" "live_user v = live_user w"
    "w_logs v = w_logs w @ logs" and w': "w' = (if cost > 0 then snd (Consume (tok_ID t) (user_ID u) cost v) else v)"
    and l: "list_all (log_matches (request_context_of t u format uni rawBody) resp cost) logs"
    and s: "if cost > 0 then response_status resp = Some 200 else True"
    by (elim concludedE)
  from l have "list_all (\<lambda>l. log_UserID l = user_ID u \<and> log_TokenID l = Some (tok_ID t)
         \<and> cost = (case log_CostMicroUSD l of None \<Rightarrow> 0 | Some c \<Rightarrow> c)
         \<and> (if log_Status l = LogSuccess then response_status resp = Some 200 else log_CostMicroUSD l = None)) logs"
    by (auto simp: list_all_iff log_matches_def split: if_splits)
  with h v w' s show ?thesis by blast
qed

text \<open>
  C2. A request calls only channels it may use: with channel ids unique, every upstream call
  goes to an enabled channel the selected rule allows, with the model id this channel maps
  the effective model to; no channel is called twice, and there are at most as many calls as
  retries are configured.
\<close>

theorem relay_calls_permitted:
  assumes "rand_ok (env_intn env)" and "sum_weights (w_channels w) < 2 ^ 63"
    and "distinct (map ch_ID (w_channels w))" and "modelAllowed t (ur_Model uni)"
    and "SelectChannelCtx (env_intn env) (env_probe env)
      (routeInput (request_context_of t u format uni rawBody) (EstimatePromptTokens uni)) w = (Inr sel, w1)"
  shows "\<exists>cs resp w'. handle env (Some t) (Some u) format uni rawBody w = (calls cs @ to_client resp, w')
    \<and> distinct (map fst cs) \<and> int (length cs) \<le> sel_maxRetries sel
    \<and> list_all (\<lambda>(i, m). list_ex (\<lambda>ch. ch_ID ch = i \<and> ch_Status ch = ChannelEnabled
         \<and> may_serve (sel_Rule sel) (effective_model (sel_Rule sel) (ur_Model uni)) ch
         \<and> m = UpstreamModel ch (effective_model (sel_Rule sel) (ur_Model uni))) (w_channels w)) cs"
proof -
  let ?rc = "request_context_of t u format uni rawBody"
  note sel = SelectChannelCtx_Inr [OF assms(1,2,5)]
  have model: "ri_Model (routeInput ?rc (EstimatePromptTokens uni)) = ur_Model uni"
    by (simp add: routeInput_def request_context_of_def)
  obtain cs resp w' where h: "handle env (Some t) (Some u) format uni rawBody w = (calls cs @ to_client resp, w')"
    and sub: "subseq cs (map (call_of sel) (plan sel))"
    using serve_step [OF assms(5)] unfolding handle_serve [OF assms(4)] Let_def
    by (cases "ur_Stream uni") (simp, blast)+
  have cand: "mset (sel_candidates sel) = mset (candidates_of (sel_Rule sel) (EffectiveModel sel) w)"
    using sel by blast
  have p: "plan sel = take (nat (sel_maxRetries sel)) (sel_candidates sel)"
    using sel by (simp add: plan_def)
  have "distinct (map ch_ID (sel_candidates sel))"
  proof -
    have "distinct (map ch_ID (candidates_of (sel_Rule sel) (EffectiveModel sel) w))"
      unfolding candidates_of_def using assms(3) by (rule distinct_map_filter)
    then show ?thesis using cand by (metis mset_eq_imp_distinct_iff mset_map)
  qed
  then have "distinct (map ch_ID (plan sel))" unfolding p take_map [symmetric] by (rule distinct_take)
  moreover have "map fst (map (call_of sel) (plan sel)) = map ch_ID (plan sel)"
    by (simp add: call_of_def)
  ultimately have "distinct (map fst cs)"
    using subseq_map [OF sub, of fst] by (metis subseq_distinct_map)
  moreover have "int (length cs) \<le> sel_maxRetries sel"
    using list_emb_length [OF sub] sel by (simp add: p le_nat_iff)
  moreover have "\<exists>ch\<in>set (w_channels w). ch_ID ch = i \<and> ch_Status ch = ChannelEnabled
         \<and> may_serve (sel_Rule sel) (effective_model (sel_Rule sel) (ur_Model uni)) ch
         \<and> m = UpstreamModel ch (effective_model (sel_Rule sel) (ur_Model uni))" if "(i, m) \<in> set cs" for i m
  proof -
    from that sub have "(i, m) \<in> set (map (call_of sel) (plan sel))" by (blast elim: list_emb_set)
    then obtain ch where ch: "ch \<in> set (plan sel)" "i = ch_ID ch" "m = UpstreamModel ch (EffectiveModel sel)"
      by (auto simp: call_of_def)
    then have "ch \<in> set (sel_candidates sel)" unfolding p by (auto dest: in_set_takeD)
    then have "ch \<in> set (candidates_of (sel_Rule sel) (EffectiveModel sel) w)"
      using cand by (metis set_mset_mset)
    with ch sel model show ?thesis by (auto simp: candidates_of_def keep_channel_iff)
  qed
  ultimately show ?thesis using h by (auto simp: list_all_iff list_ex_iff)
qed

lemma relay_calls_permitted_witness:
  "\<exists>cs resp w'. handle (relay_env 500) (Some (sample_token 1 7 500 10)) (Some (sample_user 7 1000 20)) FormatOpenAI
       (relay_request False ''hi'') [] (relay_world 10) = (calls cs @ to_client resp, w') \<and> int (length cs) \<le> 3
     \<and> list_all (\<lambda>(i, m). i = 1 \<and> m = ''m'') cs"
proof -
  have "rand_ok (env_intn (relay_env 500))" "sum_weights (w_channels (relay_world 10)) < 2 ^ 63"
    "distinct (map ch_ID (w_channels (relay_world 10)))"
    by (simp_all add: relay_env_def rand_ok_def relay_world_def sample_channel_def sum_weights_def weight_of_def effectiveWeight_def)
  from relay_calls_permitted [OF this relay_allowed relay_selects [of 500 10 False "''hi''"]]
  obtain cs resp w' where h: "handle (relay_env 500) (Some (sample_token 1 7 500 10)) (Some (sample_user 7 1000 20))
        FormatOpenAI (relay_request False ''hi'') [] (relay_world 10) = (calls cs @ to_client resp, w')"
      "int (length cs) \<le> 3"
      and l: "list_all (\<lambda>(i, m). list_ex (\<lambda>ch. ch_ID ch = i \<and> ch_Status ch = ChannelEnabled
         \<and> may_serve None ''m'' ch \<and> m = UpstreamModel ch ''m'') (w_channels (relay_world 10))) cs"
    by (auto simp: relay_models)
  have "w_channels (relay_world 10) = [sample_channel 1 1]" "ch_ID (sample_channel 1 1) = 1"
    by (simp_all add: relay_world_def sample_channel_def)
  with l have "list_all (\<lambda>(i, m). i = 1 \<and> m = ''m'') cs" by (fastforce simp: list_all_iff relay_models simp del: One_nat_def)
  with h show ?thesis by blast
qed

text \<open>
  The channel-name header is unambiguous: percent decoding returns the name, and the
  header value is printable ASCII whatever the name is.
\<close>

lemma channel_name_header_reversible:
  "percent_decode (percentEncodeHeaderValue s) = s
   \<and> list_all (\<lambda>c. 32 \<le> (of_char c :: nat) \<and> (of_char c :: nat) < 127) (percentEncodeHeaderValue s)"
proof
  have nil: "percent_decode [] = []" by simp
  have safe: "percent_decode (c # r) = c # percent_decode r" if "isSafeHeaderByte c" for c r
    using that by (auto simp: isSafeHeaderByte_def percent_decode_safe)
  have "percent_decode (concat (map (\<lambda>b. if isSafeHeaderByte b then [b]
      else [CHR ''%'', upper_hex (of_char b div 16), upper_hex (of_char b mod 16)]) s)) = s"
    by (induction s) (simp_all del: percent_decode.simps add: nil percent_decode_escape safe)
  then show "percent_decode (percentEncodeHeaderValue s) = s"
    by (simp add: percentEncodeHeaderValue_def percent_decode_id)
  have hex: "32 \<le> (of_char (upper_hex n) :: nat) \<and> (of_char (upper_hex n) :: nat) < 127" if "n < 16" for n
    using that by (auto simp: upper_hex_def of_char_of)
  have "of_char b div 16 < (16 :: nat)" for b :: char
    using of_char_of [of "of_char b :: nat"] by (simp add: less_mult_imp_div_less)
  then show "list_all (\<lambda>c. 32 \<le> (of_char c :: nat) \<and> (of_char c :: nat) < 127) (percentEncodeHeaderValue s)"
    using hex by (auto simp: percentEncodeHeaderValue_def list_all_iff isSafeHeaderByte_def)
qed

section \<open>Attempts without database failures\<close>

text \<open>
  What the gate reads for a request: no call fails, and the headroom of its token and user is
  \<open>r\<close>.  Lazy loading keeps it.
\<close>

definition gate_ready :: "request_context \<Rightarrow> int \<Rightarrow> world \<Rightarrow> bool" where
  "gate_ready rc r w \<longleftrightarrow> w_faults w = [] \<and> headroom w (tok_ID (rc_token rc)) (user_ID (rc_user rc)) = Some r"

lemma gate_passes:
  assumes "gate_ready rc r w" "affordable w rc estPrompt att r"
  obtains w' where "gateModelPrice env rc att rule estPrompt stream w =
      (Inr (price_of w (ch_ID (fst att)) (snd att)), w')" "lazy_load w w'" "gate_ready rc r w'"
proof -
  from assms(1) have f: "w_faults w = []" "headroom w (tok_ID (rc_token rc)) (user_ID (rc_user rc)) = Some r"
    by (simp_all add: gate_ready_def)
  obtain w' where w': "gateModelPrice env rc att rule estPrompt stream w =
      (Inr (price_of w (ch_ID (fst att)) (snd att)), w')" "lazy_load w w'" "w_faults w' = []"
    using gate_pass [OF f assms(2)] by blast
  moreover from this have "gate_ready rc r w'"
    using f(2) headroom_lazy [OF w'(2)] by (simp add: gate_ready_def)
  ultimately show ?thesis using that by blast
qed

lemma affordable_lazy: "lazy_load w w' \<Longrightarrow> affordable w' rc estPrompt att r = affordable w rc estPrompt att r"
  by (simp add: affordable_def price_of_lazy)

text \<open>The provider of an attempt answers with an error another channel may avoid, or not at all.\<close>

definition provider_down :: "'req relay_env \<Rightarrow> bool \<Rightarrow> nat \<Rightarrow> string \<Rightarrow> 'req \<Rightarrow> bool" where
  "provider_down env stream k ad req =
     (if stream then
        (case env_streamDo env k req of Inl _ \<Rightarrow> True
         | Inr rsp \<Rightarrow> \<not> ok_status (hr_StatusCode (sr_Response rsp))
             \<and> Retryable \<lparr>ue_Provider = ad, ue_StatusCode = hr_StatusCode (sr_Response rsp),
                  ue_Message = trim_space (read_limited maxErrorBody (hr_Body (sr_Response rsp))), ue_Body = []\<rparr>)
      else
        (case env_httpDo env k req of Inl _ \<Rightarrow> True
         | Inr resp \<Rightarrow> (case ParseResponse ad (env_jerr env) resp of Inl ue \<Rightarrow> Retryable ue | Inr _ \<Rightarrow> False)))"

definition all_down :: "'req relay_env \<Rightarrow> bool \<Rightarrow> bool" where
  "all_down env stream \<longleftrightarrow> (\<forall>ad uni ch. \<exists>req. env_BuildRequest env ad uni ch = Inr req
     \<and> (\<forall>k. provider_down env stream k ad req))"

lemma down_attempt:
  assumes "all_down env stream" "gate_ready rc r w" "For ch \<noteq> None"
    and "affordable w rc estPrompt (ch, UpstreamModel ch (EffectiveModel sel)) r"
  shows "\<exists>e att w'. (if stream then stream_attempt else nonstream_attempt) env rc estPrompt sel ch w =
      (Failover e att (calls [call_of sel ch]), w') \<and> gate_ready rc r w' \<and> lazy_load w w'"
proof -
  obtain ad where ad: "For ch = Some ad" using assms(3) by blast
  obtain w' where g: "gateModelPrice env rc (ch, UpstreamModel ch (EffectiveModel sel)) (sel_Rule sel) estPrompt stream w =
      (Inr (price_of w (ch_ID ch) (UpstreamModel ch (EffectiveModel sel))), w')" "lazy_load w w'" "gate_ready rc r w'"
    using gate_passes [OF assms(2,4)] by (metis fst_conv snd_conv)
  have down: "\<exists>req. env_BuildRequest env ad uni ch = Inr req \<and> (\<forall>k. provider_down env stream k ad req)" for uni
    using assms(1) unfolding all_down_def by blast
  show ?thesis
  proof (cases stream)
    case True
    define uni where "uni = maybeInjectSystemCache ((rc_uni rc)\<lparr>ur_Model := UpstreamModel ch (EffectiveModel sel),
        ur_Stream := True\<rparr>) ch (UpstreamModel ch (EffectiveModel sel))"
    obtain req where req: "env_BuildRequest env ad uni ch = Inr req" "\<And>k. provider_down env True k ad req"
      using down [of uni] True by auto
    from g req(1) req(2) [of "sel_cursor sel"] True show ?thesis
      by (auto simp: stream_attempt_def ad Let_def uni_def call_of_def provider_down_def split: sum.splits)
  next
    case False
    define uni where "uni = upstream_request rc ch (UpstreamModel ch (EffectiveModel sel))"
    obtain req where req: "env_BuildRequest env ad uni ch = Inr req" "\<And>k. provider_down env False k ad req"
      using down [of uni] False by auto
    from g req(1) req(2) [of "sel_cursor sel"] False show ?thesis
      by (auto simp: nonstream_attempt_def ad Let_def uni_def call_of_def provider_down_def split: sum.splits)
  qed
qed

definition reachable_plan :: "request_context \<Rightarrow> int \<Rightarrow> int \<Rightarrow> selection \<Rightarrow> world \<Rightarrow> bool" where
  "reachable_plan rc estPrompt r sel w = list_all (\<lambda>ch. For ch \<noteq> None
     \<and> affordable w rc estPrompt (ch, UpstreamModel ch (EffectiveModel sel)) r) (plan sel)"

lemma failover_loop_down:
  assumes "all_down env stream" "gate_ready rc r w" "reachable_plan rc estPrompt r sel w"
  shows "\<exists>e att w'. failover_loop ((if stream then stream_attempt else nonstream_attempt) env rc estPrompt) exhausted sel lastErr lastAtt w =
      (let (evs, w'') = exhausted e att w' in (calls (map (call_of sel) (plan sel)) @ evs, w''))"
  using assms(2,3)
proof (induction "plan sel" arbitrary: sel lastErr lastAtt w)
  case Nil
  then obtain e sel' where "next_channel sel = (Inl e, sel')"
    by (cases "next_channel sel"; cases "fst (next_channel sel)") (auto dest: plan_next)
  with Nil.hyps show ?case
    by (intro exI [of _ lastErr] exI [of _ lastAtt] exI [of _ w])
      (auto simp: failover_loop.simps [of _ _ sel] split: prod.splits)
next
  case (Cons ch chs)
  from Cons.hyps(2) obtain sel' where n: "next_channel sel = (Inr ch, sel')" and p: "chs = plan sel'"
    by (cases "next_channel sel"; cases "fst (next_channel sel)") (auto dest: plan_next plan_stop)
  from n have same: "call_of sel' = call_of sel" "EffectiveModel sel' = EffectiveModel sel"
    by (auto simp: next_channel_def call_of_def [abs_def] EffectiveModel_def split: if_splits)
  have r: "For ch \<noteq> None" "affordable w rc estPrompt (ch, UpstreamModel ch (EffectiveModel sel')) r"
    "reachable_plan rc estPrompt r sel' w"
    using Cons.prems(2) p same by (simp_all add: reachable_plan_def flip: Cons.hyps(2))
  obtain e att w1 where a: "(if stream then stream_attempt else nonstream_attempt) env rc estPrompt sel' ch w =
      (Failover e att (calls [call_of sel' ch]), w1)" "gate_ready rc r w1" "lazy_load w w1"
    using down_attempt [OF assms(1) Cons.prems(1) r(1,2)] by blast
  have "reachable_plan rc estPrompt r sel' w1"
    using r(3) affordable_lazy [OF a(3)] by (simp add: reachable_plan_def)
  from Cons.hyps(1) [OF p a(2) this] obtain e' att' w' where
    "failover_loop ((if stream then stream_attempt else nonstream_attempt) env rc estPrompt) exhausted sel' (Some e)
        (if att = None then lastAtt else att) w1 =
      (let (evs, w'') = exhausted e' att' w' in (calls (map (call_of sel') (plan sel')) @ evs, w''))"
    by blast
  with n a(1) show ?case
    by (intro exI [of _ e'] exI [of _ att'] exI [of _ w'])
      (simp add: failover_loop.simps [of _ _ sel] same p split: prod.splits flip: Cons.hyps(2))
qed

lemma request_context_of_fields [simp]:
  "rc_uni (request_context_of t u format uni rawBody) = uni"
  "rc_outFormat (request_context_of t u format uni rawBody) = outFormatFor format (tok_OutputFormat t)"
  by (simp_all add: request_context_of_def)

lemma probed_simps [simp]:
  "rc_token (probed rc sel) = rc_token rc" "rc_user (probed rc sel) = rc_user rc"
  "rc_uni (probed rc sel) = rc_uni rc" "rc_outFormat (probed rc sel) = rc_outFormat rc"
  by (simp_all add: probed_def)

lemma handle_selected:
  assumes "modelAllowed t (ur_Model uni)"
    and "SelectChannelCtx (env_intn env) (env_probe env)
      (routeInput (request_context_of t u format uni rawBody) (EstimatePromptTokens uni)) w = (Inr sel, w1)"
  shows "handle env (Some t) (Some u) format uni rawBody w =
    failover_loop ((if ur_Stream uni then stream_attempt else nonstream_attempt) env
        (probed (request_context_of t u format uni rawBody) sel) (EstimatePromptTokens uni))
      (\<lambda>lastErr lastAtt. failAllCandidates (probed (request_context_of t u format uni rawBody) sel)
        lastErr lastAtt (EstimatePromptTokens uni) (ur_Stream uni) (sel_Rule sel)) sel None None w1"
  by (simp add: handle_serve [OF assms(1)] Let_def serveStream_def serveNonStream_def assms(2) probed_def)

definition request_ready :: "token_row \<Rightarrow> user \<Rightarrow> int \<Rightarrow> world \<Rightarrow> bool" where
  "request_ready t u r w \<longleftrightarrow> w_faults w = [] \<and> headroom w (tok_ID t) (user_ID u) = Some r"

lemma gate_ready_request [simp]:
  "gate_ready (probed (request_context_of t u format uni rawBody) sel) r w = request_ready t u r w"
  by (simp add: gate_ready_def request_ready_def)

lemma plan_hd:
  assumes "plan sel = ch # chs"
  obtains sel' where "next_channel sel = (Inr ch, sel')" "sel' = sel\<lparr>sel_cursor := Suc (sel_cursor sel)\<rparr>"
proof (cases "next_channel sel")
  case (Pair r sel')
  then obtain c where r: "r = Inr c" using assms by (cases r) (auto dest: plan_stop)
  with Pair have n: "next_channel sel = (Inr c, sel')" by simp
  with plan_next [OF n] assms have "next_channel sel = (Inr ch, sel')" by simp
  moreover from n have "sel' = sel\<lparr>sel_cursor := Suc (sel_cursor sel)\<rparr>"
    by (simp add: next_channel_def split: if_splits)
  ultimately show ?thesis by (rule that)
qed

lemma gate_stops:
  assumes "gate_ready rc r w" "\<not> affordable w rc estPrompt (ch, UpstreamModel ch (EffectiveModel sel)) r" "For ch \<noteq> None"
  shows "\<exists>w'. (if stream then stream_attempt else nonstream_attempt) env rc estPrompt sel ch w =
      (Stop (to_client (WriteOutError (rc_outFormat rc) 402 ClassQuota
        (balance_message (Cost (price_of w (ch_ID ch) (UpstreamModel ch (EffectiveModel sel))) (prompt_usage estPrompt)) r))), w')"
proof -
  let ?att = "(ch, UpstreamModel ch (EffectiveModel sel))"
  obtain g w' where g: "gateModelPrice env rc ?att (sel_Rule sel) estPrompt stream w = (g, w')" by fastforce
  from gate_reject [OF _ _ assms(2), of env "sel_Rule sel" stream] assms(1) g
  have "g = Inl (to_client (WriteOutError (rc_outFormat rc) 402 ClassQuota
        (balance_message (Cost (price_of w (ch_ID ch) (UpstreamModel ch (EffectiveModel sel))) (prompt_usage estPrompt)) r)))"
    by (simp add: gate_ready_def)
  with g assms(3) show ?thesis by (auto simp: stream_attempt_def nonstream_attempt_def Let_def)
qed

text \<open>
  C4. A request that cannot be afforded never reaches a provider: when the estimated cost of
  the first candidate exceeds the remaining headroom (a limit of either level, the database
  answering), the trace is the 402 refusal with both amounts, and no count changes.
\<close>

theorem relay_over_budget:
  assumes "modelAllowed t (ur_Model uni)"
    and "SelectChannelCtx (env_intn env) (env_probe env)
      (routeInput (request_context_of t u format uni rawBody) (EstimatePromptTokens uni)) w = (Inr sel, w1)"
    and "plan sel = ch # chs" and "For ch \<noteq> None" and "request_ready t u r w1"
    and "0 \<le> r" and "r < Cost (price_of w1 (ch_ID ch) (UpstreamModel ch (EffectiveModel sel)))
      (prompt_usage (EstimatePromptTokens uni))"
  shows "\<exists>w'. handle env (Some t) (Some u) format uni rawBody w =
      (to_client (WriteOutError (outFormatFor format (tok_OutputFormat t)) 402 ClassQuota
        (balance_message (Cost (price_of w1 (ch_ID ch) (UpstreamModel ch (EffectiveModel sel)))
           (prompt_usage (EstimatePromptTokens uni))) r)), w')
    \<and> live_token w' = live_token w \<and> live_user w' = live_user w"
proof -
  let ?rc = "probed (request_context_of t u format uni rawBody) sel"
  let ?resp = "WriteOutError (outFormatFor format (tok_OutputFormat t)) 402 ClassQuota
        (balance_message (Cost (price_of w1 (ch_ID ch) (UpstreamModel ch (EffectiveModel sel)))
           (prompt_usage (EstimatePromptTokens uni))) r)"
  obtain sel' where n: "next_channel sel = (Inr ch, sel')" "sel' = sel\<lparr>sel_cursor := Suc (sel_cursor sel)\<rparr>"
    using plan_hd [OF assms(3)] .
  have e: "EffectiveModel sel' = EffectiveModel sel" by (simp add: n(2) EffectiveModel_def)
  have "\<not> affordable w1 ?rc (EstimatePromptTokens uni) (ch, UpstreamModel ch (EffectiveModel sel')) r"
    using assms(6,7) by (simp add: affordable_def e)
  from gate_stops [OF _ this assms(4), of "ur_Stream uni" env] assms(5) n(1)
  obtain w' where h: "handle env (Some t) (Some u) format uni rawBody w = (to_client ?resp, w')"
    by (auto simp: handle_selected [OF assms(1,2)] failover_loop.simps [of _ _ sel] e)
  obtain cs resp v where c: "handle env (Some t) (Some u) format uni rawBody w = (calls cs @ to_client resp, v)"
    "concluded (request_context_of t u format uni rawBody) w resp v"
    using handle_concluded by blast
  have "cs = [] \<and> resp = ?resp"
    using h c(1) by (cases cs) (auto simp: WriteOutError_def WriteClassError_def WriteError_def map_eq_Cons_conv)
  with c(2) have "concluded (request_context_of t u format uni rawBody) w ?resp w'" using h c(1) by simp
  then show ?thesis using h by (elim concludedE) (auto split: if_splits)
qed

lemma relay_estimate: "EstimatePromptTokens (relay_request b ''hi'') = 1"
  by code_simp

definition relay_selection :: selection where
  "relay_selection = \<lparr>sel_Rule = None, sel_Model = ''m'', sel_Probe = None, sel_effectiveModel = ''m'',
     sel_candidates = [sample_channel 1 1], sel_maxRetries = 3, sel_cursor = 0\<rparr>"

lemma relay_plan:
  "plan relay_selection = [sample_channel 1 1]" "EffectiveModel relay_selection = ''m''"
  "For (sample_channel 1 1) = Some ''openai''" "ch_ID (sample_channel 1 1) = 1"
  "sel_cursor relay_selection = 0"
  by (simp_all add: relay_selection_def plan_def EffectiveModel_def For_def sample_channel_def enum_defs)

lemma relay_price:
  "price_of (relay_world used) 1 ''m'' = Some \<lparr>price_ID = 1, price_ChannelID = 1, price_Model = ''m'', price_Input = 2000000,
        price_Output = 4000000, price_CacheRead = 0, price_CacheWrite = 0\<rparr>"
  "Cost (price_of (relay_world used) 1 ''m'') (prompt_usage 1) = 2"
  by (simp_all add: price_of_def price_row_def relay_world_def) code_simp

lemma relay_ready:
  "request_ready (sample_token 1 7 500 499) (sample_user 7 1000 20) 1 (relay_world 499)"
  "request_ready (sample_token 1 7 500 10) (sample_user 7 1000 20) 490 (relay_world 10)"
  by (simp_all add: request_ready_def headroom_def relay_world_def find_token_def find_user_def live_def
      db_token_used_def db_user_used_def sample_token_def sample_user_def minRemaining_def remaining_def
      wrap64_def)

lemma sample_fields:
  "tok_OutputFormat (sample_token i owner q used) = None" "tok_ID (sample_token i owner q used) = i"
  "user_ID (sample_user j q used) = j"
  by (simp_all add: sample_token_def sample_user_def)

lemma relay_over_budget_witness:
  "\<exists>w'. handle (relay_env 200) (Some (sample_token 1 7 500 499)) (Some (sample_user 7 1000 20)) FormatOpenAI
      (relay_request False ''hi'') [] (relay_world 499) =
      (to_client (WriteOutError (outFormatFor FormatOpenAI None) 402 ClassQuota (balance_message 2 1)), w')"
proof -
  from relay_over_budget [OF relay_allowed relay_selects [of 200 499 False "''hi''", folded relay_selection_def]
      relay_plan(1) _ relay_ready(1)]
  show ?thesis
    by (auto simp: relay_plan relay_models relay_price(2) relay_estimate sample_fields simp del: One_nat_def)
qed



lemma relay_env_down: "all_down (relay_env 503) b"
proof -
  have "Retryable \<lparr>ue_Provider = p, ue_StatusCode = 503, ue_Message = m, ue_Body = x\<rparr>" for p m x
    by (simp add: Retryable_def)
  then show ?thesis
    by (auto simp: all_down_def provider_down_def relay_env_def ParseResponse_def openai_ParseResponse_def
        anthropic_ParseResponse_def bedrock_ParseResponse_def upstream_failure_def ok_status_def Let_def)
qed


section \<open>The debit of a successful request\<close>

lemma finish_ok:
  assumes "w_faults w = []"
  obtains v capture where "snd (finish rc att rule status code msg toks stream bill w) =
      (if charge status bill > 0
       then snd (Consume (tok_ID (rc_token rc)) (user_ID (rc_user rc)) (charge status bill) v) else v)"
    "v = w\<lparr>w_logs := w_logs w @ (if storable_log (log_row rc att rule status code msg toks stream bill capture)
       then [log_row rc att rule status code msg toks stream bill capture] else [])\<rparr>"
proof -
  have "\<exists>capture. requestLogIOEnabled w = (Inr capture, w)"
    using assms by (auto simp: requestLogIOEnabled_def GetOption_def bindM_def tryM_def db_read_def)
  then obtain capture where o1: "requestLogIOEnabled w = (Inr capture, w)" by blast
  let ?l = "log_row rc att rule status code msg toks stream bill capture"
  define v where "v = w\<lparr>w_logs := w_logs w @ (if storable_log ?l then [?l] else [])\<rparr>"
  have "\<exists>r. write_log ?l w = (r, v)"
    using assms by (cases w) (auto simp: v_def write_log_def db_write_if_def bindM_def)
  then obtain r where l: "write_log ?l w = (r, v)" by blast
  have "snd (finish rc att rule status code msg toks stream bill w) =
      (if charge status bill > 0
       then snd (Consume (tok_ID (rc_token rc)) (user_ID (rc_user rc)) (charge status bill) v) else v)"
    using o1 l
    by (cases "Consume (tok_ID (rc_token rc)) (user_ID (rc_user rc)) (charge status bill) v")
      (auto simp: finish_def bindM_def seqM_def tryM_def charge_def Let_def split: option.splits)
  then show ?thesis using v_def by (rule that)
qed

text \<open>Counts in which \<open>n\<close> more can be recorded.\<close>

definition countable :: "world \<Rightarrow> nat \<Rightarrow> nat \<Rightarrow> int \<Rightarrow> bool" where
  "countable w i j n \<longleftrightarrow>
     distinct (map tok_ID (w_tokens w)) \<and> distinct (map user_ID (w_users w))
     \<and> find_token i w \<noteq> None \<and> find_user j w \<noteq> None
     \<and> (case live_token w i of None \<Rightarrow> False | Some used \<Rightarrow> in_int64 (used + n))
     \<and> (case live_user w j of None \<Rightarrow> False | Some used \<Rightarrow> in_int64 (used + n))"

lemma Consume_countable:
  assumes "w_faults w = []" "0 < n" "countable w i j n"
  shows "live_token (snd (Consume i j n w)) = add_to i n (live_token w)"
    "live_user (snd (Consume i j n w)) = add_to j n (live_user w)"
proof -
  obtain tok usr tu uu where "distinct (map tok_ID (w_tokens w))" "distinct (map user_ID (w_users w))"
    and f: "find_token i w = Some tok" "find_user j w = Some usr" "live_token w i = Some tu" "live_user w j = Some uu"
      "in_int64 (tu + n)" "in_int64 (uu + n)"
    using assms(3) by (auto simp: countable_def split: option.splits)
  with Consume_db [OF assms(1) _ assms(2) _ _ f] Consume_redis [OF assms(1) _ assms(2) f]
  show "live_token (snd (Consume i j n w)) = add_to i n (live_token w)"
    "live_user (snd (Consume i j n w)) = add_to j n (live_user w)"
    by (cases "w_redis w = None"; force)+
qed

lemma countable_lazy:
  assumes "lazy_load w v"
  shows "countable v i j n = countable w i j n"
  using lazy_load_frame [OF assms] lazy_load_live [OF assms] by (simp add: countable_def)

lemma countable_logs [simp]: "countable (w\<lparr>w_logs := ls\<rparr>) i j n = countable w i j n"
proof -
  have "live_token (w\<lparr>w_logs := ls\<rparr>) = live_token w" "live_user (w\<lparr>w_logs := ls\<rparr>) = live_user w"
    using live_logs [where w = w and ls = ls and fs = "w_faults w"] by simp_all
  then show ?thesis by (simp add: countable_def find_token_def find_user_def)
qed

lemma finish_charges:
  assumes "w_faults w = []" "0 < charge status bill"
    "countable w (tok_ID (rc_token rc)) (user_ID (rc_user rc)) (charge status bill)"
  shows "live_token (snd (finish rc att rule status code msg toks stream bill w)) =
      add_to (tok_ID (rc_token rc)) (charge status bill) (live_token w)"
    "live_user (snd (finish rc att rule status code msg toks stream bill w)) =
      add_to (user_ID (rc_user rc)) (charge status bill) (live_user w)"
proof -
  obtain v capture where v: "snd (finish rc att rule status code msg toks stream bill w) =
      (if charge status bill > 0
       then snd (Consume (tok_ID (rc_token rc)) (user_ID (rc_user rc)) (charge status bill) v) else v)"
    "v = w\<lparr>w_logs := w_logs w @ (if storable_log (log_row rc att rule status code msg toks stream bill capture)
       then [log_row rc att rule status code msg toks stream bill capture] else [])\<rparr>"
    using finish_ok [OF assms(1)] .
  have "w_faults v = []" "countable v (tok_ID (rc_token rc)) (user_ID (rc_user rc)) (charge status bill)"
    using assms by (simp_all add: v(2))
  note c = Consume_countable [OF this(1) assms(2) this(2)]
  have "live_token v = live_token w" "live_user v = live_user w"
    using live_logs [where w = w and fs = "w_faults w"] by (simp_all add: v(2))
  with c assms(2) show "live_token (snd (finish rc att rule status code msg toks stream bill w)) =
      add_to (tok_ID (rc_token rc)) (charge status bill) (live_token w)"
    "live_user (snd (finish rc att rule status code msg toks stream bill w)) =
      add_to (user_ID (rc_user rc)) (charge status bill) (live_user w)"
    unfolding v(1) by simp_all
qed

lemma nonstream_success:
  assumes "gate_ready rc r w" "affordable w rc est (ch, um) r" "For ch = Some ad"
    and "um = UpstreamModel ch (EffectiveModel sel)"
    and "env_BuildRequest env ad (upstream_request rc ch um) ch = Inr req"
    and "env_httpDo env (sel_cursor sel) req = Inr resp" "ParseResponse ad (env_jerr env) resp = Inr (ur, us)"
  shows "\<exists>w'. lazy_load w w' \<and> w_faults w' = [] \<and> nonstream_attempt env rc est sel ch w =
      (case serve_success env rc est (ch, um) (sel_Rule sel) (price_of w (ch_ID ch) um) ur us w' of
         (evs, w2) \<Rightarrow> (Stop ([CallUpstream (ch_ID ch) um] @ evs), w2))"
proof -
  obtain w' where g: "gateModelPrice env rc (ch, um) (sel_Rule sel) est False w =
      (Inr (price_of w (ch_ID ch) um), w')" "lazy_load w w'" "gate_ready rc r w'"
    using gate_passes [OF assms(1,2)] by (metis fst_conv snd_conv)
  then have "nonstream_attempt env rc est sel ch w =
      (case serve_success env rc est (ch, um) (sel_Rule sel) (price_of w (ch_ID ch) um) ur us w' of
         (evs, w2) \<Rightarrow> (Stop ([CallUpstream (ch_ID ch) um] @ evs), w2))"
    using assms(3,5-) by (simp add: nonstream_attempt_def Let_def flip: assms(4))
  with g show ?thesis by (auto simp: gate_ready_def)
qed


definition relay_usage :: usage where
  "relay_usage = empty_usage\<lparr>us_Prompt := 3, us_Completion := 2, us_Total := 5, us_HasUpstream := True\<rparr>"

lemma relay_parsed:
  "\<exists>ur. ParseResponse ''openai'' (\<lambda>_. []) \<lparr>hr_StatusCode = 200, hr_Status = ''st'', hr_Body = relay_body\<rparr> = Inr (ur, relay_usage)"
proof -
  have "(case ParseResponse ''openai'' (\<lambda>_. []) \<lparr>hr_StatusCode = 200, hr_Status = ''st'', hr_Body = relay_body\<rparr> of
     Inl _ \<Rightarrow> False | Inr (_, us) \<Rightarrow> us = relay_usage)"
    by code_simp
  then show ?thesis by (auto split: sum.splits)
qed


end
