(* ===== verification/Users.thy ===== *)
theory Users
  imports Quota
begin

text \<open>
  User accounts: \<open>service/user_service.go\<close>.  \<open>bcrypt\<close>, \<open>crypto/rand\<close> and PostgreSQL's text search and
  sort order are parameters.  A transaction's statements are the service's, in order; the
  sequence behind the primary key survives a rollback.
\<close>

section \<open>Parameters\<close>

text \<open>
  \<open>bc_hash\<close> is \<open>GenerateFromPassword\<close> (\<open>None\<close>: an error, such as a password over 72 bytes),
  \<open>bc_compare h p\<close> is \<open>CompareHashAndPassword\<close> without an error.  \<open>bcrypt_ok\<close> is their
  documented relation: the comparison accepts the password the hash was made from.
\<close>

record bcrypt =
  bc_hash :: "string \<Rightarrow> string option"
  bc_compare :: "string \<Rightarrow> string \<Rightarrow> bool"

definition bcrypt_ok :: "bcrypt \<Rightarrow> bool" where
  "bcrypt_ok bc \<longleftrightarrow> (\<forall>p h. bc_hash bc p = Some h \<longrightarrow> bc_compare bc h p)"

text \<open>\<open>pg_ilike s p\<close>: \<open>s ILIKE p\<close>.  \<open>pg_order col dir\<close>: \<open>ORDER BY\<close>.\<close>

record pg_text =
  pg_ilike :: "string \<Rightarrow> string \<Rightarrow> bool"
  pg_order :: "string \<Rightarrow> string \<Rightarrow> user list \<Rightarrow> user list"

section \<open>The table\<close>

definition storable_user :: "user \<Rightarrow> bool" where
  "storable_user u \<longleftrightarrow>
     list_all (\<lambda>(s, n). valid_text s \<and> length (runes s) \<le> n)
       [(user_Username u, 64), (user_Password u, 255), (user_DisplayName u, 128), (user_Email u, 255),
        (user_Role u, 16), (user_Status u, 16), (user_Group u, 64)]
     \<and> in_int64 (user_Quota u)"

definition seq_users :: string where "seq_users = ''users''"

text \<open>GORM leaves zero-valued fields with a default to the database and reads them back.\<close>

definition gorm_user_defaults :: "user \<Rightarrow> user" where
  "gorm_user_defaults u =
     u\<lparr>user_Role := (if user_Role u = [] then RoleUser else user_Role u),
       user_Status := (if user_Status u = [] then UserEnabled else user_Status u),
       user_Group := (if user_Group u = [] then ''default'' else user_Group u)\<rparr>"

definition create_user :: "user \<Rightarrow> user db" where
  "create_user u =
     bindM (io ErrDB) (\<lambda>_ w.
       let u' = (gorm_user_defaults u)\<lparr>user_ID := w_seq w seq_users\<rparr>;
           w' = w\<lparr>w_seq := (w_seq w)(seq_users := Suc (w_seq w seq_users))\<rparr> in
       if \<not> storable_user u' \<or> list_ex (\<lambda>x. user_Username x = user_Username u') (w_users w)
       then (Inl ErrDB, w')
       else (Inr u', w'\<lparr>w_users := w_users w @ [u']\<rparr>))"

definition user_by_name :: "string \<Rightarrow> world \<Rightarrow> user option" where
  "user_by_name name w = find (\<lambda>u. user_Username u = name) (w_users w)"

definition count_name :: "string \<Rightarrow> nat db" where
  "count_name name = db_text name (\<lambda>w. length (filter (\<lambda>u. user_Username u = name) (w_users w)))"

definition count_role :: "string \<Rightarrow> nat db" where
  "count_role role = db_read (\<lambda>w. length (filter (\<lambda>u. user_Role u = role) (w_users w)))"

definition update_user :: "nat \<Rightarrow> (user \<Rightarrow> user) \<Rightarrow> unit db" where
  "update_user i f =
     db_write_if (\<lambda>w. list_all (\<lambda>u. storable_user (f u)) (filter (\<lambda>u. user_ID u = i) (w_users w))) (upd_user i f)"

section \<open>Registration and login\<close>

definition UserService_Count :: "nat db" where
  "UserService_Count = db_read (\<lambda>w. length (w_users w))"

definition registerEnabled :: "bool db" where
  "registerEnabled = bindM (GetOption OptRegisterEnabled ''true'') (\<lambda>v.
     let v = lower_view (trim_space v) in
     retM (v \<noteq> ''false'' \<and> v \<noteq> ''0'' \<and> v \<noteq> ''off'' \<and> v \<noteq> ''no''))"

record register_input =
  reg_Username :: string
  reg_Password :: string
  reg_DisplayName :: string
  reg_Email :: string

definition new_user :: "string \<Rightarrow> string \<Rightarrow> string \<Rightarrow> string \<Rightarrow> string \<Rightarrow> string \<Rightarrow> int \<Rightarrow> string \<Rightarrow> user" where
  "new_user name hash display email role status quota grp =
     \<lparr>user_ID = 0, user_Username = name, user_Password = hash, user_DisplayName = display, user_Email = email,
      user_Role = role, user_Status = status, user_Quota = quota, user_UsedQuota = 0, user_Group = grp,
      user_LastLoginAt = None\<rparr>"

definition Register :: "bcrypt \<Rightarrow> register_input \<Rightarrow> bool \<Rightarrow> user db" where
  "Register bc inp fromAdmin =
     (let name = trim_space (reg_Username inp) in
      if name = [] \<or> reg_Password inp = [] then failM ErrInvalidInput
      else transaction (
        bindM UserService_Count (\<lambda>count.
        seqM (if \<not> fromAdmin \<and> count > 0
              then bindM registerEnabled (\<lambda>on. guardM on ErrRegisterDisabled) else retM ())
       (bindM (count_name name) (\<lambda>existing.
        if existing > 0 then failM ErrUserExists
        else case bc_hash bc (reg_Password inp) of
          None \<Rightarrow> failM ErrHash
        | Some h \<Rightarrow>
            bindM DefaultUserQuota (\<lambda>q.
              create_user (new_user name h (reg_DisplayName inp) (reg_Email inp)
                (if count = 0 then RoleAdmin else RoleUser) UserEnabled q [])))))))"

definition Login :: "bcrypt \<Rightarrow> string \<Rightarrow> string \<Rightarrow> user db" where
  "Login bc username password =
     (let name = trim_space username in
      if name = [] \<or> password = [] then failM ErrInvalidCredential
      else bindM (db_text name (user_by_name name)) (\<lambda>r.
        case r of
          None \<Rightarrow> failM ErrInvalidCredential
        | Some u \<Rightarrow>
            if \<not> bc_compare bc (user_Password u) password then failM ErrInvalidCredential
            else if user_Status u \<noteq> UserEnabled then failM ErrUserDisabled
            else (\<lambda>w. bindM (tryM (db_write (upd_user (user_ID u) (\<lambda>x. x\<lparr>user_LastLoginAt := Some (w_now w)\<rparr>))))
                   (\<lambda>res. retM (case res of Inr _ \<Rightarrow> u\<lparr>user_LastLoginAt := Some (w_now w)\<rparr> | Inl _ \<Rightarrow> u)) w)))"

section \<open>Reading and updating\<close>

definition GetByID :: "nat \<Rightarrow> user db" where
  "GetByID i = bindM (db_read (find_user i)) (\<lambda>r. case r of None \<Rightarrow> failM ErrUserNotFound | Some u \<Rightarrow> retM u)"

definition UserService_List :: "user list db" where
  "UserService_List = db_read w_users"

text \<open>The map of columns to write: \<open>None\<close> is a column that is not in it.\<close>

record user_changes =
  uc_DisplayName :: "string option"
  uc_Email :: "string option"
  uc_Role :: "string option"
  uc_Status :: "string option"
  uc_Quota :: "int option"
  uc_Group :: "string option"
  uc_Password :: "string option"

definition set_opt :: "'a option \<Rightarrow> ('a \<Rightarrow> user \<Rightarrow> user) \<Rightarrow> user \<Rightarrow> user" where
  "set_opt x f u = (case x of None \<Rightarrow> u | Some v \<Rightarrow> f v u)"

definition apply_changes :: "user_changes \<Rightarrow> user \<Rightarrow> user" where
  "apply_changes ch =
     set_opt (uc_Password ch) (\<lambda>v u. u\<lparr>user_Password := v\<rparr>)
   \<circ> set_opt (uc_Group ch) (\<lambda>v u. u\<lparr>user_Group := v\<rparr>)
   \<circ> set_opt (uc_Quota ch) (\<lambda>v u. u\<lparr>user_Quota := v\<rparr>)
   \<circ> set_opt (uc_Status ch) (\<lambda>v u. u\<lparr>user_Status := v\<rparr>)
   \<circ> set_opt (uc_Role ch) (\<lambda>v u. u\<lparr>user_Role := v\<rparr>)
   \<circ> set_opt (uc_Email ch) (\<lambda>v u. u\<lparr>user_Email := v\<rparr>)
   \<circ> set_opt (uc_DisplayName ch) (\<lambda>v u. u\<lparr>user_DisplayName := v\<rparr>)"

definition no_changes :: "user_changes \<Rightarrow> bool" where
  "no_changes ch \<longleftrightarrow> uc_DisplayName ch = None \<and> uc_Email ch = None \<and> uc_Role ch = None \<and> uc_Status ch = None
     \<and> uc_Quota ch = None \<and> uc_Group ch = None \<and> uc_Password ch = None"

definition write_changes :: "user \<Rightarrow> user_changes \<Rightarrow> user db" where
  "write_changes u ch =
     (if no_changes ch then retM u
      else seqM (update_user (user_ID u) (apply_changes ch)) (GetByID (user_ID u)))"

text \<open>The new password's hash, if one is given: an empty one is refused.\<close>

definition hash_opt :: "bcrypt \<Rightarrow> string option \<Rightarrow> err + string option" where
  "hash_opt bc pw =
     (case pw of None \<Rightarrow> Inr None
      | Some p \<Rightarrow> if p = [] then Inl ErrInvalidInput
          else (case bc_hash bc p of None \<Rightarrow> Inl ErrHash | Some h \<Rightarrow> Inr (Some h)))"

record self_input =
  si_DisplayName :: "string option"
  si_Email :: "string option"
  si_Password :: "string option"

definition UpdateSelf :: "bcrypt \<Rightarrow> nat \<Rightarrow> self_input \<Rightarrow> user db" where
  "UpdateSelf bc i inp =
     bindM (GetByID i) (\<lambda>u.
       case hash_opt bc (si_Password inp) of
         Inl e \<Rightarrow> failM e
       | Inr h \<Rightarrow> write_changes u
           \<lparr>uc_DisplayName = si_DisplayName inp, uc_Email = si_Email inp, uc_Role = None, uc_Status = None,
            uc_Quota = None, uc_Group = None, uc_Password = h\<rparr>)"

record admin_input =
  ai_DisplayName :: "string option"
  ai_Email :: "string option"
  ai_Role :: "string option"
  ai_Status :: "string option"
  ai_Quota :: "int option"
  ai_Password :: "string option"
  ai_Group :: "string option"

definition valid_role :: "string \<Rightarrow> bool" where "valid_role r \<longleftrightarrow> r = RoleAdmin \<or> r = RoleUser"
definition valid_status :: "string \<Rightarrow> bool" where "valid_status s \<longleftrightarrow> s = UserEnabled \<or> s = UserDisabled"

definition group_or_default :: "string \<Rightarrow> string" where
  "group_or_default g = (let g = trim_space g in if g = [] then ''default'' else g)"

definition AdminUpdate :: "bcrypt \<Rightarrow> nat \<Rightarrow> admin_input \<Rightarrow> user db" where
  "AdminUpdate bc i inp =
     bindM (GetByID i) (\<lambda>u.
       if (case ai_Role inp of None \<Rightarrow> False | Some r \<Rightarrow> \<not> valid_role r) then failM ErrInvalidInput
       else if (case ai_Status inp of None \<Rightarrow> False | Some s \<Rightarrow> \<not> valid_status s) then failM ErrInvalidInput
       else case hash_opt bc (ai_Password inp) of
         Inl e \<Rightarrow> failM e
       | Inr h \<Rightarrow> write_changes u
           \<lparr>uc_DisplayName = ai_DisplayName inp, uc_Email = ai_Email inp, uc_Role = ai_Role inp,
            uc_Status = ai_Status inp, uc_Quota = ai_Quota inp,
            uc_Group = map_option group_or_default (ai_Group inp), uc_Password = h\<rparr>)"

section \<open>Listing\<close>

record user_query =
  uq_Page :: int
  uq_PageSize :: int
  uq_Search :: string
  uq_Role :: string
  uq_Status :: string
  uq_Sort :: string
  uq_Order :: string

definition maxUserPageSize :: int where "maxUserPageSize = 100"

definition userSortColumns :: "string \<rightharpoonup> string" where
  "userSortColumns = map_of [(''created_at'', ''created_at''), (''used_quota'', ''used_quota''), (''username'', ''username'')]"

definition page_size :: "int \<Rightarrow> int" where
  "page_size n = (let n = (if n \<le> 0 then 20 else n) in if n > maxUserPageSize then maxUserPageSize else n)"

definition query_matches :: "pg_text \<Rightarrow> user_query \<Rightarrow> user \<Rightarrow> bool" where
  "query_matches pg q u \<longleftrightarrow>
     (let s = trim_space (uq_Search q); p = ''%'' @ s @ ''%'' in
        s = [] \<or> pg_ilike pg (user_Username u) p \<or> pg_ilike pg (user_Email u) p)
     \<and> (uq_Role q = [] \<or> user_Role u = uq_Role q) \<and> (uq_Status q = [] \<or> user_Status u = uq_Status q)"

definition query_text_ok :: "user_query \<Rightarrow> bool" where
  "query_text_ok q \<longleftrightarrow> valid_text (trim_space (uq_Search q)) \<and> valid_text (uq_Role q) \<and> valid_text (uq_Status q)"

definition sort_order :: "user_query \<Rightarrow> string \<times> string" where
  "sort_order q =
     (case userSortColumns (uq_Sort q) of None \<Rightarrow> ''created_at'' | Some c \<Rightarrow> c,
      if fold_view (uq_Order q) = ''asc'' then ''asc'' else ''desc'')"

text \<open>GORM writes an \<open>OFFSET\<close> only when it is positive.\<close>

definition limit_offset :: "int \<Rightarrow> int \<Rightarrow> 'a list \<Rightarrow> 'a list" where
  "limit_offset lim off xs = take (nat lim) (if off > 0 then drop (nat off) xs else xs)"

definition ListPaged :: "pg_text \<Rightarrow> user_query \<Rightarrow> (user list \<times> nat) db" where
  "ListPaged pg q =
     (let page = (if uq_Page q \<le> 0 then 1 else uq_Page q);
          pageSize = page_size (uq_PageSize q);
          hits = (\<lambda>w. filter (query_matches pg q) (w_users w)) in
      bindM (if query_text_ok q then db_read (\<lambda>w. length (hits w)) else bindM (io ErrDB) (\<lambda>_. failM ErrDB)) (\<lambda>total.
      bindM (db_read (\<lambda>w. limit_offset pageSize (mul64 (add64 page (- 1)) pageSize)
          (pg_order pg (fst (sort_order q)) (snd (sort_order q)) (hits w)))) (\<lambda>items.
        retM (items, total))))"

section \<open>Administration\<close>

definition tempPasswordLength :: nat where "tempPasswordLength = 20"

definition tempPasswordAlphabet :: string where
  "tempPasswordAlphabet = ''abcdefghijklmnopqrstuvwxyzABCDEFGHIJKLMNOPQRSTUVWXYZ0123456789!@#$%^&*-_=+''"

text \<open>\<open>rnd i\<close>: the i-th draw of \<open>rand.Int\<close> below the alphabet's length, \<open>None\<close> if it fails.\<close>

definition generateTempPassword :: "(nat \<Rightarrow> nat option) \<Rightarrow> err + string" where
  "generateTempPassword rnd =
     (let ds = map rnd [0..<tempPasswordLength] in
      if list_all (\<lambda>d. d \<noteq> None) ds then Inr (map (\<lambda>d. tempPasswordAlphabet ! the d) ds) else Inl ErrRand)"

record create_input =
  ci_Username :: string
  ci_Password :: string
  ci_DisplayName :: string
  ci_Email :: string
  ci_Role :: string
  ci_Status :: string
  ci_Quota :: "int option"
  ci_Group :: string

definition AdminCreate :: "bcrypt \<Rightarrow> (nat \<Rightarrow> nat option) \<Rightarrow> create_input \<Rightarrow> user db" where
  "AdminCreate bc rnd inp =
     (let name = trim_space (ci_Username inp);
          role = (if ci_Role inp \<noteq> [] then ci_Role inp else RoleUser);
          status = (if ci_Status inp \<noteq> [] then ci_Status inp else UserEnabled) in
      if name = [] then failM ErrInvalidInput
      else if \<not> valid_role role then failM ErrInvalidInput
      else if \<not> valid_status status then failM ErrInvalidInput
      else case (if ci_Password inp = [] then generateTempPassword rnd else Inr (ci_Password inp)) of
        Inl e \<Rightarrow> failM e
      | Inr password \<Rightarrow> transaction (
          bindM (count_name name) (\<lambda>existing.
          if existing > 0 then failM ErrUserExists
          else case bc_hash bc password of
            None \<Rightarrow> failM ErrHash
          | Some h \<Rightarrow>
              bindM DefaultUserQuota (\<lambda>dq.
                create_user (new_user name h (ci_DisplayName inp) (ci_Email inp) role status
                  (case ci_Quota inp of None \<Rightarrow> dq | Some q \<Rightarrow> q) (group_or_default (ci_Group inp)))))))"

text \<open>The target's row is read before the transaction begins; the counter is cleared best-effort.\<close>

definition UserService_Delete :: "nat \<Rightarrow> nat \<Rightarrow> unit db" where
  "UserService_Delete acting target =
     (if target = acting then failM ErrCannotDeleteSelf
      else bindM (GetByID target) (\<lambda>t.
        seqM (transaction (
          seqM (if user_Role t = RoleAdmin
                then bindM (count_role RoleAdmin) (\<lambda>admins. guardM (admins > 1) ErrLastAdmin) else retM ())
         (seqM (db_write (\<lambda>w. w\<lparr>w_tokens := filter (\<lambda>k. tok_UserID k \<noteq> target) (w_tokens w)\<rparr>))
               (db_write (\<lambda>w. w\<lparr>w_users := filter (\<lambda>u. user_ID u \<noteq> target) (w_users w)\<rparr>)))))
       (seqM (tryM (ResetUserUsage target)) (retM ()))))"

definition ResetPassword :: "bcrypt \<Rightarrow> (nat \<Rightarrow> nat option) \<Rightarrow> nat \<Rightarrow> string \<Rightarrow> string db" where
  "ResetPassword bc rnd target newPassword =
     seqM (GetByID target)
       (case (if newPassword = [] then generateTempPassword rnd else Inr newPassword) of
          Inl e \<Rightarrow> failM e
        | Inr plaintext \<Rightarrow>
            (case bc_hash bc plaintext of
               None \<Rightarrow> failM ErrHash
             | Some h \<Rightarrow> seqM (update_user target (\<lambda>u. u\<lparr>user_Password := h\<rparr>)) (retM plaintext)))"

definition QuotaOpAdd :: string where "QuotaOpAdd = ''add''"
definition QuotaOpSet :: string where "QuotaOpSet = ''set''"
definition QuotaOpResetUsed :: string where "QuotaOpResetUsed = ''reset_used''"

definition QuotaOp :: "nat \<Rightarrow> string \<Rightarrow> int \<Rightarrow> user db" where
  "QuotaOp target op amount =
     seqM (GetByID target)
    (seqM (if op = QuotaOpAdd then
             (if amount \<le> 0 then failM ErrInvalidInput
              else update_user target (\<lambda>u. u\<lparr>user_Quota := user_Quota u + amount\<rparr>))
           else if op = QuotaOpSet then
             (if amount < - 1 then failM ErrInvalidInput
              else update_user target (\<lambda>u. u\<lparr>user_Quota := amount\<rparr>))
           else if op = QuotaOpResetUsed then ResetUserUsage target
           else failM ErrInvalidInput)
          (GetByID target))"

section \<open>Well-formed user tables\<close>

definition users_ok :: "world \<Rightarrow> bool" where
  "users_ok w \<longleftrightarrow> distinct (map user_ID (w_users w)) \<and> distinct (map user_Username (w_users w))
     \<and> list_all (\<lambda>u. user_ID u < w_seq w seq_users) (w_users w)"

definition keeps_users :: "world \<Rightarrow> world \<Rightarrow> bool" where
  "keeps_users w w' \<longleftrightarrow> w_seq w seq_users \<le> w_seq w' seq_users \<and> (users_ok w \<longrightarrow> users_ok w')"

definition enabled_admin :: "nat \<Rightarrow> world \<Rightarrow> bool" where
  "enabled_admin i w \<longleftrightarrow>
     (case find_user i w of None \<Rightarrow> False | Some u \<Rightarrow> user_Role u = RoleAdmin \<and> user_Status u = UserEnabled)"

definition keeps_admin :: "nat \<Rightarrow> world \<Rightarrow> world \<Rightarrow> bool" where
  "keeps_admin i w w' \<longleftrightarrow> (enabled_admin i w \<longrightarrow> enabled_admin i w')"

interpretation ok: kept keeps_users
proof
  show "same_data w w' \<Longrightarrow> keeps_users w w'" for w w'
    by (simp add: keeps_users_def users_ok_def same_dataD)
qed (auto simp: keeps_users_def users_ok_def list_all_iff)

interpretation adm: kept "keeps_admin i" for i
proof
  show "same_data w w' \<Longrightarrow> keeps_admin i w w'" for w w'
    by (simp add: keeps_admin_def enabled_admin_def find_user_def same_dataD)
qed (auto simp: keeps_admin_def enabled_admin_def find_user_def)

text \<open>What the writes keep.\<close>

lemma user_rows:
  assumes "w_users w' = map f (w_users w)" "\<And>u. user_ID (f u) = user_ID u"
    "\<And>u. user_Username (f u) = user_Username u" "w_seq w' = w_seq w"
  shows "keeps_users w w'"
  using assms by (simp add: keeps_users_def users_ok_def comp_def list_all_iff)

lemma find_map:
  assumes "w_users w' = map f (w_users w)" "\<And>u. user_ID (f u) = user_ID u"
  shows "find_user i w' = map_option f (find_user i w)"
proof -
  have "find (\<lambda>u. user_ID u = i) (map f us) = map_option f (find (\<lambda>u. user_ID u = i) us)" for us
    by (induction us) (simp_all add: assms(2))
  then show ?thesis by (simp add: find_user_def assms(1))
qed

lemma admin_rows:
  assumes "w_users w' = map f (w_users w)" "\<And>u. user_ID (f u) = user_ID u"
    "\<And>u. user_ID u = i \<Longrightarrow> user_Role u = RoleAdmin \<Longrightarrow> user_Status u = UserEnabled \<Longrightarrow>
       user_Role (f u) = RoleAdmin \<and> user_Status (f u) = UserEnabled"
  shows "keeps_admin i w w'"
proof -
  have "user_ID u = i" if "find_user i w = Some u" for u
    using that by (auto simp: find_user_def find_Some_iff)
  with assms(3) show ?thesis
    unfolding keeps_admin_def enabled_admin_def find_map [OF assms(1,2)] by (auto split: option.splits)
qed

lemma upd_user_rows: "w_users (upd_user i f w) = map (\<lambda>u. if user_ID u = i then f u else u) (w_users w)"
  "w_seq (upd_user i f w) = w_seq w"
  by (simp_all add: upd_user_def)

lemma upd_user_keeps:
  assumes "\<And>u. user_ID (f u) = user_ID u"
  shows "(\<And>u. user_Username (f u) = user_Username u) \<Longrightarrow> keeps_users w (upd_user i f w)"
    "(\<And>u. j = i \<Longrightarrow> user_Role u = RoleAdmin \<Longrightarrow> user_Status u = UserEnabled \<Longrightarrow>
       user_Role (f u) = RoleAdmin \<and> user_Status (f u) = UserEnabled) \<Longrightarrow> keeps_admin j w (upd_user i f w)"
  using assms by (auto intro!: user_rows [OF upd_user_rows(1)] admin_rows [OF upd_user_rows(1)] simp: upd_user_rows)

lemma update_user_keeps:
  assumes "\<And>u. user_ID (f u) = user_ID u"
  shows "(\<And>u. user_Username (f u) = user_Username u) \<Longrightarrow> keeps_users w (snd (update_user i f w))"
    "(\<And>u. j = i \<Longrightarrow> user_Role u = RoleAdmin \<Longrightarrow> user_Status u = UserEnabled \<Longrightarrow>
       user_Role (f u) = RoleAdmin \<and> user_Status (f u) = UserEnabled) \<Longrightarrow> keeps_admin j w (snd (update_user i f w))"
  unfolding update_user_def using assms by (auto intro!: ok.write_if adm.write_if upd_user_keeps)

lemma gorm_user_defaults_sel [simp]:
  "user_ID (gorm_user_defaults u) = user_ID u" "user_Username (gorm_user_defaults u) = user_Username u"
  "user_Password (gorm_user_defaults u) = user_Password u"
  by (simp_all add: gorm_user_defaults_def)

lemma create_user_cases:
  assumes "create_user u w = (r, w')"
  obtains (failed) e where "r = Inl e" "w_users w' = w_users w" "w_seq w seq_users \<le> w_seq w' seq_users"
  | (stored) u' where "r = Inr u'" "u' = (gorm_user_defaults u)\<lparr>user_ID := w_seq w seq_users\<rparr>"
      "w_users w' = w_users w @ [u']" "w_seq w' seq_users = Suc (w_seq w seq_users)" "storable_user u'"
      "\<not> list_ex (\<lambda>x. user_Username x = user_Username u) (w_users w)" "w_tokens w' = w_tokens w"
proof (cases rule: io_cases [of ErrDB w])
  case (ok fs)
  with assms failed stored show thesis by (auto simp: create_user_def bindM_def Let_def split: if_splits)
next
  case (fail fs)
  with assms failed show thesis by (auto simp: create_user_def bindM_def)
qed

lemma create_user_keeps: "keeps_users w (snd (create_user u w))" "keeps_admin i w (snd (create_user u w))"
proof -
  obtain r w' where c: "create_user u w = (r, w')" by fastforce
  have ext: "find_user i w' = Some v" if "find_user i w = Some v" "w_users w' = w_users w @ us" for v us
    using that by (simp add: find_user_def find_append)
  from c have "keeps_users w w' \<and> keeps_admin i w w'"
  proof (cases rule: create_user_cases)
    case (failed e)
    then show ?thesis
      by (auto simp: keeps_users_def users_ok_def keeps_admin_def enabled_admin_def find_user_def list_all_iff)
  next
    case (stored u')
    then have "keeps_users w w'"
      by (fastforce simp: keeps_users_def users_ok_def list_all_iff list_ex_iff less_Suc_eq)
    moreover have "keeps_admin i w w'"
      using ext [OF _ stored(3)] by (auto simp: keeps_admin_def enabled_admin_def split: option.splits)
    ultimately show ?thesis ..
  qed
  then show "keeps_users w (snd (create_user u w))" "keeps_admin i w (snd (create_user u w))" by (simp_all add: c)
qed

lemma ResetUserUsage_keeps: "keeps_users w (snd (ResetUserUsage i w))" "keeps_admin j w (snd (ResetUserUsage i w))"
proof -
  have dirty: "keeps_users v (v\<lparr>w_dirtyUsers := x\<rparr>)" "keeps_admin j v (v\<lparr>w_dirtyUsers := x\<rparr>)" for v x
    by (simp_all add: keeps_users_def users_ok_def keeps_admin_def enabled_admin_def find_user_def)
  have del: "keeps_users v (redis_upd k x v)" "keeps_admin j v (redis_upd k x v)" for v k x
    by (simp_all add: keeps_users_def users_ok_def keeps_admin_def enabled_admin_def find_user_def)
  have rd: "keeps_users v (snd ((if w_redis v = None then (Inr (), v) else redis_del (userUsedKey i) v)))"
    "keeps_admin j v (snd ((if w_redis v = None then (Inr (), v) else redis_del (userUsedKey i) v)))" for v
  proof -
    have "keeps_users v (snd (redis_del (userUsedKey i) v))" "keeps_admin j v (snd (redis_del (userUsedKey i) v))"
      unfolding redis_del_def by (rule ok.bind ok.call, rule ok.call, simp add: del)
        (rule adm.bind, rule adm.call, simp add: del)
    then show "keeps_users v (snd ((if w_redis v = None then (Inr (), v) else redis_del (userUsedKey i) v)))"
      "keeps_admin j v (snd ((if w_redis v = None then (Inr (), v) else redis_del (userUsedKey i) v)))"
      using ok.data adm.data by auto
  qed
  have used: "keeps_users v (set_user_used i 0 v)" "keeps_admin j v (set_user_used i 0 v)" for v
    unfolding set_user_used_def by (auto intro!: upd_user_keeps)
  show "keeps_users w (snd (ResetUserUsage i w))"
    unfolding ResetUserUsage_def by (intro ok.seqn ok.stores) (simp_all add: used dirty rd)
  show "keeps_admin j w (snd (ResetUserUsage i w))"
    unfolding ResetUserUsage_def by (intro adm.seqn adm.stores) (simp_all add: used dirty rd)
qed

section \<open>What the operations keep\<close>

lemma apply_changes_sel [simp]:
  "user_ID (apply_changes ch u) = user_ID u" "user_Username (apply_changes ch u) = user_Username u"
  "user_Role (apply_changes ch u) = (case uc_Role ch of None \<Rightarrow> user_Role u | Some r \<Rightarrow> r)"
  "user_Status (apply_changes ch u) = (case uc_Status ch of None \<Rightarrow> user_Status u | Some s \<Rightarrow> s)"
  "user_Password (apply_changes ch u) = (case uc_Password ch of None \<Rightarrow> user_Password u | Some h \<Rightarrow> h)"
  "user_UsedQuota (apply_changes ch u) = user_UsedQuota u"
  by (simp_all add: apply_changes_def set_opt_def split: option.split)

lemma GetByID_keeps: "keeps_users w (snd (GetByID i w))" "keeps_admin j w (snd (GetByID i w))"
  unfolding GetByID_def by (intro ok.rules) (intro adm.rules)

lemma GetByID_id: "GetByID i w = (Inr u, w') \<Longrightarrow> user_ID u = i \<and> same_data w w' \<and> find_user i w = Some u"
  by (cases rule: io_cases [of ErrDB w])
    (auto simp: GetByID_def db_read_def bindM_def find_user_def find_Some_iff split: option.splits)

lemma write_changes_keeps: "keeps_users w (snd (write_changes u ch w))"
  unfolding write_changes_def by (intro ok.rules update_user_keeps GetByID_keeps; simp)

lemma write_changes_keeps_admin:
  assumes "\<And>v. user_Role v = RoleAdmin \<Longrightarrow> user_Status v = UserEnabled \<Longrightarrow> j = user_ID u \<Longrightarrow>
      user_Role (apply_changes ch v) = RoleAdmin \<and> user_Status (apply_changes ch v) = UserEnabled"
  shows "keeps_admin j w (snd (write_changes u ch w))"
proof -
  have "keeps_admin j v (snd (update_user (user_ID u) (apply_changes ch) v))" for v
    using assms by (intro update_user_keeps(2)) simp_all
  then show ?thesis unfolding write_changes_def by (intro adm.rules GetByID_keeps)
qed

lemma UserService_Count_keeps: "keeps_users w (snd (UserService_Count w))" "keeps_admin j w (snd (UserService_Count w))"
  unfolding UserService_Count_def by (rule ok.read, rule adm.read)

lemma registerEnabled_keeps: "keeps_users w (snd (registerEnabled w))" "keeps_admin j w (snd (registerEnabled w))"
  unfolding registerEnabled_def Let_def by (intro ok.rules) (intro adm.rules)

lemma DefaultUserQuota_keeps: "keeps_users w (snd (DefaultUserQuota w))" "keeps_admin j w (snd (DefaultUserQuota w))"
  unfolding DefaultUserQuota_def by (intro ok.rules) (intro adm.rules)

lemma Register_keeps: "keeps_users w (snd (Register bc inp fromAdmin w))" "keeps_admin j w (snd (Register bc inp fromAdmin w))"
  unfolding Register_def Let_def count_name_def
  by (intro ok.rules create_user_keeps UserService_Count_keeps registerEnabled_keeps DefaultUserQuota_keeps)
    (intro adm.rules create_user_keeps UserService_Count_keeps registerEnabled_keeps DefaultUserQuota_keeps)

lemma Login_keeps: "keeps_users w (snd (Login bc name password w))" "keeps_admin j w (snd (Login bc name password w))"
  unfolding Login_def Let_def
  by (intro ok.rules ok.stores upd_user_keeps; simp) (intro adm.rules adm.stores upd_user_keeps; simp)

lemma UpdateSelf_keeps: "keeps_users w (snd (UpdateSelf bc i inp w))" "keeps_admin j w (snd (UpdateSelf bc i inp w))"
  unfolding UpdateSelf_def
  by (intro ok.rules GetByID_keeps write_changes_keeps) (intro adm.rules GetByID_keeps write_changes_keeps_admin; simp)

lemma AdminUpdate_keeps_users: "keeps_users w (snd (AdminUpdate bc i inp w))"
  unfolding AdminUpdate_def by (intro ok.rules GetByID_keeps write_changes_keeps)

lemma AdminUpdate_keeps_admin:
  assumes "i = j \<Longrightarrow> ai_Status inp \<noteq> Some UserDisabled \<and> (case ai_Role inp of None \<Rightarrow> True | Some r \<Rightarrow> r = RoleAdmin)"
  shows "keeps_admin j w (snd (AdminUpdate bc i inp w))"
proof -
  obtain r v where g: "GetByID i w = (r, v)" by fastforce
  have k: "keeps_admin j w v" using GetByID_keeps(2) [of j w i] g by simp
  show ?thesis
  proof (cases r)
    case (Inl e)
    with g k show ?thesis by (simp add: AdminUpdate_def bindM_def)
  next
    case (Inr u)
    with g have u: "user_ID u = i" by (auto dest: GetByID_id)
    let ?n = "\<lambda>u. if (case ai_Role inp of None \<Rightarrow> False | Some r \<Rightarrow> \<not> valid_role r) then failM ErrInvalidInput
       else if (case ai_Status inp of None \<Rightarrow> False | Some s \<Rightarrow> \<not> valid_status s) then failM ErrInvalidInput
       else case hash_opt bc (ai_Password inp) of
         Inl e \<Rightarrow> failM e
       | Inr h \<Rightarrow> write_changes u
           \<lparr>uc_DisplayName = ai_DisplayName inp, uc_Email = ai_Email inp, uc_Role = ai_Role inp,
            uc_Status = ai_Status inp, uc_Quota = ai_Quota inp,
            uc_Group = map_option group_or_default (ai_Group inp), uc_Password = h\<rparr>"
    have "keeps_admin j v (snd (?n u v))"
      using assms u
      by (intro adm.rules write_changes_keeps_admin) (auto simp: valid_status_def split: option.splits)
    moreover from g Inr have "AdminUpdate bc i inp w = ?n u v" by (simp add: AdminUpdate_def bindM_def)
    ultimately show ?thesis using adm.compose [OF k] by simp
  qed
qed

lemma AdminCreate_keeps: "keeps_users w (snd (AdminCreate bc rnd inp w))" "keeps_admin j w (snd (AdminCreate bc rnd inp w))"
  unfolding AdminCreate_def Let_def count_name_def
  by (intro ok.rules create_user_keeps DefaultUserQuota_keeps)
    (intro adm.rules create_user_keeps DefaultUserQuota_keeps)

lemma ResetPassword_keeps:
  "keeps_users w (snd (ResetPassword bc rnd i pw w))" "keeps_admin j w (snd (ResetPassword bc rnd i pw w))"
  unfolding ResetPassword_def
  by (intro ok.rules GetByID_keeps update_user_keeps; simp) (intro adm.rules GetByID_keeps update_user_keeps; simp)

lemma QuotaOp_keeps: "keeps_users w (snd (QuotaOp i op n w))" "keeps_admin j w (snd (QuotaOp i op n w))"
  unfolding QuotaOp_def
  by (intro ok.rules GetByID_keeps update_user_keeps ResetUserUsage_keeps; simp)
    (intro adm.rules GetByID_keeps update_user_keeps ResetUserUsage_keeps; simp)

lemma deletion_keeps:
  "keeps_users v (v\<lparr>w_tokens := filter P (w_tokens v)\<rparr>)" "keeps_admin j v (v\<lparr>w_tokens := filter P (w_tokens v)\<rparr>)"
  "keeps_users v (v\<lparr>w_users := filter (\<lambda>u. user_ID u \<noteq> i) (w_users v)\<rparr>)"
  "j \<noteq> i \<Longrightarrow> keeps_admin j v (v\<lparr>w_users := filter (\<lambda>u. user_ID u \<noteq> i) (w_users v)\<rparr>)"
proof -
  have f: "find (\<lambda>u. user_ID u = j) (filter (\<lambda>u. user_ID u \<noteq> i) us) = find (\<lambda>u. user_ID u = j) us"
    if "j \<noteq> i" for us using that by (induction us) auto
  have "find_user j (v\<lparr>w_users := filter (\<lambda>u. user_ID u \<noteq> i) (w_users v)\<rparr>) = find_user j v" if "j \<noteq> i"
    using f [OF that, of "w_users v"] by (simp add: find_user_def)
  then show "j \<noteq> i \<Longrightarrow> keeps_admin j v (v\<lparr>w_users := filter (\<lambda>u. user_ID u \<noteq> i) (w_users v)\<rparr>)"
    by (simp add: keeps_admin_def enabled_admin_def)
  show "keeps_users v (v\<lparr>w_users := filter (\<lambda>u. user_ID u \<noteq> i) (w_users v)\<rparr>)"
    by (auto simp: keeps_users_def users_ok_def list_all_iff distinct_map_filter)
qed (simp_all add: keeps_users_def users_ok_def keeps_admin_def enabled_admin_def find_user_def)

lemma UserService_Delete_keeps:
  "keeps_users w (snd (UserService_Delete a i w))" "keeps_admin a w (snd (UserService_Delete a i w))"
proof -
  show "keeps_users w (snd (UserService_Delete a i w))"
    unfolding UserService_Delete_def count_role_def
    by (intro ok.rules ok.stores GetByID_keeps ResetUserUsage_keeps deletion_keeps)
  show "keeps_admin a w (snd (UserService_Delete a i w))"
    unfolding UserService_Delete_def count_role_def
    by (intro adm.rules adm.stores GetByID_keeps ResetUserUsage_keeps deletion_keeps) simp
qed

section \<open>Accounts that can log in\<close>

lemma transaction_InrE:
  assumes "transaction m w = (Inr x, w')"
  obtains v where "m w = (Inr x, v)" "same_data v w'"
  using transaction_ok [OF assms] by (elim exE conjE) (rule that)

lemma guardM_Inr [simp]: "guardM b e w = (Inr x, w') \<longleftrightarrow> b \<and> w' = w"
  by (cases b) auto

lemma db_text_data: "db_text s f w = (r, w') \<Longrightarrow> same_data w w'"
  by (cases rule: io_cases [of ErrDB w]) (auto simp: db_text_def bindM_def split: if_splits)

lemma registerEnabled_data: "registerEnabled w = (r, w') \<Longrightarrow> same_data w w'"
  by (auto simp: registerEnabled_def bindM_def Let_def split: prod.splits sum.splits dest: GetOption_data)

lemma DefaultUserQuota_data: "DefaultUserQuota w = (r, w') \<Longrightarrow> same_data w w'"
  by (auto simp: DefaultUserQuota_def bindM_def split: prod.splits sum.splits dest: GetOption_data)

text \<open>The row a successful registration leaves.\<close>

lemma Register_row:
  assumes "Register bc inp fromAdmin w = (Inr u, w')"
  obtains h where "bc_hash bc (reg_Password inp) = Some h" "user_Password u = h" "reg_Password inp \<noteq> []"
    "trim_space (reg_Username inp) \<noteq> []" "user_Username u = trim_space (reg_Username inp)"
    "user_Role u = (if w_users w = [] then RoleAdmin else RoleUser)" "user_Status u = UserEnabled"
    "w_users w' = w_users w @ [u]" "storable_user u"
    "\<not> list_ex (\<lambda>x. user_Username x = user_Username u) (w_users w)"
proof -
  let ?name = "trim_space (reg_Username inp)"
  have ne: "?name \<noteq> []" "reg_Password inp \<noteq> []"
    using assms by (auto simp: Register_def Let_def split: if_splits)
  from assms ne obtain v where t: "bindM UserService_Count (\<lambda>count.
        seqM (if \<not> fromAdmin \<and> count > 0
              then bindM registerEnabled (\<lambda>on. guardM on ErrRegisterDisabled) else retM ())
       (bindM (count_name ?name) (\<lambda>existing.
        if existing > 0 then failM ErrUserExists
        else case bc_hash bc (reg_Password inp) of
          None \<Rightarrow> failM ErrHash
        | Some h \<Rightarrow>
            bindM DefaultUserQuota (\<lambda>q.
              create_user (new_user ?name h (reg_DisplayName inp) (reg_Email inp)
                (if count = 0 then RoleAdmin else RoleUser) UserEnabled q []))))) w = (Inr u, v)" "same_data v w'"
    unfolding Register_def Let_def by (auto elim: transaction_InrE)
  from t(1) obtain count w1 where c: "UserService_Count w = (Inr count, w1)"
    and r1: "seqM (if \<not> fromAdmin \<and> count > 0
              then bindM registerEnabled (\<lambda>on. guardM on ErrRegisterDisabled) else retM ())
       (bindM (count_name ?name) (\<lambda>existing.
        if existing > 0 then failM ErrUserExists
        else case bc_hash bc (reg_Password inp) of
          None \<Rightarrow> failM ErrHash
        | Some h \<Rightarrow>
            bindM DefaultUserQuota (\<lambda>q.
              create_user (new_user ?name h (reg_DisplayName inp) (reg_Email inp)
                (if count = 0 then RoleAdmin else RoleUser) UserEnabled q [])))) w1 = (Inr u, v)"
    by (rule bindM_InrE)
  have d1: "same_data w w1" "count = length (w_users w)"
    using db_read_Inr [OF c [unfolded UserService_Count_def]] by auto
  from r1 [unfolded seqM_def] obtain x w2 where g: "(if \<not> fromAdmin \<and> count > 0
              then bindM registerEnabled (\<lambda>on. guardM on ErrRegisterDisabled) else retM ()) w1 = (Inr x, w2)"
    and r2: "bindM (count_name ?name) (\<lambda>existing.
        if existing > 0 then failM ErrUserExists
        else case bc_hash bc (reg_Password inp) of
          None \<Rightarrow> failM ErrHash
        | Some h \<Rightarrow>
            bindM DefaultUserQuota (\<lambda>q.
              create_user (new_user ?name h (reg_DisplayName inp) (reg_Email inp)
                (if count = 0 then RoleAdmin else RoleUser) UserEnabled q []))) w2 = (Inr u, v)"
    by (rule bindM_InrE)
  have d2: "same_data w1 w2"
    using g by (auto simp: bindM_def split: if_splits prod.splits sum.splits dest: registerEnabled_data)
  from r2 obtain ex w3 where e: "count_name ?name w2 = (Inr ex, w3)"
    and r3: "(if ex > 0 then failM ErrUserExists
        else case bc_hash bc (reg_Password inp) of
          None \<Rightarrow> failM ErrHash
        | Some h \<Rightarrow>
            bindM DefaultUserQuota (\<lambda>q.
              create_user (new_user ?name h (reg_DisplayName inp) (reg_Email inp)
                (if count = 0 then RoleAdmin else RoleUser) UserEnabled q []))) w3 = (Inr u, v)"
    by (rule bindM_InrE)
  have d3: "same_data w2 w3" using db_text_data [OF e [unfolded count_name_def]] .
  from r3 obtain h where h: "bc_hash bc (reg_Password inp) = Some h"
    and r4: "bindM DefaultUserQuota (\<lambda>q.
              create_user (new_user ?name h (reg_DisplayName inp) (reg_Email inp)
                (if count = 0 then RoleAdmin else RoleUser) UserEnabled q [])) w3 = (Inr u, v)"
    by (auto split: if_splits option.splits)
  from r4 obtain q w4 where q: "DefaultUserQuota w3 = (Inr q, w4)"
    and r5: "create_user (new_user ?name h (reg_DisplayName inp) (reg_Email inp)
                (if count = 0 then RoleAdmin else RoleUser) UserEnabled q []) w4 = (Inr u, v)"
    by (rule bindM_InrE)
  have d: "same_data w w4"
    using d1(1) d2 d3 DefaultUserQuota_data [OF q] same_data_trans by blast
  from r5 show ?thesis
  proof (cases rule: create_user_cases)
    case (stored u')
    have "w_users w' = w_users w @ [u]"
      using stored(1,3) same_dataD(1) [OF t(2)] same_dataD(1) [OF d] by simp
    with stored ne h d1(2) same_dataD(1) [OF d] show ?thesis
      by (intro that) (simp_all add: new_user_def gorm_user_defaults_def enum_defs)
  qed simp
qed

lemma Login_ok:
  assumes "w_faults w = []" "trim_space name \<noteq> []" "password \<noteq> []" "valid_text (trim_space name)"
    "user_by_name (trim_space name) w = Some u" "bc_compare bc (user_Password u) password" "user_Status u = UserEnabled"
  shows "Login bc name password w = (Inr (u\<lparr>user_LastLoginAt := Some (w_now w)\<rparr>),
      upd_user (user_ID u) (\<lambda>x. x\<lparr>user_LastLoginAt := Some (w_now w)\<rparr>) w)"
  using assms by (simp add: Login_def Let_def db_text_def bindM_def tryM_def)

lemma user_by_name_last:
  "w_users w' = us @ [u] \<Longrightarrow> \<not> list_ex (\<lambda>x. user_Username x = user_Username u) us \<Longrightarrow>
     user_by_name (user_Username u) w' = Some u"
  by (simp add: user_by_name_def find_append list_ex_iff split: option.split) (auto simp: find_Some_iff)

text \<open>
  C24. A registered account can log in: after any successful registration, the same name and password
  are accepted, and the session is that of the new account, an admin exactly when it is the first
  account of the system.
\<close>

theorem registered_account_logs_in:
  assumes "bcrypt_ok bc" and "Register bc inp fromAdmin w = (Inr u, w1)" and "w_faults w1 = []"
  shows "\<exists>v w2. Login bc (reg_Username inp) (reg_Password inp) w1 = (Inr v, w2) \<and> user_ID v = user_ID u
    \<and> user_Role v = (if w_users w = [] then RoleAdmin else RoleUser)"
proof -
  from assms(2) obtain h where h: "bc_hash bc (reg_Password inp) = Some h" "user_Password u = h" "reg_Password inp \<noteq> []"
    "trim_space (reg_Username inp) \<noteq> []" "user_Username u = trim_space (reg_Username inp)"
    "user_Role u = (if w_users w = [] then RoleAdmin else RoleUser)" "user_Status u = UserEnabled"
    "w_users w1 = w_users w @ [u]" "storable_user u"
    "\<not> list_ex (\<lambda>x. user_Username x = user_Username u) (w_users w)"
    by (rule Register_row)
  have "valid_text (trim_space (reg_Username inp))" using h(5,9) by (simp add: storable_user_def)
  moreover have "user_by_name (trim_space (reg_Username inp)) w1 = Some u"
    using user_by_name_last [OF h(8,10)] h(5) by simp
  moreover have "bc_compare bc (user_Password u) (reg_Password inp)"
    using assms(1) h(1,2) by (simp add: bcrypt_ok_def)
  ultimately show ?thesis
    using Login_ok [OF assms(3) h(4,3)] h(6,7) by auto
qed

definition plain_bcrypt :: bcrypt where
  "plain_bcrypt = \<lparr>bc_hash = (\<lambda>p. if length p \<le> 72 then Some (''h'' @ p) else None), bc_compare = (\<lambda>h p. h = ''h'' @ p)\<rparr>"

definition empty_world :: world where
  "empty_world =
     \<lparr>w_users = [], w_tokens = [], w_channels = [], w_rules = [], w_prices = [], w_options = Map.empty, w_logs = [],
      w_seq = (\<lambda>_. 1), w_redis = None, w_dirtyTokens = [], w_dirtyUsers = [], w_faults = [], w_now = 5\<rparr>"

definition sample_registration :: register_input where
  "sample_registration = \<lparr>reg_Username = '' ann '', reg_Password = ''pw'', reg_DisplayName = ''Ann'', reg_Email = []\<rparr>"

lemma Register_sample:
  "\<exists>u w1. Register plain_bcrypt sample_registration False empty_world = (Inr u, w1) \<and> w_faults w1 = []"
proof -
  have t: "trim_space ''ann '' = ''ann''" by code_simp
  have st: "storable_user ((gorm_user_defaults (new_user ''ann'' ''hpw'' ''Ann'' [] RoleAdmin UserEnabled 0 []))\<lparr>user_ID := 1\<rparr>)"
    "valid_text ''ann''" "ParseInt ''0'' = Some 0"
    by code_simp+
  show ?thesis
    by (simp add: Register_def t sample_registration_def Let_def plain_bcrypt_def transaction_def empty_world_def
        UserService_Count_def bindM_def seqM_def count_name_def db_text_def st DefaultUserQuota_def GetOption_def tryM_def
        create_user_def st(1) [unfolded One_nat_def])
qed

lemma registered_account_logs_in_witness:
  "\<exists>w1 v w2. Login plain_bcrypt '' ann '' ''pw'' w1 = (Inr v, w2) \<and> user_Role v = RoleAdmin"
proof -
  obtain u w1 where "Register plain_bcrypt sample_registration False empty_world = (Inr u, w1)" "w_faults w1 = []"
    using Register_sample by blast
  have "bcrypt_ok plain_bcrypt"
    by (auto simp: bcrypt_ok_def plain_bcrypt_def split: if_splits)
  from registered_account_logs_in [OF this \<open>Register _ _ _ _ = _\<close> \<open>w_faults w1 = []\<close>]
  obtain v w2 where "Login plain_bcrypt (reg_Username sample_registration) (reg_Password sample_registration) w1 = (Inr v, w2)"
    "user_Role v = (if w_users empty_world = [] then RoleAdmin else RoleUser)"
    by blast
  then have "Login plain_bcrypt '' ann '' ''pw'' w1 = (Inr v, w2)" "user_Role v = RoleAdmin"
    by (simp_all add: sample_registration_def empty_world_def)
  then show ?thesis by blast
qed

section \<open>Pages\<close>

text \<open>All the rows a query selects, in its order.\<close>

definition listing :: "pg_text \<Rightarrow> user_query \<Rightarrow> world \<Rightarrow> user list" where
  "listing pg q w = pg_order pg (fst (sort_order q)) (snd (sort_order q)) (filter (query_matches pg q) (w_users w))"

lemma query_page [simp]:
  "query_matches pg (q\<lparr>uq_Page := p\<rparr>) = query_matches pg q" "query_text_ok (q\<lparr>uq_Page := p\<rparr>) = query_text_ok q"
  "sort_order (q\<lparr>uq_Page := p\<rparr>) = sort_order q"
  by (simp_all add: query_matches_def [abs_def] query_text_ok_def sort_order_def)

lemma page_size_bounds: "0 < page_size n" "page_size n \<le> 100"
  by (simp_all add: page_size_def maxUserPageSize_def Let_def)

lemma ListPaged_page:
  assumes "w_faults w = []" "query_text_ok q" "0 < p" "int p * page_size (uq_PageSize q) < 2 ^ 63"
  shows "ListPaged pg (q\<lparr>uq_Page := int p\<rparr>) w =
    (Inr (take (nat (page_size (uq_PageSize q))) (drop ((p - 1) * nat (page_size (uq_PageSize q))) (listing pg q w)),
       length (filter (query_matches pg q) (w_users w))), w)"
proof -
  let ?ps = "page_size (uq_PageSize q)"
  have ps: "0 < ?ps" by (rule page_size_bounds)
  have "int (p - 1) * ?ps \<le> int p * ?ps" using ps by (intro mult_right_mono) simp_all
  then have m: "0 \<le> int (p - 1) * ?ps" "int (p - 1) * ?ps < 2 ^ 63"
    using order.strict_trans1 [OF _ assms(4)] ps by (simp, blast)
  have "int p \<le> int p * ?ps" using ps by (simp add: mult_le_cancel_left1)
  from order.strict_trans1 [OF this assms(4)] have "in_int64 (int p + - 1)"
    using assms(3) by (simp add: in_int64_def)
  then have "add64 (int p) (- 1) = int (p - 1)" using assms(3) by (simp add: add64_exact of_nat_diff)
  moreover have "mul64 (int (p - 1)) ?ps = int (p - 1) * ?ps"
    using m by (intro mul64_exact) (simp add: in_int64_def)
  moreover have "nat (int (p - 1) * ?ps) = (p - 1) * nat ?ps" using ps by (simp add: nat_mult_distrib)
  moreover have "limit_offset ?ps (int (p - 1) * ?ps) xs = take (nat ?ps) (drop ((p - 1) * nat ?ps) xs)" for xs :: "user list"
    using calculation(3) m(1) by (cases "int (p - 1) * ?ps > 0") (auto simp: limit_offset_def)
  ultimately show ?thesis
    using assms by (simp add: ListPaged_def Let_def bindM_def listing_def)
qed

lemma concat_pages:
  "concat (map (\<lambda>p. take k (drop ((p - 1) * k) xs)) [1..<Suc n]) = take (n * k) xs"
proof (induction n)
  case (Suc n)
  have "take (Suc n * k) xs = take (n * k) xs @ take k (drop (n * k) xs)"
    by (metis add.commute mult_Suc take_add)
  then show ?case using Suc by simp
qed simp


definition sample_query :: user_query where
  "sample_query = \<lparr>uq_Page = 1, uq_PageSize = 2, uq_Search = [], uq_Role = [], uq_Status = [],
     uq_Sort = ''username'', uq_Order = ''asc''\<rparr>"

definition sample_text :: pg_text where
  "sample_text = \<lparr>pg_ilike = (\<lambda>s p. True), pg_order = (\<lambda>col dir us. rev us)\<rparr>"


end
