(* ===== verification/Rules.thy ===== *)
theory Rules
  imports Router
begin

text \<open>
  Routing rules: \<open>service/rule_service.go\<close>.  The texts of compilation errors are a parameter.
  Priorities are 64-bit integers of Go and of the column.
\<close>

section \<open>Input\<close>

text \<open>\<open>None\<close> is a nil pointer: the field is left unchanged.\<close>

record rule_input =
  rin_Name :: "string option"
  rin_Enabled :: "bool option"
  rin_Priority :: "int option"
  rin_Match :: "match_spec option"
  rin_TargetChannelIDs :: "nat list option"
  rin_TargetGroup :: "string option"
  rin_Expr :: "string option"
  rin_TargetModel :: "string option"

definition set_field :: "'a option \<Rightarrow> ('a \<Rightarrow> 'r \<Rightarrow> 'r) \<Rightarrow> 'r \<Rightarrow> 'r" where
  "set_field x f r = (case x of None \<Rightarrow> r | Some v \<Rightarrow> f v r)"

definition rule_fields :: "rule_input \<Rightarrow> routing_rule \<Rightarrow> routing_rule" where
  "rule_fields inp =
     set_field (rin_TargetModel inp) (\<lambda>m r. r\<lparr>rule_TargetModel := trim_space m\<rparr>)
   \<circ> set_field (rin_Expr inp) (\<lambda>e r. r\<lparr>rule_Expr := trim_space e\<rparr>)
   \<circ> set_field (rin_TargetGroup inp) (\<lambda>g r. r\<lparr>rule_TargetGroup := trim_space g\<rparr>)
   \<circ> set_field (rin_TargetChannelIDs inp) (\<lambda>ids r. r\<lparr>rule_TargetChannelIDs := Some (marshal_uints ids)\<rparr>)
   \<circ> set_field (rin_Match inp) (\<lambda>sp r. r\<lparr>rule_Match := Some (marshal_spec sp)\<rparr>)
   \<circ> set_field (rin_Priority inp) (\<lambda>p r. r\<lparr>rule_Priority := p\<rparr>)
   \<circ> set_field (rin_Enabled inp) (\<lambda>b r. r\<lparr>rule_Enabled := b\<rparr>)
   \<circ> set_field (rin_Name inp) (\<lambda>n r. r\<lparr>rule_Name := trim_space n\<rparr>)"

text \<open>\<open>applyInput\<close>: a rejected expression leaves the rule, which is then dropped, half changed.\<close>

definition rule_applyInput :: "(expr_error \<Rightarrow> string) \<Rightarrow> rule_input \<Rightarrow> routing_rule \<Rightarrow> err + routing_rule" where
  "rule_applyInput xtext inp r =
     (case rin_Expr inp of
        None \<Rightarrow> Inr (rule_fields inp r)
      | Some e \<Rightarrow>
          (case Compile (trim_space e) of
             Inl x \<Rightarrow> Inl (ErrInvalidRule (''expr: '' @ xtext x))
           | Inr _ \<Rightarrow> Inr (rule_fields inp r)))"

section \<open>The table\<close>

text \<open>JSONB refuses NUL characters.\<close>

fun json_storable :: "json \<Rightarrow> bool" where
  "json_storable (JStr s) = valid_text s"
| "json_storable (JArr xs) = list_all json_storable xs"
| "json_storable (JObj kvs) = list_all (\<lambda>(k, v). valid_text k \<and> json_storable v) kvs"
| "json_storable _ = True"

definition storable_rule :: "routing_rule \<Rightarrow> bool" where
  "storable_rule r \<longleftrightarrow>
     list_all (\<lambda>(s, n). valid_text s \<and> length (runes s) \<le> n)
       [(rule_Name r, 128), (rule_TargetGroup r, 64), (rule_TargetModel r, 128)]
     \<and> valid_text (rule_Expr r)
     \<and> list_all (\<lambda>j. case j of None \<Rightarrow> True | Some v \<Rightarrow> json_storable v) [rule_Match r, rule_TargetChannelIDs r]"

definition seq_rules :: string where "seq_rules = ''routing_rules''"

text \<open>A rule with \<open>Enabled\<close> false takes the column's default, true, which is read back.\<close>

definition create_rule :: "routing_rule \<Rightarrow> routing_rule db" where
  "create_rule r =
     bindM (io ErrDB) (\<lambda>_ w.
       let r' = r\<lparr>rule_ID := w_seq w seq_rules, rule_Enabled := True\<rparr>;
           w' = w\<lparr>w_seq := (w_seq w)(seq_rules := Suc (w_seq w seq_rules))\<rparr> in
       if storable_rule r' then (Inr r', w'\<lparr>w_rules := w_rules w @ [r']\<rparr>) else (Inl ErrDB, w'))"

definition upd_rule :: "nat \<Rightarrow> (routing_rule \<Rightarrow> routing_rule) \<Rightarrow> world \<Rightarrow> world" where
  "upd_rule i f w = w\<lparr>w_rules := map (\<lambda>r. if rule_ID r = i then f r else r) (w_rules w)\<rparr>"

definition save_rule :: "routing_rule \<Rightarrow> unit db" where
  "save_rule r = db_write_if (\<lambda>_. storable_rule r) (upd_rule (rule_ID r) (\<lambda>_. r))"

definition find_rule :: "nat \<Rightarrow> world \<Rightarrow> routing_rule option" where
  "find_rule i w = find (\<lambda>r. rule_ID r = i) (w_rules w)"

section \<open>Operations\<close>

definition rule_getRaw :: "nat \<Rightarrow> routing_rule db" where
  "rule_getRaw i = bindM (db_read (find_rule i)) (\<lambda>r. case r of None \<Rightarrow> failM ErrRuleNotFound | Some x \<Rightarrow> retM x)"

definition new_rule :: routing_rule where
  "new_rule = \<lparr>rule_ID = 0, rule_Name = [], rule_Enabled = True, rule_Priority = 0, rule_Match = None,
     rule_TargetChannelIDs = None, rule_TargetGroup = [], rule_Expr = [], rule_TargetModel = []\<rparr>"

definition json_defaults :: "routing_rule \<Rightarrow> routing_rule" where
  "json_defaults r =
     r\<lparr>rule_Match := (case rule_Match r of None \<Rightarrow> Some (JObj []) | m \<Rightarrow> m),
       rule_TargetChannelIDs := (case rule_TargetChannelIDs r of None \<Rightarrow> Some (JArr []) | t \<Rightarrow> t)\<rparr>"

definition RuleService_Create :: "(expr_error \<Rightarrow> string) \<Rightarrow> rule_input \<Rightarrow> routing_rule db" where
  "RuleService_Create xtext inp =
     (if (case rin_Name inp of None \<Rightarrow> True | Some n \<Rightarrow> trim_space n = [])
      then failM (ErrInvalidRule ''name is required'')
      else case rule_applyInput xtext inp new_rule of
        Inl e \<Rightarrow> failM e
      | Inr r \<Rightarrow>
          bindM (create_rule (json_defaults r)) (\<lambda>stored.
            if \<not> rule_Enabled r \<and> rule_Enabled stored then
              seqM (db_write (upd_rule (rule_ID stored) (\<lambda>x. x\<lparr>rule_Enabled := False\<rparr>)))
                   (retM (stored\<lparr>rule_Enabled := False\<rparr>))
            else retM stored))"

definition RuleService_Update :: "(expr_error \<Rightarrow> string) \<Rightarrow> nat \<Rightarrow> rule_input \<Rightarrow> routing_rule db" where
  "RuleService_Update xtext i inp =
     bindM (rule_getRaw i) (\<lambda>r.
       if (case rin_Name inp of None \<Rightarrow> False | Some n \<Rightarrow> trim_space n = [])
       then failM (ErrInvalidRule ''name cannot be empty'')
       else case rule_applyInput xtext inp r of
         Inl e \<Rightarrow> failM e
       | Inr r' \<Rightarrow> seqM (save_rule r') (retM r'))"

definition RuleService_Delete :: "nat \<Rightarrow> unit db" where
  "RuleService_Delete i =
     bindM (io ErrDB) (\<lambda>_ w.
       if list_ex (\<lambda>r. rule_ID r = i) (w_rules w)
       then (Inr (), w\<lparr>w_rules := filter (\<lambda>r. rule_ID r \<noteq> i) (w_rules w)\<rparr>)
       else (Inl ErrRuleNotFound, w))"

definition RuleService_Get :: "nat \<Rightarrow> routing_rule db" where
  "RuleService_Get i = rule_getRaw i"

definition RuleService_List :: "routing_rule list db" where
  "RuleService_List = db_read (\<lambda>w. sort_key rule_key (w_rules w))"

section \<open>Stored rules compile\<close>

definition rules_compile :: "world \<Rightarrow> bool" where
  "rules_compile w \<longleftrightarrow> list_all (\<lambda>r. compile_rule r \<noteq> None) (w_rules w)"

definition rules_ok :: "world \<Rightarrow> bool" where
  "rules_ok w \<longleftrightarrow> rules_compile w \<and> distinct (map rule_ID (w_rules w))
     \<and> list_all (\<lambda>r. rule_ID r < w_seq w seq_rules) (w_rules w)"

lemma rules_ok_data: "same_data w w' \<Longrightarrow> rules_ok w' = rules_ok w"
  by (simp add: rules_ok_def rules_compile_def same_dataD)

lemma rule_fields_sel [simp]:
  "rule_ID (rule_fields inp r) = rule_ID r"
  "rule_Name (rule_fields inp r) = (case rin_Name inp of None \<Rightarrow> rule_Name r | Some n \<Rightarrow> trim_space n)"
  "rule_Expr (rule_fields inp r) = (case rin_Expr inp of None \<Rightarrow> rule_Expr r | Some e \<Rightarrow> trim_space e)"
  "rule_Match (rule_fields inp r) = (case rin_Match inp of None \<Rightarrow> rule_Match r | Some sp \<Rightarrow> Some (marshal_spec sp))"
  "rule_TargetChannelIDs (rule_fields inp r) =
     (case rin_TargetChannelIDs inp of None \<Rightarrow> rule_TargetChannelIDs r | Some ids \<Rightarrow> Some (marshal_uints ids))"
  "rule_TargetGroup (rule_fields inp r) = (case rin_TargetGroup inp of None \<Rightarrow> rule_TargetGroup r | Some g \<Rightarrow> trim_space g)"
  "rule_TargetModel (rule_fields inp r) = (case rin_TargetModel inp of None \<Rightarrow> rule_TargetModel r | Some m \<Rightarrow> trim_space m)"
  "rule_Priority (rule_fields inp r) = (case rin_Priority inp of None \<Rightarrow> rule_Priority r | Some p \<Rightarrow> p)"
  "rule_Enabled (rule_fields inp r) = (case rin_Enabled inp of None \<Rightarrow> rule_Enabled r | Some b \<Rightarrow> b)"
  by (simp_all add: rule_fields_def set_field_def split: option.split)

lemma rule_applyInput_Inr:
  assumes "rule_applyInput xtext inp r = Inr r'"
  shows "r' = rule_fields inp r" "compile_rule r \<noteq> None \<Longrightarrow> compile_rule r' \<noteq> None"
  using assms by (auto simp: rule_applyInput_def compile_rule_def split: option.splits sum.splits)

lemma compile_rule_cong: "rule_Expr r' = rule_Expr r \<Longrightarrow> compile_rule r' = compile_rule r"
  by (simp add: compile_rule_def)

lemma json_defaults_sel [simp]:
  "rule_Expr (json_defaults r) = rule_Expr r" "rule_ID (json_defaults r) = rule_ID r"
  "rule_Enabled (json_defaults r) = rule_Enabled r" "rule_Name (json_defaults r) = rule_Name r"
  "rule_Priority (json_defaults r) = rule_Priority r" "rule_TargetGroup (json_defaults r) = rule_TargetGroup r"
  "rule_TargetModel (json_defaults r) = rule_TargetModel r"
  by (simp_all add: json_defaults_def)

lemma upd_rule_ok:
  assumes "rules_ok w" "\<And>r. rule_ID r = i \<Longrightarrow> r \<in> set (w_rules w) \<Longrightarrow> rule_ID (f r) = i \<and> compile_rule (f r) \<noteq> None"
  shows "rules_ok (upd_rule i f w)"
proof -
  have ids: "map rule_ID (w_rules (upd_rule i f w)) = map rule_ID (w_rules w)"
    using assms(2) by (simp add: upd_rule_def)
  have seq: "list_all (\<lambda>r. rule_ID r < n) rs \<longleftrightarrow> list_all (\<lambda>i. i < n) (map rule_ID rs)" for n rs
    by (simp add: list.pred_map comp_def)
  have "rules_compile (upd_rule i f w)"
    using assms by (auto simp: rules_ok_def rules_compile_def list_all_iff upd_rule_def simp del: not_None_eq)
  moreover have "w_seq (upd_rule i f w) = w_seq w" by (simp add: upd_rule_def)
  ultimately show ?thesis using assms(1) unfolding rules_ok_def seq ids by simp
qed

lemma create_rule_ok:
  assumes "rules_ok w" "compile_rule r \<noteq> None" "create_rule r w = (res, w')"
  shows "rules_ok w' \<and> (case res of Inl _ \<Rightarrow> w_rules w' = w_rules w
    | Inr s \<Rightarrow> s = r\<lparr>rule_ID := w_seq w seq_rules, rule_Enabled := True\<rparr> \<and> w_rules w' = w_rules w @ [s])"
proof (cases rule: io_cases [of ErrDB w])
  case (ok fs)
  have "compile_rule (r\<lparr>rule_ID := w_seq w seq_rules, rule_Enabled := True\<rparr>) = compile_rule r"
    by (rule compile_rule_cong) simp
  with ok assms show ?thesis
    by (fastforce simp: create_rule_def bindM_def Let_def rules_ok_def rules_compile_def list_all_iff less_Suc_eq
        split: if_splits)
next
  case (fail fs)
  with assms show ?thesis by (auto simp: create_rule_def bindM_def rules_ok_def rules_compile_def)
qed

lemma find_rule_in: "find_rule i w = Some r \<Longrightarrow> r \<in> set (w_rules w) \<and> rule_ID r = i"
  by (auto simp: find_rule_def find_Some_iff)

lemma rule_getRaw_cases:
  assumes "rule_getRaw i w = (res, w')"
  shows "same_data w w' \<and> (case res of Inl _ \<Rightarrow> True | Inr r \<Rightarrow> find_rule i w = Some r)"
  using assms by (cases rule: io_cases [of ErrDB w])
    (auto simp: rule_getRaw_def db_read_def bindM_def find_rule_def split: option.splits)

definition keeps_rules :: "world \<Rightarrow> world \<Rightarrow> bool" where
  "keeps_rules w w' \<longleftrightarrow> w_seq w seq_rules \<le> w_seq w' seq_rules \<and> (rules_ok w \<longrightarrow> rules_ok w')"

interpretation rul: kept keeps_rules
proof
  show "same_data w w' \<Longrightarrow> keeps_rules w w'" for w w'
    by (simp add: keeps_rules_def rules_ok_data same_dataD)
  show "keeps_rules w v \<Longrightarrow> keeps_rules w (w\<lparr>w_faults := w_faults v, w_seq := w_seq v\<rparr>)" for w v
    by (auto simp: keeps_rules_def rules_ok_def rules_compile_def list_all_iff)
qed (auto simp: keeps_rules_def)

lemma create_rule_keeps: "compile_rule r \<noteq> None \<Longrightarrow> keeps_rules w (snd (create_rule r w))"
proof -
  assume c: "compile_rule r \<noteq> None"
  obtain res w' where r: "create_rule r w = (res, w')" by fastforce
  have "w_seq w seq_rules \<le> w_seq w' seq_rules"
    using r by (cases rule: io_cases [of ErrDB w]) (auto simp: create_rule_def bindM_def Let_def split: if_splits)
  with create_rule_ok [OF _ c r] r show ?thesis by (auto simp: keeps_rules_def)
qed

lemma upd_rule_keeps:
  assumes "\<And>r. rule_ID r = i \<Longrightarrow> rule_ID (f r) = i" "\<And>r. compile_rule r \<noteq> None \<Longrightarrow> compile_rule (f r) \<noteq> None"
  shows "keeps_rules w (upd_rule i f w)"
proof -
  have "rules_ok (upd_rule i f w)" if "rules_ok w"
    by (rule upd_rule_ok [OF that]) (use assms that in \<open>auto simp: rules_ok_def rules_compile_def list_all_iff\<close>)
  then show ?thesis by (simp add: keeps_rules_def upd_rule_def)
qed

lemma new_rule_compiles: "compile_rule new_rule \<noteq> None"
  by (simp add: compile_rule_def new_rule_def Compile_def)

lemma RuleService_Create_keeps: "keeps_rules w (snd (RuleService_Create xtext inp w))"
proof -
  have "compile_rule (json_defaults r) \<noteq> None" if "rule_applyInput xtext inp new_rule = Inr r" for r
    using rule_applyInput_Inr(2) [OF that new_rule_compiles] compile_rule_cong [of "json_defaults r" r] by simp
  moreover have "keeps_rules v (upd_rule i (\<lambda>x. x\<lparr>rule_Enabled := False\<rparr>) v)" for v i
    by (rule upd_rule_keeps) (simp_all add: compile_rule_def)
  ultimately show ?thesis
    unfolding RuleService_Create_def by (intro rul.rules rul.stores create_rule_keeps)
qed

lemma RuleService_Update_keeps:
  assumes "rules_ok w"
  shows "rules_ok (snd (RuleService_Update xtext i inp w))"
proof -
  obtain x v where g: "rule_getRaw i w = (x, v)" by fastforce
  note v = rule_getRaw_cases [OF g]
  have ok: "rules_ok v" using assms v rules_ok_data by blast
  show ?thesis
  proof (cases x)
    case (Inl e)
    with g ok show ?thesis by (simp add: RuleService_Update_def bindM_def)
  next
    case (Inr r)
    with v have "r \<in> set (w_rules w)" by (auto dest: find_rule_in)
    with assms have cr: "compile_rule r \<noteq> None" by (auto simp: rules_ok_def rules_compile_def list_all_iff)
    have "keeps_rules u (snd (save_rule r' u))" if "rule_applyInput xtext inp r = Inr r'" for r' u
      unfolding save_rule_def
      by (intro rul.write_if upd_rule_keeps) (use rule_applyInput_Inr [OF that] cr in auto)
    then have "keeps_rules v (snd ((if (case rin_Name inp of None \<Rightarrow> False | Some n \<Rightarrow> trim_space n = [])
       then failM (ErrInvalidRule ''name cannot be empty'')
       else case rule_applyInput xtext inp r of
         Inl e \<Rightarrow> failM e
       | Inr r' \<Rightarrow> seqM (save_rule r') (retM r')) v))"
      by (intro rul.rules)
    with ok g Inr show ?thesis by (simp add: RuleService_Update_def bindM_def keeps_rules_def)
  qed
qed

lemma RuleService_Delete_keeps: "keeps_rules w (snd (RuleService_Delete i w))"
proof -
  have "keeps_rules v (v\<lparr>w_rules := filter P (w_rules v)\<rparr>)" for v P
    by (auto simp: keeps_rules_def rules_ok_def rules_compile_def list_all_iff distinct_map_filter)
  then show ?thesis
    unfolding RuleService_Delete_def by (intro rul.bind rul.call) (simp add: rul.data)
qed

text \<open>The operations of the service.\<close>

datatype rule_op =
    CreateRule rule_input
  | UpdateRule nat rule_input
  | DeleteRule nat

definition rule_step :: "(expr_error \<Rightarrow> string) \<Rightarrow> rule_op \<Rightarrow> world \<Rightarrow> world" where
  "rule_step xtext op w =
     (case op of
        CreateRule inp \<Rightarrow> snd (RuleService_Create xtext inp w)
      | UpdateRule i inp \<Rightarrow> snd (RuleService_Update xtext i inp w)
      | DeleteRule i \<Rightarrow> snd (RuleService_Delete i w))"

lemma rule_step_keeps: "rules_ok w \<Longrightarrow> rules_ok (rule_step xtext op w)"
  using RuleService_Create_keeps RuleService_Update_keeps RuleService_Delete_keeps
  by (cases op) (auto simp: rule_step_def keeps_rules_def)

text \<open>
  C25. Whatever sequence of rule operations is run, and whatever fails in between, every stored
  rule compiles, so the routing engine never skips a rule for its expression, and rule ids stay
  unique.
\<close>

theorem stored_rules_compile:
  assumes "rules_ok w"
  shows "rules_ok (fold (rule_step xtext) ops w)
    \<and> list_all (\<lambda>r. compile_rule r \<noteq> None) (w_rules (fold (rule_step xtext) ops w))"
proof -
  have "rules_ok (fold (rule_step xtext) ops w)"
    using assms by (induction ops arbitrary: w) (simp_all add: rule_step_keeps)
  then show ?thesis by (simp add: rules_ok_def rules_compile_def)
qed

text \<open>
  A created rule reads back: when \<open>Create\<close> succeeds, one row is added, under a fresh id and
  with the enabled flag asked for, and the engine decodes from it the match predicate, the target channel
  ids and the expression that were asked for.
\<close>

lemma created_rule_reads_back:
  assumes "RuleService_Create xtext inp w = (Inr r, w')"
    and "rin_Match inp = Some sp" and "in_int64 (spec_MinTokens sp)" and "in_int64 (spec_MaxTokens sp)"
    and "rin_TargetChannelIDs inp = Some ids" and "list_all (\<lambda>i. i < 2 ^ 64) ids"
    and "rin_Expr inp = Some e" and "rules_ok w"
  shows "rule_ID r = w_seq w seq_rules \<and> rule_Enabled r = (case rin_Enabled inp of None \<Rightarrow> True | Some b \<Rightarrow> b)
    \<and> unmarshal_spec (the (rule_Match r)) =
        sp\<lparr>spec_Groups := map utf8_coerce (spec_Groups sp), spec_Models := map utf8_coerce (spec_Models sp)\<rparr>
    \<and> decodeIDs (rule_TargetChannelIDs r) = ids
    \<and> rule_Expr r = trim_space e \<and> compile_rule r \<noteq> None
    \<and> w_rules w' = w_rules w @ [r]"
proof -
  from assms(1) obtain r0 where a: "rule_applyInput xtext inp new_rule = Inr r0"
    and run: "bindM (create_rule (json_defaults r0)) (\<lambda>stored.
            if \<not> rule_Enabled r0 \<and> rule_Enabled stored then
              seqM (db_write (upd_rule (rule_ID stored) (\<lambda>x. x\<lparr>rule_Enabled := False\<rparr>)))
                   (retM (stored\<lparr>rule_Enabled := False\<rparr>))
            else retM stored) w = (Inr r, w')"
    by (auto simp: RuleService_Create_def split: if_splits sum.splits)
  from run obtain s v where c: "create_rule (json_defaults r0) w = (Inr s, v)"
    and rest: "(if \<not> rule_Enabled r0 \<and> rule_Enabled s then
              seqM (db_write (upd_rule (rule_ID s) (\<lambda>x. x\<lparr>rule_Enabled := False\<rparr>)))
                   (retM (s\<lparr>rule_Enabled := False\<rparr>))
            else retM s) v = (Inr r, w')"
    by (rule bindM_InrE)
  note r0 = rule_applyInput_Inr [OF a]
  have cr: "compile_rule r0 \<noteq> None"
    by (rule r0(2) [OF new_rule_compiles])
  then have "compile_rule (json_defaults r0) \<noteq> None" using compile_rule_cong [of "json_defaults r0" r0] by simp
  from create_rule_ok [OF assms(8) this c] have s: "s = (json_defaults r0)\<lparr>rule_ID := w_seq w seq_rules, rule_Enabled := True\<rparr>"
    and rows: "w_rules v = w_rules w @ [s]" and ok: "rules_ok v" by simp_all
  have old: "rule_ID x \<noteq> rule_ID s" if "x \<in> set (w_rules w)" for x
    using that assms(8) s by (auto simp: rules_ok_def list_all_iff)
  have "r = s\<lparr>rule_Enabled := rule_Enabled r0\<rparr> \<and> w_rules w' = w_rules w @ [r]"
  proof (cases "rule_Enabled r0")
    case True
    have "s = s\<lparr>rule_Enabled := True\<rparr>" by (simp add: s)
    with True rest rows show ?thesis by simp
  next
    case False
    obtain u where u: "w_rules u = w_rules v" "w' = upd_rule (rule_ID s) (\<lambda>x. x\<lparr>rule_Enabled := False\<rparr>) u"
      "r = s\<lparr>rule_Enabled := False\<rparr>"
    proof (cases rule: io_cases [of ErrDB v])
      case (ok fs)
      with rest False s that [of "v\<lparr>w_faults := fs\<rparr>"] show thesis
        by (simp add: seqM_def bindM_def db_write_def)
    qed (use rest False s in \<open>simp add: seqM_def bindM_def db_write_def\<close>)
    have "map (\<lambda>x. if rule_ID x = rule_ID s then x\<lparr>rule_Enabled := False\<rparr> else x) (w_rules w) = w_rules w"
      using old by (intro map_idI) auto
    with u rows False show ?thesis by (simp add: upd_rule_def)
  qed
  moreover from this have "compile_rule r = compile_rule r0"
    by (intro compile_rule_cong) (simp add: s)
  ultimately show ?thesis
    using assms(2-7) cr s r0(1)
    by (auto simp: json_defaults_def unmarshal_marshal_spec decodeIDs_def unmarshal_marshal_uints list_all_iff new_rule_def
        split: option.splits)
qed

definition sample_rule_input :: rule_input where
  "sample_rule_input =
     \<lparr>rin_Name = Some ''vip'', rin_Enabled = Some False, rin_Priority = Some 2,
      rin_Match = Some \<lparr>spec_Groups = [''vip''], spec_Models = [''m*''], spec_MinTokens = 0, spec_MaxTokens = 100\<rparr>,
      rin_TargetChannelIDs = Some [3, 4], rin_TargetGroup = None, rin_Expr = Some ''w == 1'', rin_TargetModel = None\<rparr>"

definition rule_world :: world where
  "rule_world =
     \<lparr>w_users = [], w_tokens = [], w_channels = [], w_rules = [], w_prices = [], w_options = Map.empty, w_logs = [],
      w_seq = (\<lambda>_. 1), w_redis = None, w_dirtyTokens = [], w_dirtyUsers = [], w_faults = [], w_now = 0\<rparr>"

lemma rule_world_ok: "rules_ok rule_world"
  by (simp add: rules_ok_def rules_compile_def rule_world_def)

lemma stored_rules_compile_witness:
  "rules_ok (fold (rule_step (\<lambda>_. [])) [CreateRule sample_rule_input, DeleteRule 1] rule_world)"
  using stored_rules_compile [OF rule_world_ok] by blast

lemma created_rule_reads_back_witness:
  "\<exists>r w'. RuleService_Create (\<lambda>_. []) sample_rule_input rule_world = (Inr r, w')
     \<and> decodeIDs (rule_TargetChannelIDs r) = [3, 4] \<and> rule_Enabled r = False"
proof -
  have "case RuleService_Create (\<lambda>_. []) sample_rule_input rule_world of (res, _) \<Rightarrow> (case res of Inl _ \<Rightarrow> False | Inr _ \<Rightarrow> True)"
    by code_simp
  then obtain r w' where c: "RuleService_Create (\<lambda>_. []) sample_rule_input rule_world = (Inr r, w')"
    by (auto split: prod.splits sum.splits)
  from created_rule_reads_back [OF c, of _ _ "''w == 1''"] rule_world_ok c show ?thesis
    by (auto simp: sample_rule_input_def in_int64_def)
qed

end
