(* ===== verification/Base64.thy ===== *)
theory Base64
  imports Prelude
begin

text \<open>
  \<open>base64.StdEncoding\<close>: the encoder, and the decoder with its treatment of padding and line
  breaks.  Bytes are characters.
\<close>

definition b64_char :: "nat \<Rightarrow> char" where
  "b64_char n =
     (if n < 26 then char_of (65 + n)
      else if n < 52 then char_of (71 + n)
      else if n < 62 then char_of (n - 4)
      else if n = 62 then CHR ''+'' else CHR ''/'')"

definition b64_val :: "char \<Rightarrow> nat option" where
  "b64_val c =
     (let n = of_char c in
      if 65 \<le> n \<and> n \<le> 90 then Some (n - 65)
      else if 97 \<le> n \<and> n \<le> 122 then Some (n - 71)
      else if 48 \<le> n \<and> n \<le> 57 then Some (n + 4)
      else if c = CHR ''+'' then Some 62
      else if c = CHR ''/'' then Some 63
      else None)"

text \<open>The sextets of up to three bytes, and the bytes of up to four sextets.\<close>

definition sextets :: "char \<Rightarrow> char \<Rightarrow> char \<Rightarrow> nat list" where
  "sextets a b c =
     (let x = of_char a; y = of_char b; z = of_char c in
      [x div 4, x mod 4 * 16 + y div 16, y mod 16 * 4 + z div 64, z mod 64])"

definition octets :: "nat \<Rightarrow> nat \<Rightarrow> nat \<Rightarrow> nat \<Rightarrow> string" where
  "octets p q r s = [char_of (p * 4 + q div 16), char_of (q mod 16 * 16 + r div 4), char_of (r mod 4 * 64 + s)]"

fun b64_encode :: "string \<Rightarrow> string" where
  "b64_encode (a # b # c # r) = map b64_char (sextets a b c) @ b64_encode r"
| "b64_encode [a, b] = map b64_char (take 3 (sextets a b CHR 0x00)) @ ''=''"
| "b64_encode [a] = map b64_char (take 2 (sextets a CHR 0x00 CHR 0x00)) @ ''==''"
| "b64_encode [] = []"

fun quantums :: "string \<Rightarrow> string option" where
  "quantums [] = Some []"
| "quantums (a # b # c # d # r) =
     (case (b64_val a, b64_val b) of
        (Some p, Some q) \<Rightarrow>
          if c = CHR ''='' then
            (if d = CHR ''='' \<and> r = [] then Some (take 1 (octets p q 0 0)) else None)
          else
            (case b64_val c of
               None \<Rightarrow> None
             | Some s \<Rightarrow>
                 if d = CHR ''='' then (if r = [] then Some (take 2 (octets p q s 0)) else None)
                 else
                   (case b64_val d of
                      None \<Rightarrow> None
                    | Some t \<Rightarrow> map_option (\<lambda>bs. octets p q s t @ bs) (quantums r)))
      | _ \<Rightarrow> None)"
| "quantums _ = None"

definition b64_decode :: "string \<Rightarrow> string option" where
  "b64_decode s = quantums (filter (\<lambda>c. c \<noteq> CHR 0x0A \<and> c \<noteq> CHR 0x0D) s)"

section \<open>Round trip\<close>

lemma of_char_b64:
  "n < 64 \<Longrightarrow> (of_char (b64_char n) :: nat) =
     (if n < 26 then 65 + n else if n < 52 then 71 + n else if n < 62 then n - 4 else if n = 62 then 43 else 47)"
  by (simp add: b64_char_def of_char_of)

lemma b64_val_char [simp]: "n < 64 \<Longrightarrow> b64_val (b64_char n) = Some n"
  using of_char_b64 [of n] by (auto simp: b64_val_def Let_def b64_char_def split: if_splits)

lemma b64_char_plain:
  assumes "n < 64"
  shows "b64_char n \<noteq> CHR ''=''" "b64_char n \<noteq> CHR 0x0A" "b64_char n \<noteq> CHR 0x0D"
  using b64_val_char [OF assms] by (auto simp: b64_val_def)

lemma of_char_lt [simp]: "(of_char (c :: char) :: nat) < 256"
  by (metis char_of_mod_256 of_char_mod_256 mod_less_divisor zero_less_numeral)

lemma byte_parts:
  assumes "x < 256" "y < 256" "z < (256 :: nat)"
  shows "x div 4 < 64" "x mod 4 * 16 + y div 16 < 64" "y mod 16 * 4 + z div 64 < 64" "z mod 64 < 64"
    "x div 4 * 4 + (x mod 4 * 16 + y div 16) div 16 = x"
    "(x mod 4 * 16 + y div 16) mod 16 * 16 + (y mod 16 * 4 + z div 64) div 4 = y"
    "(y mod 16 * 4 + z div 64) mod 4 * 64 + z mod 64 = z"
proof -
  have d: "x div 4 < 64" "y div 16 < 16" "z div 64 < 4"
    using assms by (simp_all add: less_mult_imp_div_less)
  have m: "x mod 4 < 4" "y mod 16 < 16" "z mod 64 < 64" by simp_all
  show "x div 4 < 64" "x mod 4 * 16 + y div 16 < 64" "y mod 16 * 4 + z div 64 < 64" "z mod 64 < 64"
    using d m by linarith+
  have "(x mod 4 * 16 + y div 16) div 16 = x mod 4" "(x mod 4 * 16 + y div 16) mod 16 = y div 16"
    "(y mod 16 * 4 + z div 64) div 4 = y mod 16" "(y mod 16 * 4 + z div 64) mod 4 = z div 64"
    using d by simp_all
  then show "x div 4 * 4 + (x mod 4 * 16 + y div 16) div 16 = x"
    "(x mod 4 * 16 + y div 16) mod 16 * 16 + (y mod 16 * 4 + z div 64) div 4 = y"
    "(y mod 16 * 4 + z div 64) mod 4 * 64 + z mod 64 = z"
    by simp_all
qed

lemma sextets_split: obtains p q s t where "sextets a b c = [p, q, s, t]" "p < 64" "q < 64" "s < 64" "t < 64"
    "octets p q s t = [a, b, c]"
proof -
  note parts = byte_parts [of "of_char a" "of_char b" "of_char c", OF of_char_lt of_char_lt of_char_lt]
  show thesis
    by (rule that [unfolded sextets_def Let_def, OF refl parts(1-4)])
      (simp only: octets_def parts char_of_char)
qed

lemma last_quantums:
  "sextets a b CHR 0x00 = [p, q, s, t] \<Longrightarrow> t = 0"
  "sextets a CHR 0x00 CHR 0x00 = [p, q, s, t] \<Longrightarrow> s = 0 \<and> t = 0"
  by (auto simp: sextets_def Let_def)

lemma b64_encode_filter: "filter (\<lambda>c. c \<noteq> CHR 0x0A \<and> c \<noteq> CHR 0x0D) (b64_encode s) = b64_encode s"
proof (induction s rule: b64_encode.induct)
  case (1 a b c r)
  then show ?case by (cases rule: sextets_split [of a b c]) (simp add: b64_char_plain)
next
  case (2 a b)
  then show ?case by (cases rule: sextets_split [of a b "CHR 0x00"]) (simp add: b64_char_plain)
next
  case (3 a)
  then show ?case by (cases rule: sextets_split [of a "CHR 0x00" "CHR 0x00"]) (simp add: b64_char_plain)
qed simp

lemma quantums_encode: "quantums (b64_encode s) = Some s"
proof (induction s rule: b64_encode.induct)
  case (1 a b c r)
  show ?case
    by (cases rule: sextets_split [of a b c]) (simp add: 1 b64_char_plain)
next
  case (2 a b)
  show ?case
  proof (cases rule: sextets_split [of a b "CHR 0x00"])
    case (1 p q s t)
    with last_quantums(1) [of a b p q s t]
    show ?thesis by (simp add: b64_char_plain)
  qed
next
  case (3 a)
  show ?case
  proof (cases rule: sextets_split [of a "CHR 0x00" "CHR 0x00"])
    case (1 p q s t)
    with last_quantums(2) [of a p q s t]
    show ?thesis by (simp add: b64_char_plain)
  qed
qed simp

lemma b64_decode_encode [simp]: "b64_decode (b64_encode s) = Some s"
  by (simp add: b64_decode_def b64_encode_filter quantums_encode)

end
