(* ===== verification/Images.thy ===== *)
theory Images
  imports Unified Base64
begin

text \<open>
  Images: \<open>adapter/image.go\<close> and \<open>bedrockImageFromSource\<close> of \<open>adapter/transform.go\<close>.  What a
  download brings and \<open>fmt\<close>'s quoted strings are parameters.
\<close>

section \<open>Data URLs\<close>

definition parseDataURL :: "string \<Rightarrow> (string \<times> string) option" where
  "parseDataURL url =
     (if \<not> prefix ''data:'' url then None
      else
        let rest = drop (length ''data:'') url; meta = takeWhile (\<lambda>c. c \<noteq> CHR '','') rest in
        if length meta = length rest then None
        else if \<not> str_contains meta ''base64'' then None
        else Some (trim_space (takeWhile (\<lambda>c. c \<noteq> CHR '';'') meta), drop (Suc (length meta)) rest))"

definition buildDataURL :: "string \<Rightarrow> string \<Rightarrow> string" where
  "buildDataURL mediaType d =
     ''data:'' @ (if trim_space mediaType = [] then ''image/png'' else mediaType) @ '';base64,'' @ d"

section \<open>Formats\<close>

text \<open>What follows the first \<open>/\<close>, if there is one.\<close>

definition after_slash :: "string \<Rightarrow> string" where
  "after_slash s = (if CHR ''/'' \<in> set s then drop 1 (dropWhile (\<lambda>c. c \<noteq> CHR ''/'') s) else s)"

definition bedrockImageFormat :: "string \<Rightarrow> string" where
  "bedrockImageFormat mediaType =
     (let mt = after_slash (lower_view (trim_space mediaType)) in
      if mt = ''png'' then ''png''
      else if mt = ''jpeg'' \<or> mt = ''jpg'' then ''jpeg''
      else if mt = ''gif'' then ''gif''
      else if mt = ''webp'' then ''webp''
      else [])"

definition sniffImageFormat :: "string \<Rightarrow> string" where
  "sniffImageFormat raw =
     (if length raw < 12 then []
      else if prefix [CHR 0x89, CHR 0x50, CHR 0x4E, CHR 0x47] raw then ''png''
      else if prefix [CHR 0xFF, CHR 0xD8, CHR 0xFF] raw then ''jpeg''
      else if prefix ''GIF8'' raw then ''gif''
      else if prefix ''RIFF'' raw \<and> prefix ''WEBP'' (drop 8 raw) then ''webp''
      else [])"

definition imageFormatLabel :: "string \<Rightarrow> string" where
  "imageFormatLabel mediaType = (let mt = trim_space mediaType in if mt = [] then ''unknown'' else mt)"

definition mediaTypeFromURL :: "string \<Rightarrow> string" where
  "mediaTypeFromURL url =
     (let u = takeWhile (\<lambda>c. c \<noteq> CHR ''?'' \<and> c \<noteq> CHR ''#'') url in
      if CHR ''.'' \<notin> set u then ''image/png''
      else
        let ext = lower_view (rev (takeWhile (\<lambda>c. c \<noteq> CHR ''.'') (rev u))) in
        if ext = ''png'' then ''image/png''
        else if ext = ''jpg'' \<or> ext = ''jpeg'' then ''image/jpeg''
        else if ext = ''gif'' then ''image/gif''
        else if ext = ''webp'' then ''image/webp''
        else ''image/png'')"

definition snippetURL :: "string \<Rightarrow> string" where
  "snippetURL url = (if length url > 120 then take 120 url @ [CHR 0xE2, CHR 0x80, CHR 0xA6] else url)"

section \<open>Downloads\<close>

text \<open>
  What a GET of a URL brings: the URL is refused, the request fails, or a response with its
  status, its content type, its body and the error that ends the body early, if one does.
\<close>

datatype fetched =
    BadURL string
  | NoResponse string
  | Fetched int string string "string option"

definition MaxImageDownloadBytes :: nat where "MaxImageDownloadBytes = 5242880"

definition downloaded_type :: "string \<Rightarrow> string \<Rightarrow> string" where
  "downloaded_type url ctype =
     (let mt = trim_space (takeWhile (\<lambda>c. c \<noteq> CHR '';'') ctype) in
      if mt = [] \<or> \<not> prefix ''image/'' mt then mediaTypeFromURL url else mt)"

definition DownloadImageToBase64 ::
    "(string \<Rightarrow> string) \<Rightarrow> (string \<Rightarrow> fetched) \<Rightarrow> string \<Rightarrow> string + string \<times> string" where
  "DownloadImageToBase64 quot get url =
     (case parseDataURL url of
        Some r \<Rightarrow> Inr r
      | None \<Rightarrow>
          if \<not> prefix ''http://'' url \<and> \<not> prefix ''https://'' url then
            Inl (''image download: unsupported URL scheme: '' @ quot (snippetURL url))
          else
            (case get url of
               BadURL e \<Rightarrow> Inl (''image download: build request: '' @ e)
             | NoResponse e \<Rightarrow> Inl (''image download: fetch '' @ quot (snippetURL url) @ '': '' @ e)
             | Fetched code ctype body rerr \<Rightarrow>
                 if code < 200 \<or> code \<ge> 300 then
                   Inl (''image download: '' @ quot (snippetURL url) @ '' returned status '' @ dec_int code)
                 else if length body \<le> MaxImageDownloadBytes \<and> rerr \<noteq> None then
                   Inl (''image download: read body of '' @ quot (snippetURL url) @ '': '' @ the rerr)
                 else if length body > MaxImageDownloadBytes then
                   Inl (''image download: '' @ quot (snippetURL url) @ '' exceeds '' @ dec MaxImageDownloadBytes
                     @ ''-byte cap'')
                 else Inr (downloaded_type url ctype, b64_encode body)))"

text \<open>
  \<open>bedrockImageFromSource\<close>: the format and the base64 text.  \<open>badb64\<close> is the text of a decoding
  error.
\<close>

definition bedrockImageFromSource ::
    "(string \<Rightarrow> string) \<Rightarrow> (string \<Rightarrow> string) \<Rightarrow> (string \<Rightarrow> fetched) \<Rightarrow> image_source \<Rightarrow> string + string \<times> string" where
  "bedrockImageFromSource quot badb64 get src =
     (case (if img_Kind src = ''base64'' then Inr (img_MediaType src, img_Data src)
            else if img_Kind src = ''url'' then
              (case DownloadImageToBase64 quot get (img_URL src) of
                 Inl e \<Rightarrow> Inl (''bedrock image: '' @ e) | Inr r \<Rightarrow> Inr r)
            else Inl (''bedrock image: unknown image source kind '' @ quot (img_Kind src))) of
        Inl e \<Rightarrow> Inl e
      | Inr (mediaType, b64) \<Rightarrow>
          (case b64_decode (trim_space b64) of
             None \<Rightarrow> Inl (''bedrock image: decode base64 (declared '' @ imageFormatLabel mediaType @ ''): ''
                 @ badb64 (trim_space b64))
           | Some raw \<Rightarrow>
               let format = (if sniffImageFormat raw = [] then bedrockImageFormat mediaType else sniffImageFormat raw) in
               if format = [] then
                 Inl (''bedrock image: unsupported image format (declared '' @ imageFormatLabel mediaType
                   @ ''); Bedrock Converse accepts only PNG, JPEG, GIF, or WebP ''
                   @ [CHR 0xE2, CHR 0x80, CHR 0x94] @ '' convert the image and retry'')
               else Inr (format, b64)))"

section \<open>What is sent as an image\<close>

definition image_formats :: "string list" where
  "image_formats = [''png'', ''jpeg'', ''gif'', ''webp'']"

lemma bedrockImageFormat_range: "bedrockImageFormat mt \<in> set (''''  # image_formats)"
  by (simp add: bedrockImageFormat_def Let_def image_formats_def)

lemma sniffImageFormat_range: "sniffImageFormat raw \<in> set ('''' # image_formats)"
  by (simp add: sniffImageFormat_def image_formats_def)

text \<open>
  An image that is sent decodes, is labelled with one of the four formats Bedrock accepts, and
  carries the label of its magic bytes if they are known.
\<close>

lemma bedrockImageFromSource_ok:
  assumes "bedrockImageFromSource quot badb64 get src = Inr (format, b64)"
  shows "format \<in> set image_formats"
    "\<exists>raw. b64_decode (trim_space b64) = Some raw \<and> (sniffImageFormat raw \<noteq> [] \<longrightarrow> format = sniffImageFormat raw)"
proof -
  obtain mt raw where raw: "b64_decode (trim_space b64) = Some raw"
    and f: "format = (if sniffImageFormat raw = [] then bedrockImageFormat mt else sniffImageFormat raw)" "format \<noteq> []"
    using assms by (auto simp: bedrockImageFromSource_def Let_def split: sum.splits option.splits if_splits)
  show "format \<in> set image_formats"
    using f bedrockImageFormat_range [of mt] sniffImageFormat_range [of raw] by (auto split: if_splits)
  show "\<exists>raw. b64_decode (trim_space b64) = Some raw \<and> (sniffImageFormat raw \<noteq> [] \<longrightarrow> format = sniffImageFormat raw)"
    using raw f by auto
qed

lemma takeWhile_ne_append: "c \<notin> set xs \<Longrightarrow> takeWhile (\<lambda>x. x \<noteq> c) (xs @ c # ys) = xs"
  by (induction xs) auto

text \<open>A data URL that was built is read back.\<close>

lemma parse_build_data_url:
  assumes "CHR '';'' \<notin> set mt" "CHR '','' \<notin> set mt" "trim_space mt = mt" "mt \<noteq> []"
  shows "parseDataURL (buildDataURL mt d) = Some (mt, d)"
proof -
  let ?meta = "mt @ '';base64''"
  have "takeWhile (\<lambda>c. c \<noteq> CHR '','') (?meta @ CHR '','' # d) = ?meta"
    using assms(2) by (intro takeWhile_ne_append) simp
  moreover have "takeWhile (\<lambda>c. c \<noteq> CHR '';'') (mt @ CHR '';'' # ''base64'') = mt"
    using assms(1) by (rule takeWhile_ne_append)
  moreover have "str_contains ?meta ''base64''"
    unfolding str_contains_def using str_index_None [of ?meta "''base64''" "Suc (length mt)"] by fastforce
  ultimately show ?thesis
    using assms(3,4) by (simp add: parseDataURL_def buildDataURL_def Let_def)
qed

end
