(* ===== verification/Requests.thy ===== *)
theory Requests
  imports Responses Images
begin

text \<open>
  Inbound requests of the two dialects (\<open>adapter/transform.go\<close>), and the upstream requests the
  three adapters build from the unified one.  Parameters: the nearest \<open>float64\<close> of a number
  literal, by the text it is written back with (none if it is out of range), \<open>fmt\<close>'s quoted
  strings, texts of library errors, downloads, the refusal of a URL by \<open>net/http\<close>.
\<close>

record codec =
  co_float :: "string \<Rightarrow> string option"
  co_quote :: "string \<Rightarrow> string"
  co_badb64 :: "string \<Rightarrow> string"
  co_marshalErr :: "json \<Rightarrow> string"
  co_get :: "string \<Rightarrow> fetched"
  co_badURL :: "string \<Rightarrow> string option"

definition RoleSystem :: string where "RoleSystem = ''system''"
definition RoleUserMsg :: string where "RoleUserMsg = ''user''"

fun dec_float :: "(string \<Rightarrow> string option) \<Rightarrow> string decoder" where
  "dec_float fl (DAtom (JInt i) raw) old = (case fl raw of Some t \<Rightarrow> (t, True) | None \<Rightarrow> (old, False))"
| "dec_float fl (DAtom (JDec s) raw) old = (case fl raw of Some t \<Rightarrow> (t, True) | None \<Rightarrow> (old, False))"
| "dec_float fl (DAtom JNull raw) old = (old, True)"
| "dec_float fl _ old = (old, False)"

section \<open>OpenAI Chat Completions\<close>

record openai_inbound_message =
  oim_Role :: string
  oim_Content :: string
  oim_ToolCalls :: "openai_tool_call list"
  oim_ToolCallID :: string

record openai_inbound =
  oi_Model :: string
  oi_Messages :: "openai_inbound_message list"
  oi_Stream :: bool
  oi_MaxTokens :: "int option"
  oi_Temperature :: "string option"
  oi_TopP :: "string option"
  oi_Stop :: "string list"
  oi_Tools :: string
  oi_ToolChoice :: string

definition zero_openai_inbound_message :: openai_inbound_message where
  "zero_openai_inbound_message = \<lparr>oim_Role = [], oim_Content = [], oim_ToolCalls = [], oim_ToolCallID = []\<rparr>"

definition dec_openai_inbound_message :: "openai_inbound_message decoder" where
  "dec_openai_inbound_message = dec_record
     [(''role'', into oim_Role (\<lambda>v r. r\<lparr>oim_Role := v\<rparr>) dec_str),
      (''content'', into oim_Content (\<lambda>v r. r\<lparr>oim_Content := v\<rparr>) dec_raw),
      (''tool_calls'', into oim_ToolCalls (\<lambda>v r. r\<lparr>oim_ToolCalls := v\<rparr>)
         (dec_list zero_openai_tool_call dec_openai_tool_call)),
      (''tool_call_id'', into oim_ToolCallID (\<lambda>v r. r\<lparr>oim_ToolCallID := v\<rparr>) dec_str)]"

definition zero_openai_inbound :: openai_inbound where
  "zero_openai_inbound = \<lparr>oi_Model = [], oi_Messages = [], oi_Stream = False, oi_MaxTokens = None,
     oi_Temperature = None, oi_TopP = None, oi_Stop = [], oi_Tools = [], oi_ToolChoice = []\<rparr>"

definition dec_openai_inbound :: "codec \<Rightarrow> openai_inbound decoder" where
  "dec_openai_inbound co = dec_record
     [(''model'', into oi_Model (\<lambda>v r. r\<lparr>oi_Model := v\<rparr>) dec_str),
      (''messages'', into oi_Messages (\<lambda>v r. r\<lparr>oi_Messages := v\<rparr>)
         (dec_list zero_openai_inbound_message dec_openai_inbound_message)),
      (''stream'', into oi_Stream (\<lambda>v r. r\<lparr>oi_Stream := v\<rparr>) dec_bool),
      (''max_tokens'', into oi_MaxTokens (\<lambda>v r. r\<lparr>oi_MaxTokens := v\<rparr>) (dec_ptr 0 dec_gint)),
      (''temperature'', into oi_Temperature (\<lambda>v r. r\<lparr>oi_Temperature := v\<rparr>) (dec_ptr ''0'' (dec_float (co_float co)))),
      (''top_p'', into oi_TopP (\<lambda>v r. r\<lparr>oi_TopP := v\<rparr>) (dec_ptr ''0'' (dec_float (co_float co)))),
      (''stop'', into oi_Stop (\<lambda>v r. r\<lparr>oi_Stop := v\<rparr>) (dec_list [] dec_str)),
      (''tools'', into oi_Tools (\<lambda>v r. r\<lparr>oi_Tools := v\<rparr>) dec_raw),
      (''tool_choice'', into oi_ToolChoice (\<lambda>v r. r\<lparr>oi_ToolChoice := v\<rparr>) dec_raw)]"

record openai_part =
  opt_Type :: string
  opt_Text :: string
  opt_ImageURL :: "string option"

definition dec_openai_part :: "openai_part decoder" where
  "dec_openai_part = dec_record
     [(''type'', into opt_Type (\<lambda>v r. r\<lparr>opt_Type := v\<rparr>) dec_str),
      (''text'', into opt_Text (\<lambda>v r. r\<lparr>opt_Text := v\<rparr>) dec_str),
      (''image_url'', into opt_ImageURL (\<lambda>v r. r\<lparr>opt_ImageURL := v\<rparr>) (dec_ptr [] (dec_record [(''url'', dec_str)])))]"

definition imageBlockFromURL :: "string \<Rightarrow> content_block" where
  "imageBlockFromURL url =
     (case parseDataURL url of Some (mt, d) \<Rightarrow> ImageBase64Block mt d | None \<Rightarrow> ImageURLBlock url)"

definition openai_part_block :: "openai_part \<Rightarrow> content_block option" where
  "openai_part_block p =
     (if opt_Type p = ''image_url'' then
        (case opt_ImageURL p of
           None \<Rightarrow> None
         | Some url \<Rightarrow> if url = [] then None else Some (imageBlockFromURL url))
      else if opt_Text p \<noteq> [] then Some (TextBlock (opt_Text p))
      else None)"

definition openAIContentToBlocks :: "string \<Rightarrow> content_block list" where
  "openAIContentToBlocks raw =
     (if raw = [] then []
      else
        (case unmarshal dec_str [] raw of
           Some s \<Rightarrow> [TextBlock s]
         | None \<Rightarrow>
             (case unmarshal (dec_list \<lparr>opt_Type = [], opt_Text = [], opt_ImageURL = None\<rparr> dec_openai_part) [] raw of
                None \<Rightarrow> []
              | Some parts \<Rightarrow> List.map_filter openai_part_block parts)))"

definition openAIContentToText :: "string \<Rightarrow> string" where
  "openAIContentToText raw =
     str_join [CHR 0x0A]
       (map cb_Text (filter (\<lambda>c. cb_Type c = ''text'' \<and> cb_Text c \<noteq> []) (openAIContentToBlocks raw)))"

definition openAIToolResultContent :: "string \<Rightarrow> string" where
  "openAIToolResultContent raw = (if raw = [] then [CHR 0x22, CHR 0x22] else raw)"

subsection \<open>Tools\<close>

text \<open>A tool definition, of OpenAI or of Anthropic.\<close>

record tool_def =
  td_Name :: string
  td_Description :: string
  td_Schema :: string

definition zero_tool_def :: tool_def where
  "zero_tool_def = \<lparr>td_Name = [], td_Description = [], td_Schema = []\<rparr>"

definition dec_tool_def :: "string \<Rightarrow> tool_def decoder" where
  "dec_tool_def schema_key = dec_record
     [(''name'', into td_Name (\<lambda>v r. r\<lparr>td_Name := v\<rparr>) dec_str),
      (''description'', into td_Description (\<lambda>v r. r\<lparr>td_Description := v\<rparr>) dec_str),
      (schema_key, into td_Schema (\<lambda>v r. r\<lparr>td_Schema := v\<rparr>) dec_raw)]"

definition object_schema :: json where
  "object_schema = JObj [(''type'', JStr ''object'')]"

definition openAIToolsToCanonical :: "string \<Rightarrow> string" where
  "openAIToolsToCanonical raw =
     (if trim_space raw = [] then []
      else
        (case unmarshal (dec_list zero_tool_def (dec_record [(''function'', dec_tool_def ''parameters'')])) [] raw of
           None \<Rightarrow> []
         | Some tools \<Rightarrow>
             marshal (JArr (map (\<lambda>t. JObj
               [(''description'', JStr (td_Description t)),
                (''input_schema'', JRaw (if trim_space (td_Schema t) = [] then marshal object_schema else td_Schema t)),
                (''name'', JStr (td_Name t))]) tools))))"

definition openAIToolChoiceToCanonical :: "string \<Rightarrow> string" where
  "openAIToolChoiceToCanonical raw =
     (if trim_space raw = [] then []
      else
        (case unmarshal dec_str [] raw of
           Some s \<Rightarrow>
             if s = ''auto'' then marshal (JObj [(''type'', JStr ''auto'')])
             else if s = ''none'' then marshal (JObj [(''type'', JStr ''none'')])
             else if s = ''required'' then marshal (JObj [(''type'', JStr ''any'')])
             else []
         | None \<Rightarrow>
             (case unmarshal (dec_record [(''function'', dec_record [(''name'', dec_str)])]) [] raw of
                None \<Rightarrow> []
              | Some name \<Rightarrow>
                  if name = [] then [] else marshal (JObj [(''name'', JStr name), (''type'', JStr ''tool'')]))))"

subsection \<open>The request\<close>

definition openai_message_of :: "openai_inbound_message \<Rightarrow> message" where
  "openai_message_of m =
     (if oim_Role m = ''tool'' then
        \<lparr>msg_Role = RoleUserMsg,
         msg_Content = [ToolResultBlockOf (oim_ToolCallID m) (openAIToolResultContent (oim_Content m)) False]\<rparr>
      else
        let blocks = openAIContentToBlocks (oim_Content m)
              @ map (\<lambda>tc. ToolUseBlockOf (otc_ID tc) (otc_Name tc) (openAIArgsToInput (otc_Arguments tc)))
                  (oim_ToolCalls m)
        in \<lparr>msg_Role = oim_Role m, msg_Content = (if blocks = [] then [TextBlock []] else blocks)\<rparr>)"

definition ParseOpenAIRequest :: "openai_inbound \<Rightarrow> unified_request" where
  "ParseOpenAIRequest inb =
     \<lparr>ur_Model = oi_Model inb,
      ur_System = str_join [CHR 0x0A]
        (filter (\<lambda>t. t \<noteq> [])
          (map (\<lambda>m. openAIContentToText (oim_Content m)) (filter (\<lambda>m. oim_Role m = RoleSystem) (oi_Messages inb)))),
      ur_Messages = map openai_message_of (filter (\<lambda>m. oim_Role m \<noteq> RoleSystem) (oi_Messages inb)),
      ur_SystemCacheControl = None, ur_Stream = oi_Stream inb, ur_MaxTokens = oi_MaxTokens inb,
      ur_Temperature = oi_Temperature inb, ur_TopP = oi_TopP inb, ur_StopSequences = oi_Stop inb,
      ur_Tools = openAIToolsToCanonical (oi_Tools inb),
      ur_ToolChoice = openAIToolChoiceToCanonical (oi_ToolChoice inb)\<rparr>"

section \<open>Anthropic Messages\<close>

record anthropic_inbound_message =
  aim_Role :: string
  aim_Content :: string

record anthropic_inbound =
  ai_Model :: string
  ai_System :: string
  ai_Messages :: "anthropic_inbound_message list"
  ai_Stream :: bool
  ai_MaxTokens :: "int option"
  ai_Temperature :: "string option"
  ai_TopP :: "string option"
  ai_StopSequences :: "string list"
  ai_Tools :: string
  ai_ToolChoice :: string

definition zero_anthropic_inbound :: anthropic_inbound where
  "zero_anthropic_inbound = \<lparr>ai_Model = [], ai_System = [], ai_Messages = [], ai_Stream = False,
     ai_MaxTokens = None, ai_Temperature = None, ai_TopP = None, ai_StopSequences = [], ai_Tools = [],
     ai_ToolChoice = []\<rparr>"

definition dec_anthropic_inbound :: "codec \<Rightarrow> anthropic_inbound decoder" where
  "dec_anthropic_inbound co = dec_record
     [(''model'', into ai_Model (\<lambda>v r. r\<lparr>ai_Model := v\<rparr>) dec_str),
      (''system'', into ai_System (\<lambda>v r. r\<lparr>ai_System := v\<rparr>) dec_raw),
      (''messages'', into ai_Messages (\<lambda>v r. r\<lparr>ai_Messages := v\<rparr>)
         (dec_list \<lparr>aim_Role = [], aim_Content = []\<rparr> (dec_record
           [(''role'', into aim_Role (\<lambda>v r. r\<lparr>aim_Role := v\<rparr>) dec_str),
            (''content'', into aim_Content (\<lambda>v r. r\<lparr>aim_Content := v\<rparr>) dec_raw)]))),
      (''stream'', into ai_Stream (\<lambda>v r. r\<lparr>ai_Stream := v\<rparr>) dec_bool),
      (''max_tokens'', into ai_MaxTokens (\<lambda>v r. r\<lparr>ai_MaxTokens := v\<rparr>) (dec_ptr 0 dec_gint)),
      (''temperature'', into ai_Temperature (\<lambda>v r. r\<lparr>ai_Temperature := v\<rparr>) (dec_ptr ''0'' (dec_float (co_float co)))),
      (''top_p'', into ai_TopP (\<lambda>v r. r\<lparr>ai_TopP := v\<rparr>) (dec_ptr ''0'' (dec_float (co_float co)))),
      (''stop_sequences'', into ai_StopSequences (\<lambda>v r. r\<lparr>ai_StopSequences := v\<rparr>) (dec_list [] dec_str)),
      (''tools'', into ai_Tools (\<lambda>v r. r\<lparr>ai_Tools := v\<rparr>) dec_raw),
      (''tool_choice'', into ai_ToolChoice (\<lambda>v r. r\<lparr>ai_ToolChoice := v\<rparr>) dec_raw)]"

record anthropic_source =
  src_Type :: string
  src_MediaType :: string
  src_Data :: string
  src_URL :: string

record anthropic_inbound_block =
  aib_Type :: string
  aib_Text :: string
  aib_Source :: "anthropic_source option"
  aib_ID :: string
  aib_Name :: string
  aib_Input :: string
  aib_ToolUseID :: string
  aib_Content :: string
  aib_IsError :: bool
  aib_CacheControl :: "string option"

definition zero_source :: anthropic_source where
  "zero_source = \<lparr>src_Type = [], src_MediaType = [], src_Data = [], src_URL = []\<rparr>"

definition dec_source :: "anthropic_source decoder" where
  "dec_source = dec_record
     [(''type'', into src_Type (\<lambda>v r. r\<lparr>src_Type := v\<rparr>) dec_str),
      (''media_type'', into src_MediaType (\<lambda>v r. r\<lparr>src_MediaType := v\<rparr>) dec_str),
      (''data'', into src_Data (\<lambda>v r. r\<lparr>src_Data := v\<rparr>) dec_str),
      (''url'', into src_URL (\<lambda>v r. r\<lparr>src_URL := v\<rparr>) dec_str)]"

definition dec_cache_control :: "string option decoder" where
  "dec_cache_control = dec_ptr [] (dec_record [(''type'', dec_str)])"

definition zero_anthropic_inbound_block :: anthropic_inbound_block where
  "zero_anthropic_inbound_block = \<lparr>aib_Type = [], aib_Text = [], aib_Source = None, aib_ID = [], aib_Name = [],
     aib_Input = [], aib_ToolUseID = [], aib_Content = [], aib_IsError = False, aib_CacheControl = None\<rparr>"

definition dec_anthropic_inbound_block :: "anthropic_inbound_block decoder" where
  "dec_anthropic_inbound_block = dec_record
     [(''type'', into aib_Type (\<lambda>v r. r\<lparr>aib_Type := v\<rparr>) dec_str),
      (''text'', into aib_Text (\<lambda>v r. r\<lparr>aib_Text := v\<rparr>) dec_str),
      (''source'', into aib_Source (\<lambda>v r. r\<lparr>aib_Source := v\<rparr>) (dec_ptr zero_source dec_source)),
      (''id'', into aib_ID (\<lambda>v r. r\<lparr>aib_ID := v\<rparr>) dec_str),
      (''name'', into aib_Name (\<lambda>v r. r\<lparr>aib_Name := v\<rparr>) dec_str),
      (''input'', into aib_Input (\<lambda>v r. r\<lparr>aib_Input := v\<rparr>) dec_raw),
      (''tool_use_id'', into aib_ToolUseID (\<lambda>v r. r\<lparr>aib_ToolUseID := v\<rparr>) dec_str),
      (''content'', into aib_Content (\<lambda>v r. r\<lparr>aib_Content := v\<rparr>) dec_raw),
      (''is_error'', into aib_IsError (\<lambda>v r. r\<lparr>aib_IsError := v\<rparr>) dec_bool),
      (''cache_control'', into aib_CacheControl (\<lambda>v r. r\<lparr>aib_CacheControl := v\<rparr>) dec_cache_control)]"

definition dec_anthropic_blocks :: "anthropic_inbound_block list decoder" where
  "dec_anthropic_blocks = dec_list zero_anthropic_inbound_block dec_anthropic_inbound_block"

definition anthropic_block_source :: "anthropic_source \<Rightarrow> content_block option" where
  "anthropic_block_source src =
     (if src_Type src = ''url'' then
        (if src_URL src \<noteq> [] then Some (ImageURLBlock (src_URL src)) else None)
      else if src_Data src \<noteq> [] then Some (ImageBase64Block (src_MediaType src) (src_Data src)) else None)"

definition anthropic_inbound_content :: "anthropic_inbound_block \<Rightarrow> content_block option" where
  "anthropic_inbound_content b =
     (if aib_Type b = ''image'' then
        (case aib_Source b of None \<Rightarrow> None | Some src \<Rightarrow> anthropic_block_source src)
      else if aib_Type b = ''tool_use'' then Some (ToolUseBlockOf (aib_ID b) (aib_Name b) (aib_Input b))
      else if aib_Type b = ''tool_result'' then
        Some (ToolResultBlockOf (aib_ToolUseID b) (aib_Content b) (aib_IsError b))
      else if aib_Text b \<noteq> [] then Some (TextBlock (aib_Text b))
      else None)"

text \<open>A cache breakpoint goes with the block it follows, and is lost with a block that is skipped.\<close>

definition anthropic_inbound_cached :: "anthropic_inbound_block \<Rightarrow> content_block option" where
  "anthropic_inbound_cached b =
     map_option (\<lambda>c. if aib_CacheControl b \<noteq> None then c\<lparr>cb_CacheControl := aib_CacheControl b\<rparr> else c)
       (anthropic_inbound_content b)"

definition anthropicContentToBlocks :: "string \<Rightarrow> content_block list" where
  "anthropicContentToBlocks raw =
     (if raw = [] then []
      else
        (case unmarshal dec_str [] raw of
           Some s \<Rightarrow> [TextBlock s]
         | None \<Rightarrow>
             (case unmarshal dec_anthropic_blocks [] raw of
                None \<Rightarrow> []
              | Some blocks \<Rightarrow> List.map_filter anthropic_inbound_cached blocks)))"

definition anthropicSystemToText :: "string \<Rightarrow> string" where
  "anthropicSystemToText raw =
     (if raw = [] then []
      else
        (case unmarshal dec_str [] raw of
           Some s \<Rightarrow> s
         | None \<Rightarrow>
             (case unmarshal (dec_list [] (dec_record [(''text'', dec_str)])) [] raw of
                None \<Rightarrow> []
              | Some texts \<Rightarrow> str_join [CHR 0x0A] (filter (\<lambda>t. t \<noteq> []) texts))))"

definition anthropicSystemHasCacheControl :: "string \<Rightarrow> bool" where
  "anthropicSystemHasCacheControl raw =
     (if raw = [] then False
      else if unmarshal dec_str [] raw \<noteq> None then False
      else
        (case unmarshal (dec_list None (dec_record [(''cache_control'', dec_cache_control)])) [] raw of
           None \<Rightarrow> False
         | Some marks \<Rightarrow> list_ex (\<lambda>c. c \<noteq> None) marks))"

definition ParseAnthropicRequest :: "anthropic_inbound \<Rightarrow> unified_request" where
  "ParseAnthropicRequest inb =
     (let sys = filter (\<lambda>m. aim_Role m = RoleSystem) (ai_Messages inb);
          systems = filter (\<lambda>t. t \<noteq> [])
            (trim_space (anthropicSystemToText (ai_System inb))
              # map (\<lambda>m. trim_space (anthropicSystemToText (aim_Content m))) sys);
          cached = anthropicSystemHasCacheControl (ai_System inb)
            \<or> list_ex (\<lambda>m. anthropicSystemHasCacheControl (aim_Content m)) sys
      in \<lparr>ur_Model = ai_Model inb, ur_System = str_join [CHR 0x0A] systems,
          ur_Messages = map (\<lambda>m. \<lparr>msg_Role = aim_Role m, msg_Content = anthropicContentToBlocks (aim_Content m)\<rparr>)
            (filter (\<lambda>m. aim_Role m \<noteq> RoleSystem) (ai_Messages inb)),
          ur_SystemCacheControl = (if cached then Some ''ephemeral'' else None),
          ur_Stream = ai_Stream inb, ur_MaxTokens = ai_MaxTokens inb, ur_Temperature = ai_Temperature inb,
          ur_TopP = ai_TopP inb, ur_StopSequences = ai_StopSequences inb, ur_Tools = ai_Tools inb,
          ur_ToolChoice = ai_ToolChoice inb\<rparr>)"

end
