(* ===== verification/Upstream.thy ===== *)
theory Upstream
  imports Requests Records
begin

text \<open>
  The upstream requests the three adapters build (\<open>BuildRequest\<close> of \<open>adapter/openai_adapter.go\<close>,
  \<open>anthropic_adapter.go\<close> and \<open>bedrock_adapter.go\<close>, with \<open>unifiedToBedrock\<close> of
  \<open>adapter/transform.go\<close>).  Decryption of the channel's key is a parameter.
\<close>

record upstream_request =
  uq_URL :: string
  uq_Headers :: "(string \<times> string) list"
  uq_Body :: json

text \<open>Members that \<open>omitempty\<close> leaves out when they are empty.\<close>

definition omit_str :: "string \<Rightarrow> string \<Rightarrow> (string \<times> json) list" where
  "omit_str k s = (if s = [] then [] else [(k, JStr s)])"

definition omit_raw :: "string \<Rightarrow> string \<Rightarrow> (string \<times> json) list" where
  "omit_raw k s = (if s = [] then [] else [(k, JRaw s)])"

definition omit_opt :: "string \<Rightarrow> ('a \<Rightarrow> json) \<Rightarrow> 'a option \<Rightarrow> (string \<times> json) list" where
  "omit_opt k f x = (case x of None \<Rightarrow> [] | Some v \<Rightarrow> [(k, f v)])"

definition omit_list :: "string \<Rightarrow> ('a \<Rightarrow> json) \<Rightarrow> 'a list \<Rightarrow> (string \<times> json) list" where
  "omit_list k f xs = (if xs = [] then [] else [(k, JArr (map f xs))])"

definition omit_false :: "string \<Rightarrow> bool \<Rightarrow> (string \<times> json) list" where
  "omit_false k b = (if b then [(k, JBool True)] else [])"

definition trim_slashes :: "string \<Rightarrow> string" where
  "trim_slashes s = rev (dropWhile (\<lambda>c. c = CHR ''/'') (rev s))"

text \<open>The key goes into a header only if there is one.\<close>

definition key_header :: "string \<Rightarrow> string \<Rightarrow> string \<Rightarrow> (string \<times> string) list" where
  "key_header name pre key = (if key = [] then [] else [(name, pre @ key)])"

text \<open>The end of each \<open>BuildRequest\<close>: marshal the body, make the request.\<close>

definition finish_request ::
    "codec \<Rightarrow> string \<Rightarrow> string \<Rightarrow> (string \<times> string) list \<Rightarrow> json \<Rightarrow> string + upstream_request" where
  "finish_request co adapter url hdrs body =
     (if \<not> marshal_ok body then Inl (adapter @ '' adapter: marshal body: '' @ co_marshalErr co body)
      else
        (case co_badURL co url of
           Some e \<Rightarrow> Inl e
         | None \<Rightarrow> Inr \<lparr>uq_URL = url, uq_Headers = hdrs, uq_Body = body\<rparr>))"

section \<open>OpenAI\<close>

definition openAIOutboundContent :: "message \<Rightarrow> json" where
  "openAIOutboundContent m =
     (if \<not> HasImages m then JStr (message_Text m)
      else JArr (List.map_filter (\<lambda>c.
        if IsImage c then
          (let im = the (cb_Image c);
               url = (if img_Kind im = ''base64'' then buildDataURL (img_MediaType im) (img_Data im) else img_URL im)
           in Some (JObj [(''type'', JStr ''image_url''), (''image_url'', JObj [(''url'', JStr url)])]))
        else if cb_Text c \<noteq> [] then Some (JObj [(''type'', JStr ''text''), (''text'', JStr (cb_Text c))])
        else None) (msg_Content m)))"

definition toolResultContentToText :: "string \<Rightarrow> string" where
  "toolResultContentToText raw =
     (let s = trim_space raw in
      if s = [] then [] else (case unmarshal dec_str [] raw of Some str \<Rightarrow> str | None \<Rightarrow> s))"

definition openai_tool_call_obj :: "content_block \<Rightarrow> json" where
  "openai_tool_call_obj c =
     (let tu = the (cb_ToolUse c) in JObj
       [(''id'', JStr (tu_ID tu)), (''type'', JStr ''function''),
        (''function'', JObj [(''name'', JStr (tu_Name tu)), (''arguments'', JStr (inputToOpenAIArgs (tu_Input tu)))])])"

definition openai_tool_message :: "content_block \<Rightarrow> json" where
  "openai_tool_message c =
     (let tr = the (cb_ToolResult c) in
      JObj ([(''role'', JStr ''tool''), (''content'', JStr (toolResultContentToText (tr_Content tr)))]
        @ omit_str ''tool_call_id'' (tr_ToolUseID tr)))"

definition openAIMessagesFromUnified :: "message \<Rightarrow> json list" where
  "openAIMessagesFromUnified m =
     (let toolResults = filter IsToolResult (msg_Content m);
          toolCalls = filter (\<lambda>c. \<not> IsToolResult c \<and> IsToolUse c) (msg_Content m);
          rest = filter (\<lambda>c. \<not> IsToolResult c \<and> \<not> IsToolUse c) (msg_Content m);
          content = (if rest \<noteq> [] then openAIOutboundContent (m\<lparr>msg_Content := rest\<rparr>)
                     else if toolCalls \<noteq> [] then JNull else JStr [])
      in map openai_tool_message toolResults
         @ (if rest \<noteq> [] \<or> toolCalls \<noteq> [] \<or> toolResults = [] then
              [JObj ([(''role'', JStr (msg_Role m)), (''content'', content)]
                 @ omit_list ''tool_calls'' openai_tool_call_obj toolCalls)]
            else []))"

definition canonicalToolsToOpenAI :: "string \<Rightarrow> string" where
  "canonicalToolsToOpenAI raw =
     (if trim_space raw = [] then []
      else
        (case unmarshal (dec_list zero_tool_def (dec_tool_def ''input_schema'')) [] raw of
           None \<Rightarrow> []
         | Some tools \<Rightarrow>
             marshal (JArr (map (\<lambda>t. JObj
               [(''function'', JObj (omit_str ''description'' (td_Description t)
                  @ [(''name'', JStr (td_Name t)),
                     (''parameters'', if trim_space (td_Schema t) \<noteq> [] then JRaw (td_Schema t) else object_schema)])),
                (''type'', JStr ''function'')]) tools))))"

text \<open>The type and the name of a tool choice.\<close>

definition dec_tool_choice :: "(string \<times> string) decoder" where
  "dec_tool_choice = dec_record
     [(''type'', into fst (\<lambda>v r. (v, snd r)) dec_str), (''name'', into snd (\<lambda>v r. (fst r, v)) dec_str)]"

definition canonicalToolChoiceToOpenAI :: "string \<Rightarrow> string" where
  "canonicalToolChoiceToOpenAI raw =
     (if trim_space raw = [] then []
      else
        (case unmarshal dec_tool_choice ([], []) raw of
           None \<Rightarrow> []
         | Some (ty, name) \<Rightarrow>
             if ty = ''auto'' then marshal (JStr ''auto'')
             else if ty = ''none'' then marshal (JStr ''none'')
             else if ty = ''any'' then marshal (JStr ''required'')
             else if ty = ''tool'' \<and> name \<noteq> [] then
               marshal (JObj [(''function'', JObj [(''name'', JStr name)]), (''type'', JStr ''function'')])
             else []))"

definition openai_body :: "unified_request \<Rightarrow> json" where
  "openai_body uni =
     (let msgs = (if trim_space (ur_System uni) \<noteq> []
            then [JObj [(''role'', JStr RoleSystem), (''content'', JStr (ur_System uni))]] else [])
          @ concat (map openAIMessagesFromUnified (ur_Messages uni))
      in JObj ([(''model'', JStr (ur_Model uni)), (''messages'', JArr msgs)]
        @ omit_false ''stream'' (ur_Stream uni)
        @ omit_opt ''max_tokens'' JInt (ur_MaxTokens uni)
        @ omit_opt ''temperature'' JDec (ur_Temperature uni)
        @ omit_opt ''top_p'' JDec (ur_TopP uni)
        @ omit_list ''stop'' JStr (ur_StopSequences uni)
        @ omit_raw ''tools'' (canonicalToolsToOpenAI (ur_Tools uni))
        @ omit_raw ''tool_choice'' (canonicalToolChoiceToOpenAI (ur_ToolChoice uni))
        @ (if ur_Stream uni then [(''stream_options'', JObj [(''include_usage'', JBool True)])] else [])))"

definition openai_BuildRequest ::
    "codec \<Rightarrow> (channel \<Rightarrow> string + string) \<Rightarrow> unified_request \<Rightarrow> channel \<Rightarrow> string + upstream_request" where
  "openai_BuildRequest co decrypt uni ch =
     (let base = trim_slashes (ch_BaseURL ch) in
      if base = [] then Inl (''openai adapter: channel '' @ dec (ch_ID ch) @ '' has no base_url'')
      else
        (case decrypt ch of
           Inl e \<Rightarrow> Inl (''openai adapter: decrypt key: '' @ e)
         | Inr key \<Rightarrow>
             finish_request co ''openai'' (base @ ''/v1/chat/completions'')
               ([(''Content-Type'', ''application/json'')] @ key_header ''Authorization'' ''Bearer '' key
                 @ (if ur_Stream uni then [(''Accept'', ''text/event-stream'')] else []))
               (openai_body uni)))"

section \<open>Anthropic\<close>

text \<open>An empty array of raw values.\<close>

definition toolsEffectivelyEmpty :: "string \<Rightarrow> bool" where
  "toolsEffectivelyEmpty raw =
     (let s = trim_space raw in
      s = [] \<or> s = ''null'' \<or> prefix ''['' s \<and> unmarshal (dec_list [] dec_raw) [] raw = Some [])"

text \<open>The distinct names of the tools that were called, in the order of their first calls.\<close>

definition called_names :: "message list \<Rightarrow> string list" where
  "called_names msgs =
     fold (\<lambda>c seen. let name = tu_Name (the (cb_ToolUse c)) in
         if \<not> IsToolUse c \<or> name = [] \<or> name \<in> set seen then seen else seen @ [name])
       (concat (map msg_Content msgs)) []"

definition ReconstructCanonicalToolsFromHistory :: "message list \<Rightarrow> string" where
  "ReconstructCanonicalToolsFromHistory msgs =
     (if called_names msgs = [] then []
      else marshal (JArr (map (\<lambda>name. JObj
        [(''name'', JStr name), (''description'', JStr []), (''input_schema'', object_schema)]) (called_names msgs))))"

text \<open>The system member is a value of an interface type: an empty string is written, not left out.\<close>

definition buildAnthropicSystem :: "unified_request \<Rightarrow> json" where
  "buildAnthropicSystem uni =
     (let sys = trim_space (ur_System uni) in
      if ur_SystemCacheControl uni = None \<or> sys = [] then JStr sys
      else JArr [JObj [(''cache_control'', JObj [(''type'', JStr ''ephemeral'')]), (''text'', JStr sys),
                       (''type'', JStr ''text'')]])"

definition anthropicVersion :: string where "anthropicVersion = ''2023-06-01''"
definition anthropicDefaultMaxTokens :: int where "anthropicDefaultMaxTokens = 4096"

definition anthropic_max_tokens :: "unified_request \<Rightarrow> int" where
  "anthropic_max_tokens uni =
     (case ur_MaxTokens uni of
        Some n \<Rightarrow> if n > 0 then n else anthropicDefaultMaxTokens
      | None \<Rightarrow> anthropicDefaultMaxTokens)"

definition anthropic_tools :: "unified_request \<Rightarrow> string" where
  "anthropic_tools uni =
     (if toolsEffectivelyEmpty (ur_Tools uni) then ReconstructCanonicalToolsFromHistory (ur_Messages uni)
      else ur_Tools uni)"

definition anthropic_body :: "unified_request \<Rightarrow> json" where
  "anthropic_body uni =
     JObj ([(''model'', JStr (ur_Model uni)), (''max_tokens'', JInt (anthropic_max_tokens uni)),
            (''system'', buildAnthropicSystem uni),
            (''messages'', JArr (map (\<lambda>m. JObj [(''role'', JStr (msg_Role m)),
               (''content'', JArr (BuildAnthropicContentBlocks (msg_Content m)))]) (ur_Messages uni)))]
       @ omit_false ''stream'' (ur_Stream uni)
       @ omit_opt ''temperature'' JDec (ur_Temperature uni)
       @ omit_opt ''top_p'' JDec (ur_TopP uni)
       @ omit_list ''stop_sequences'' JStr (ur_StopSequences uni)
       @ omit_raw ''tools'' (anthropic_tools uni)
       @ omit_raw ''tool_choice'' (ur_ToolChoice uni))"

definition anthropic_BuildRequest ::
    "codec \<Rightarrow> (channel \<Rightarrow> string + string) \<Rightarrow> unified_request \<Rightarrow> channel \<Rightarrow> string + upstream_request" where
  "anthropic_BuildRequest co decrypt uni ch =
     (let base = trim_slashes (ch_BaseURL ch) in
      if base = [] then Inl (''anthropic adapter: channel '' @ dec (ch_ID ch) @ '' has no base_url'')
      else
        (case decrypt ch of
           Inl e \<Rightarrow> Inl (''anthropic adapter: decrypt key: '' @ e)
         | Inr key \<Rightarrow>
             finish_request co ''anthropic'' (base @ ''/v1/messages'')
               ([(''Content-Type'', ''application/json''), (''anthropic-version'', anthropicVersion)]
                 @ key_header ''x-api-key'' [] key
                 @ (if ur_Stream uni then [(''Accept'', ''text/event-stream'')] else []))
               (anthropic_body uni)))"

section \<open>Bedrock\<close>

record converse_block =
  cvb_Text :: string
  cvb_Image :: "(string \<times> string) option"
  cvb_ToolUse :: "tool_use_block option"
  cvb_ToolResult :: "(string \<times> json list) option"
  cvb_CachePoint :: "string option"

record converse_message =
  cvm_Role :: string
  cvm_Content :: "converse_block list"

record inference_config =
  inf_MaxTokens :: "int option"
  inf_Temperature :: "string option"
  inf_TopP :: "string option"
  inf_StopSequences :: "string list"

record tool_spec =
  tsp_Name :: string
  tsp_Description :: string
  tsp_InputSchema :: json

record tool_config =
  tcf_Tools :: "tool_spec list"
  tcf_ToolChoice :: "json option"

record converse_request =
  cvr_Messages :: "converse_message list"
  cvr_System :: "(string \<times> string option) list"
  cvr_InferenceConfig :: "inference_config option"
  cvr_ToolConfig :: "tool_config option"

definition empty_block :: converse_block where
  "empty_block = \<lparr>cvb_Text = [], cvb_Image = None, cvb_ToolUse = None, cvb_ToolResult = None, cvb_CachePoint = None\<rparr>"

definition cache_point :: converse_block where
  "cache_point = empty_block\<lparr>cvb_CachePoint := Some ''default''\<rparr>"

text \<open>What \<open>json.Unmarshal\<close> puts into an \<open>any\<close>: numbers as \<open>float64\<close>, objects as maps.\<close>

fun any_json :: "(string \<Rightarrow> string option) \<Rightarrow> doc \<Rightarrow> json" where
  "any_json fl (DAtom j raw) =
     (case j of
        JInt _ \<Rightarrow> (case fl raw of Some t \<Rightarrow> JDec t | None \<Rightarrow> JNull)
      | JDec _ \<Rightarrow> (case fl raw of Some t \<Rightarrow> JDec t | None \<Rightarrow> JNull)
      | _ \<Rightarrow> j)"
| "any_json fl (DArr ds _) = JArr (map (any_json fl) ds)"
| "any_json fl (DObj kvs _) = JObj (fold (\<lambda>(k, d). put k (any_json fl d)) kvs [])"

definition bedrock_schema :: "(string \<Rightarrow> string option) \<Rightarrow> string \<Rightarrow> json" where
  "bedrock_schema fl raw =
     (case parse_json raw of
        Some (DObj kvs s) \<Rightarrow> any_json fl (DObj kvs s)
      | _ \<Rightarrow> object_schema)"

definition canonicalToolChoiceToBedrock :: "string \<Rightarrow> json option" where
  "canonicalToolChoiceToBedrock raw =
     (if trim_space raw = [] then None
      else
        (case unmarshal dec_tool_choice ([], []) raw of
           None \<Rightarrow> None
         | Some (ty, name) \<Rightarrow>
             if ty = ''auto'' then Some (JObj [(''auto'', JObj [])])
             else if ty = ''any'' then Some (JObj [(''any'', JObj [])])
             else if ty = ''tool'' \<and> name \<noteq> [] then Some (JObj [(''tool'', JObj [(''name'', JStr name)])])
             else None))"

definition canonicalToolsToBedrock :: "codec \<Rightarrow> string \<Rightarrow> string \<Rightarrow> tool_config option" where
  "canonicalToolsToBedrock co toolsRaw choiceRaw =
     (if toolsEffectivelyEmpty toolsRaw then None
      else
        (case unmarshal (dec_list zero_tool_def (dec_tool_def ''input_schema'')) [] toolsRaw of
           None \<Rightarrow> None
         | Some tools \<Rightarrow> Some
             \<lparr>tcf_Tools = map (\<lambda>t. \<lparr>tsp_Name = td_Name t, tsp_Description = td_Description t,
                tsp_InputSchema = JObj [(''json'', bedrock_schema (co_float co) (td_Schema t))]\<rparr>) tools,
              tcf_ToolChoice = canonicalToolChoiceToBedrock choiceRaw\<rparr>))"

definition reconstructToolConfigFromHistory :: "message list \<Rightarrow> tool_config option" where
  "reconstructToolConfigFromHistory msgs =
     (if called_names msgs = [] then None
      else Some \<lparr>tcf_Tools = map (\<lambda>name. \<lparr>tsp_Name = name, tsp_Description = [],
          tsp_InputSchema = JObj [(''json'', object_schema)]\<rparr>) (called_names msgs),
        tcf_ToolChoice = None\<rparr>)"

definition image_obj :: "string \<times> string \<Rightarrow> json" where
  "image_obj img = JObj [(''format'', JStr (fst img)), (''source'', JObj [(''bytes'', JStr (snd img))])]"

text \<open>The first error ends a loop; otherwise the results are joined.\<close>

fun collect :: "('a \<Rightarrow> 'e + 'b list) \<Rightarrow> 'a list \<Rightarrow> 'e + 'b list" where
  "collect f [] = Inr []"
| "collect f (x # xs) =
     (case f x of
        Inl e \<Rightarrow> Inl e
      | Inr ys \<Rightarrow> (case collect f xs of Inl e \<Rightarrow> Inl e | Inr zs \<Rightarrow> Inr (ys @ zs)))"

definition text_member :: "string \<Rightarrow> json" where
  "text_member s = JObj [(''text'', JStr s)]"

definition bedrock_image :: "codec \<Rightarrow> image_source \<Rightarrow> string + string \<times> string" where
  "bedrock_image co = bedrockImageFromSource (co_quote co) (co_badb64 co) (co_get co)"

definition tool_result_part :: "codec \<Rightarrow> anthropic_inbound_block \<Rightarrow> string + json list" where
  "tool_result_part co b =
     (if aib_Type b = ''text'' \<or> aib_Type b = [] then
        Inr (if aib_Text b \<noteq> [] \<or> aib_Type b = ''text'' then [text_member (aib_Text b)] else [])
      else if aib_Type b = ''image'' then
        (case aib_Source b of
           None \<Rightarrow> Inr []
         | Some src \<Rightarrow>
             let cb = (if src_Type src = ''url'' then ImageURLBlock (src_URL src)
                       else ImageBase64Block (src_MediaType src) (src_Data src)) in
             (case bedrock_image co (the (cb_Image cb)) of
                Inl e \<Rightarrow> Inl e
              | Inr img \<Rightarrow> Inr [JObj [(''image'', image_obj img)]]))
      else Inr [text_member (aib_Text b)])"

definition bedrockToolResultContent :: "codec \<Rightarrow> string \<Rightarrow> string + json list" where
  "bedrockToolResultContent co raw =
     (let s = trim_space raw in
      if s = [] then Inr [text_member []]
      else
        (case unmarshal dec_str [] raw of
           Some str \<Rightarrow> Inr [text_member str]
         | None \<Rightarrow>
             if prefix ''['' s then
               (case unmarshal dec_anthropic_blocks [] raw of
                  Some blocks \<Rightarrow>
                    (case collect (tool_result_part co) blocks of
                       Inl e \<Rightarrow> Inl e
                     | Inr out \<Rightarrow> Inr (if out = [] then [text_member []] else out))
                | None \<Rightarrow> Inr [text_member s])
             else if prefix ''{'' s then Inr [JObj [(''json'', JRaw raw)]]
             else Inr [text_member s]))"

text \<open>The block a content block becomes, if it becomes one, and a cache point after it.\<close>

definition converse_anchor :: "codec \<Rightarrow> content_block \<Rightarrow> string + converse_block list" where
  "converse_anchor co c =
     (if IsImage c then
        (case bedrock_image co (the (cb_Image c)) of
           Inl e \<Rightarrow> Inl e
         | Inr img \<Rightarrow> Inr [empty_block\<lparr>cvb_Image := Some img\<rparr>])
      else if IsToolUse c then
        (let tu = the (cb_ToolUse c) in
         Inr [empty_block\<lparr>cvb_ToolUse := Some (if trim_space (tu_Input tu) = [] then tu\<lparr>tu_Input := ''{}''\<rparr> else tu)\<rparr>])
      else if IsToolResult c then
        (let tr = the (cb_ToolResult c) in
         (case bedrockToolResultContent co (tr_Content tr) of
            Inl e \<Rightarrow> Inl e
          | Inr parts \<Rightarrow> Inr [empty_block\<lparr>cvb_ToolResult := Some (tr_ToolUseID tr, parts)\<rparr>]))
      else Inr (if cb_Text c \<noteq> [] then [empty_block\<lparr>cvb_Text := cb_Text c\<rparr>] else []))"

definition converse_blocks :: "codec \<Rightarrow> content_block \<Rightarrow> string + converse_block list" where
  "converse_blocks co c =
     (case converse_anchor co c of
        Inl e \<Rightarrow> Inl e
      | Inr anchor \<Rightarrow> Inr (anchor @ (if cb_CacheControl c \<noteq> None \<and> anchor \<noteq> [] then [cache_point] else [])))"

definition converse_message_of :: "codec \<Rightarrow> message \<Rightarrow> string + converse_message list" where
  "converse_message_of co m =
     (case collect (converse_blocks co) (msg_Content m) of
        Inl e \<Rightarrow> Inl e
      | Inr blocks \<Rightarrow> Inr (if blocks = [] then [] else [\<lparr>cvm_Role = msg_Role m, cvm_Content = blocks\<rparr>]))"

definition unifiedToBedrock :: "codec \<Rightarrow> unified_request \<Rightarrow> string + converse_request" where
  "unifiedToBedrock co uni =
     (case collect (converse_message_of co) (ur_Messages uni) of
        Inl e \<Rightarrow> Inl e
      | Inr msgs \<Rightarrow> Inr
          \<lparr>cvr_Messages = msgs,
           cvr_System = (if trim_space (ur_System uni) = [] then []
             else (ur_System uni, None) # (if ur_SystemCacheControl uni \<noteq> None then [([], Some ''default'')] else [])),
           cvr_InferenceConfig =
             (if ur_MaxTokens uni \<noteq> None \<or> ur_Temperature uni \<noteq> None \<or> ur_TopP uni \<noteq> None \<or> ur_StopSequences uni \<noteq> []
              then Some \<lparr>inf_MaxTokens = ur_MaxTokens uni, inf_Temperature = ur_Temperature uni,
                inf_TopP = ur_TopP uni, inf_StopSequences = ur_StopSequences uni\<rparr> else None),
           cvr_ToolConfig =
             (case canonicalToolsToBedrock co (ur_Tools uni) (ur_ToolChoice uni) of
                None \<Rightarrow> reconstructToolConfigFromHistory (ur_Messages uni)
              | cfg \<Rightarrow> cfg)\<rparr>)"

text \<open>The body on the wire.\<close>

definition converse_block_obj :: "converse_block \<Rightarrow> json" where
  "converse_block_obj b =
     JObj (omit_str ''text'' (cvb_Text b)
       @ omit_opt ''image'' image_obj (cvb_Image b)
       @ omit_opt ''toolUse'' (\<lambda>tu. JObj [(''toolUseId'', JStr (tu_ID tu)), (''name'', JStr (tu_Name tu)),
            (''input'', JRaw (tu_Input tu))]) (cvb_ToolUse b)
       @ omit_opt ''toolResult'' (\<lambda>tr. JObj [(''toolUseId'', JStr (fst tr)), (''content'', JArr (snd tr))])
           (cvb_ToolResult b)
       @ omit_opt ''cachePoint'' (\<lambda>t. JObj [(''type'', JStr t)]) (cvb_CachePoint b))"

definition inference_obj :: "inference_config \<Rightarrow> json" where
  "inference_obj cfg =
     JObj (omit_opt ''maxTokens'' JInt (inf_MaxTokens cfg)
       @ omit_opt ''temperature'' JDec (inf_Temperature cfg)
       @ omit_opt ''topP'' JDec (inf_TopP cfg)
       @ omit_list ''stopSequences'' JStr (inf_StopSequences cfg))"

definition tool_config_obj :: "tool_config \<Rightarrow> json" where
  "tool_config_obj cfg =
     JObj ((''tools'', if tcf_Tools cfg = [] then JNull else JArr (map (\<lambda>t. JObj [(''toolSpec'', JObj
          ([(''name'', JStr (tsp_Name t))] @ omit_str ''description'' (tsp_Description t)
           @ [(''inputSchema'', tsp_InputSchema t)]))]) (tcf_Tools cfg)))
       # omit_opt ''toolChoice'' id (tcf_ToolChoice cfg))"

definition bedrock_body :: "converse_request \<Rightarrow> json" where
  "bedrock_body r =
     JObj ((''messages'', if cvr_Messages r = [] then JNull
              else JArr (map (\<lambda>m. JObj [(''role'', JStr (cvm_Role m)),
                 (''content'', JArr (map converse_block_obj (cvm_Content m)))]) (cvr_Messages r)))
       # omit_list ''system'' (\<lambda>(t, cp). JObj (omit_str ''text'' t
           @ omit_opt ''cachePoint'' (\<lambda>ty. JObj [(''type'', JStr ty)]) cp)) (cvr_System r)
       @ omit_opt ''inferenceConfig'' inference_obj (cvr_InferenceConfig r)
       @ omit_opt ''toolConfig'' tool_config_obj (cvr_ToolConfig r))"

subsection \<open>The endpoint\<close>

definition regionToProfilePrefix :: "string \<Rightarrow> string" where
  "regionToProfilePrefix region =
     (if prefix ''us-gov-'' region then []
      else if prefix ''us-'' region then ''us.''
      else if prefix ''eu-'' region then ''eu.''
      else if prefix ''ap-'' region then ''apac.''
      else [])"

definition alreadyProfilePrefixed :: "string \<Rightarrow> bool" where
  "alreadyProfilePrefixed modelID = list_ex (\<lambda>p. prefix p modelID) [''us.'', ''eu.'', ''apac.'', ''global.'']"

definition applyInferenceProfile :: "string \<Rightarrow> string \<Rightarrow> bool \<Rightarrow> string" where
  "applyInferenceProfile modelID region enabled =
     (if \<not> enabled \<or> alreadyProfilePrefixed modelID then modelID
      else if CHR ''.'' \<notin> set modelID then modelID
      else let pre = regionToProfilePrefix region in if pre = [] then modelID else pre @ modelID)"

definition bedrockEndpoint :: "string \<Rightarrow> string \<Rightarrow> bool \<Rightarrow> string" where
  "bedrockEndpoint region modelID stream =
     ''https://bedrock-runtime.'' @ region @ ''.amazonaws.com/model/'' @ modelID @ ''/''
       @ (if stream then ''converse-stream'' else ''converse'')"

definition bedrock_BuildRequest ::
    "codec \<Rightarrow> (channel \<Rightarrow> string + string) \<Rightarrow> unified_request \<Rightarrow> channel \<Rightarrow> string + upstream_request" where
  "bedrock_BuildRequest co decrypt uni ch =
     (if trim_space (ch_Region ch) = [] then Inl (''bedrock adapter: channel '' @ dec (ch_ID ch) @ '' has no region'')
      else if trim_space (ur_Model uni) = [] then Inl ''bedrock adapter: empty model id''
      else
        (case decrypt ch of
           Inl e \<Rightarrow> Inl (''bedrock adapter: decrypt key: '' @ e)
         | Inr key \<Rightarrow>
             (case unifiedToBedrock co uni of
                Inl e \<Rightarrow> Inl (''bedrock adapter: '' @ e)
              | Inr body \<Rightarrow>
                  finish_request co ''bedrock''
                    (bedrockEndpoint (ch_Region ch)
                      (applyInferenceProfile (ur_Model uni) (ch_Region ch) (ch_UseInferenceProfile ch)) (ur_Stream uni))
                    ([(''Content-Type'', ''application/json'')] @ key_header ''Authorization'' ''Bearer '' key
                      @ [(''Accept'', if ur_Stream uni then ''application/vnd.amazon.eventstream'' else ''application/json'')])
                    (bedrock_body body))))"

definition BuildRequest ::
    "codec \<Rightarrow> (channel \<Rightarrow> string + string) \<Rightarrow> string \<Rightarrow> unified_request \<Rightarrow> channel \<Rightarrow> string + upstream_request" where
  "BuildRequest co decrypt adapter =
     (if adapter = ''openai'' then openai_BuildRequest co decrypt
      else if adapter = ''anthropic'' then anthropic_BuildRequest co decrypt
      else bedrock_BuildRequest co decrypt)"

section \<open>Requests Bedrock accepts\<close>

text \<open>
  What the Converse API asks of a request: a message has content; a block has exactly one member;
  an image is of a known format, tool input and tool results are not empty; a cache point follows
  a block it can stand for.
\<close>

definition members :: "converse_block \<Rightarrow> nat" where
  "members b = length (filter id
     [cvb_Text b \<noteq> [], cvb_Image b \<noteq> None, cvb_ToolUse b \<noteq> None, cvb_ToolResult b \<noteq> None, cvb_CachePoint b \<noteq> None])"

definition block_ok :: "converse_block \<Rightarrow> bool" where
  "block_ok b \<longleftrightarrow> members b = 1
     \<and> (case cvb_Image b of None \<Rightarrow> True | Some img \<Rightarrow> fst img \<in> set image_formats)
     \<and> (case cvb_ToolUse b of None \<Rightarrow> True | Some tu \<Rightarrow> trim_space (tu_Input tu) \<noteq> [])
     \<and> (case cvb_ToolResult b of None \<Rightarrow> True | Some tr \<Rightarrow> snd tr \<noteq> [])"

fun anchored :: "bool \<Rightarrow> converse_block list \<Rightarrow> bool" where
  "anchored prev [] = True"
| "anchored prev (b # bs) =
     ((cvb_CachePoint b = None \<or> prev) \<and> anchored (cvb_CachePoint b = None) bs)"

definition message_ok :: "converse_message \<Rightarrow> bool" where
  "message_ok m \<longleftrightarrow> cvm_Content m \<noteq> [] \<and> list_all block_ok (cvm_Content m) \<and> anchored False (cvm_Content m)"

definition uses_tool :: "converse_message \<Rightarrow> bool" where
  "uses_tool m \<longleftrightarrow> list_ex (\<lambda>b. case cvb_ToolUse b of None \<Rightarrow> False | Some tu \<Rightarrow> tu_Name tu \<noteq> []) (cvm_Content m)"

definition converse_ok :: "converse_request \<Rightarrow> bool" where
  "converse_ok r \<longleftrightarrow> list_all message_ok (cvr_Messages r)
     \<and> (case cvr_System r of [] \<Rightarrow> True | (t, _) # _ \<Rightarrow> t \<noteq> [])
     \<and> (list_ex uses_tool (cvr_Messages r) \<longrightarrow> cvr_ToolConfig r \<noteq> None)"

lemma collect_Inr:
  "collect f xs = Inr ys \<longleftrightarrow> list_all (\<lambda>x. \<exists>y. f x = Inr y) xs \<and> ys = concat (map (\<lambda>x. case f x of Inr y \<Rightarrow> y | Inl _ \<Rightarrow> []) xs)"
proof (induction xs arbitrary: ys)
  case (Cons x xs)
  then show ?case by (cases "f x"; cases "collect f xs") auto
qed auto

lemma bedrockToolResultContent_ne: "bedrockToolResultContent co raw = Inr parts \<Longrightarrow> parts \<noteq> []"
proof (cases "trim_space raw = []")
  case False
  let ?parts = "case unmarshal dec_anthropic_blocks [] raw of
      Some blocks \<Rightarrow> (case collect (tool_result_part co) blocks of
        Inl e \<Rightarrow> Inl e | Inr out \<Rightarrow> Inr (if out = [] then [text_member []] else out))
    | None \<Rightarrow> Inr [text_member (trim_space raw)]"
  have "?parts = Inr parts \<Longrightarrow> parts \<noteq> []"
    by (cases "unmarshal dec_anthropic_blocks [] raw"; cases "collect (tool_result_part co) (the (unmarshal dec_anthropic_blocks [] raw))")
      (auto split: if_split_asm)
  then show "bedrockToolResultContent co raw = Inr parts \<Longrightarrow> parts \<noteq> []"
    unfolding bedrockToolResultContent_def Let_def if_not_P [OF False]
    by (cases "unmarshal dec_str [] raw") (auto split: if_split_asm)
qed (auto simp: bedrockToolResultContent_def)

lemma empty_block_sel [simp]:
  "cvb_Text empty_block = []" "cvb_Image empty_block = None" "cvb_ToolUse empty_block = None"
  "cvb_ToolResult empty_block = None" "cvb_CachePoint empty_block = None"
  by (simp_all add: empty_block_def)

lemma trim_braces [simp]: "trim_space ''{}'' = ''{}''"
  by (intro trim_space_graphic) (simp_all add: graphic_def)

text \<open>The block of a content block stands alone, is well-formed, and is a tool call only for a tool call.\<close>

lemma converse_anchor_cases:
  assumes "converse_anchor co c = Inr bs"
  shows "bs = [] \<or> (\<exists>b. bs = [b] \<and> block_ok b \<and> cvb_CachePoint b = None
    \<and> (\<forall>tu. cvb_ToolUse b = Some tu \<longrightarrow> IsToolUse c \<and> tu_Name tu = tu_Name (the (cb_ToolUse c))))"
proof -
  let ?tu = "the (cb_ToolUse c)" and ?tr = "the (cb_ToolResult c)"
  consider (img) "IsImage c" | (tool) "\<not> IsImage c" "IsToolUse c"
    | (result) "\<not> IsImage c" "\<not> IsToolUse c" "IsToolResult c"
    | (texts) "\<not> IsImage c" "\<not> IsToolUse c" "\<not> IsToolResult c" by blast
  then show ?thesis
  proof cases
    case img
    with assms obtain im where im: "bedrock_image co (the (cb_Image c)) = Inr im" "bs = [empty_block\<lparr>cvb_Image := Some im\<rparr>]"
      by (auto simp: converse_anchor_def split: sum.splits)
    then have "fst im \<in> set image_formats"
      using bedrockImageFromSource_ok(1) [of "co_quote co" "co_badb64 co" "co_get co" "the (cb_Image c)" "fst im" "snd im"]
      by (simp add: bedrock_image_def)
    with im show ?thesis by (simp add: block_ok_def members_def)
  next
    case tool
    define tu where "tu = (if trim_space (tu_Input ?tu) = [] then ?tu\<lparr>tu_Input := ''{}''\<rparr> else ?tu)"
    have "trim_space (tu_Input tu) \<noteq> []" "tu_Name tu = tu_Name ?tu" by (simp_all add: tu_def)
    moreover have "bs = [empty_block\<lparr>cvb_ToolUse := Some tu\<rparr>]"
      using assms tool by (simp add: converse_anchor_def Let_def tu_def)
    ultimately show ?thesis using tool by (simp add: block_ok_def members_def)
  next
    case result
    with assms obtain parts where "bedrockToolResultContent co (tr_Content ?tr) = Inr parts"
      "bs = [empty_block\<lparr>cvb_ToolResult := Some (tr_ToolUseID ?tr, parts)\<rparr>]"
      by (auto simp: converse_anchor_def Let_def split: sum.splits)
    then show ?thesis using bedrockToolResultContent_ne by (simp add: block_ok_def members_def)
  next
    case texts
    with assms have "bs = (if cb_Text c \<noteq> [] then [empty_block\<lparr>cvb_Text := cb_Text c\<rparr>] else [])"
      by (simp add: converse_anchor_def)
    then show ?thesis by (simp add: block_ok_def members_def)
  qed
qed

lemma cache_point_ok: "block_ok cache_point" "cvb_CachePoint cache_point \<noteq> None" "cvb_ToolUse cache_point = None"
  by (simp_all add: cache_point_def block_ok_def members_def)

lemma converse_blocks_cases:
  assumes "converse_blocks co c = Inr bs"
  shows "list_all block_ok bs \<and> (\<forall>p rest. anchored p (bs @ rest) = (if bs = [] then anchored p rest
      else anchored (cb_CacheControl c = None) rest))
    \<and> (\<forall>b \<in> set bs. \<forall>tu. cvb_ToolUse b = Some tu \<longrightarrow> IsToolUse c \<and> tu_Name tu = tu_Name (the (cb_ToolUse c)))"
proof -
  from assms obtain anchor where a: "converse_anchor co c = Inr anchor"
    and bs: "bs = anchor @ (if cb_CacheControl c \<noteq> None \<and> anchor \<noteq> [] then [cache_point] else [])"
    by (auto simp: converse_blocks_def split: sum.splits)
  from converse_anchor_cases [OF a] show ?thesis
    by (auto simp: bs cache_point_ok)
qed

lemma anchored_concat:
  assumes "list_all (\<lambda>x. \<forall>p rest. anchored p (f x @ rest) = (if f x = [] then anchored p rest else anchored (g x) rest)) xs"
  shows "anchored p (concat (map f xs))"
  using assms by (induction xs arbitrary: p) auto

lemma converse_message_cases:
  assumes "converse_message_of co m = Inr ms"
  shows "list_all message_ok ms"
    "list_ex uses_tool ms \<Longrightarrow> \<exists>c \<in> set (msg_Content m). IsToolUse c \<and> tu_Name (the (cb_ToolUse c)) \<noteq> []"
proof -
  from assms obtain bs where c: "collect (converse_blocks co) (msg_Content m) = Inr bs"
    and ms: "ms = (if bs = [] then [] else [\<lparr>cvm_Role = msg_Role m, cvm_Content = bs\<rparr>])"
    by (auto simp: converse_message_of_def split: sum.splits)
  let ?f = "\<lambda>c. case converse_blocks co c of Inr y \<Rightarrow> y | Inl _ \<Rightarrow> []"
  have bs: "bs = concat (map ?f (msg_Content m))"
    and ok: "\<And>c. c \<in> set (msg_Content m) \<Longrightarrow> converse_blocks co c = Inr (?f c)"
    using c by (auto simp: collect_Inr list_all_iff)
  note cases = converse_blocks_cases [OF ok]
  have "anchored False bs"
    unfolding bs by (rule anchored_concat [where g = "\<lambda>c. cb_CacheControl c = None"]) (use cases in \<open>auto simp: list_all_iff\<close>)
  moreover have "list_all block_ok bs"
    using cases by (fastforce simp: bs list_all_iff)
  ultimately show "list_all message_ok ms" by (simp add: ms message_ok_def)
  show "\<exists>c \<in> set (msg_Content m). IsToolUse c \<and> tu_Name (the (cb_ToolUse c)) \<noteq> []" if "list_ex uses_tool ms"
    using that cases by (fastforce simp: ms bs uses_tool_def list_ex_iff split: if_splits option.splits)
qed

lemma set_called_names:
  "set (called_names msgs) =
     {name. name \<noteq> [] \<and> (\<exists>m \<in> set msgs. \<exists>c \<in> set (msg_Content m). IsToolUse c \<and> tu_Name (the (cb_ToolUse c)) = name)}"
proof -
  let ?add = "\<lambda>c seen. let name = tu_Name (the (cb_ToolUse c)) in
       if \<not> IsToolUse c \<or> name = [] \<or> name \<in> set seen then seen else seen @ [name]"
  have "set (fold ?add cs acc) =
      set acc \<union> {name. name \<noteq> [] \<and> (\<exists>c \<in> set cs. IsToolUse c \<and> tu_Name (the (cb_ToolUse c)) = name)}" for cs acc
    by (induction cs arbitrary: acc) (auto simp: Let_def)
  then show ?thesis by (auto simp: called_names_def)
qed


section \<open>What a request says\<close>

text \<open>
  The content of a conversation: what is said, which tools are called with which input, which
  calls are answered, where an image is shown.
\<close>

datatype item =
    Says string
  | Calls string string string
  | Answers string
  | Shows

definition block_item :: "content_block \<Rightarrow> item option" where
  "block_item c =
     (if IsToolUse c then
        (let tu = the (cb_ToolUse c) in Some (Calls (tu_ID tu) (tu_Name tu) (inputToOpenAIArgs (tu_Input tu))))
      else if IsToolResult c then Some (Answers (tr_ToolUseID (the (cb_ToolResult c))))
      else if IsImage c then Some Shows
      else if cb_Text c \<noteq> [] then Some (Says (cb_Text c))
      else None)"

definition message_items :: "message \<Rightarrow> item list" where
  "message_items m = List.map_filter block_item (msg_Content m)"

definition calls_of :: "item list \<Rightarrow> (string \<times> string \<times> string) list" where
  "calls_of = List.map_filter (\<lambda>i. case i of Calls x y z \<Rightarrow> Some (x, y, z) | _ \<Rightarrow> None)"

definition answers_of :: "item list \<Rightarrow> string list" where
  "answers_of = List.map_filter (\<lambda>i. case i of Answers x \<Rightarrow> Some x | _ \<Rightarrow> None)"

definition said_in :: "item list \<Rightarrow> string" where
  "said_in is = str_join [CHR 0x0A] (List.map_filter (\<lambda>i. case i of Says t \<Rightarrow> Some t | _ \<Rightarrow> None) is)"

text \<open>Reading JSON.\<close>

fun json_member :: "string \<Rightarrow> json \<Rightarrow> json option" where
  "json_member k (JObj kvs) = map_of kvs k"
| "json_member k _ = None"

fun json_text :: "json option \<Rightarrow> string" where
  "json_text (Some (JStr s)) = s"
| "json_text (Some (JRaw s)) = s"
| "json_text _ = []"

fun json_items :: "json option \<Rightarrow> json list" where
  "json_items (Some (JArr xs)) = xs"
| "json_items _ = []"

definition anthropic_item :: "json \<Rightarrow> item option" where
  "anthropic_item b =
     (let ty = json_text (json_member ''type'' b) in
      if ty = ''tool_use'' then
        Some (Calls (json_text (json_member ''id'' b)) (json_text (json_member ''name'' b))
          (trim_space (json_text (json_member ''input'' b))))
      else if ty = ''tool_result'' then Some (Answers (json_text (json_member ''tool_use_id'' b)))
      else if ty = ''image'' then Some Shows
      else if json_text (json_member ''text'' b) \<noteq> [] then Some (Says (json_text (json_member ''text'' b)))
      else None)"

definition bedrock_item :: "json \<Rightarrow> item option" where
  "bedrock_item b =
     (case json_member ''toolUse'' b of
        Some tu \<Rightarrow> Some (Calls (json_text (json_member ''toolUseId'' tu)) (json_text (json_member ''name'' tu))
          (trim_space (json_text (json_member ''input'' tu))))
      | None \<Rightarrow>
          (case json_member ''toolResult'' b of
             Some tr \<Rightarrow> Some (Answers (json_text (json_member ''toolUseId'' tr)))
           | None \<Rightarrow>
               if json_member ''image'' b \<noteq> None then Some Shows
               else if json_member ''text'' b \<noteq> None then Some (Says (json_text (json_member ''text'' b)))
               else None))"

text \<open>The items of the messages of an Anthropic or of a Converse body, in order.\<close>

definition body_items :: "(json \<Rightarrow> item option) \<Rightarrow> json \<Rightarrow> item list" where
  "body_items item body =
     concat (map (\<lambda>m. List.map_filter item (json_items (json_member ''content'' m)))
       (json_items (json_member ''messages'' body)))"

text \<open>OpenAI: a tool message answers; another message says, shows and then calls.\<close>

definition openai_calls :: "json \<Rightarrow> (string \<times> string \<times> string) list" where
  "openai_calls m = map (\<lambda>c. let f = json_member ''function'' c in
       (json_text (json_member ''id'' c), json_text (Option.bind f (json_member ''name'')),
        json_text (Option.bind f (json_member ''arguments'')))) (json_items (json_member ''tool_calls'' m))"

definition openai_answers :: "json \<Rightarrow> string list" where
  "openai_answers m =
     (if json_text (json_member ''role'' m) = ''tool'' then [json_text (json_member ''tool_call_id'' m)] else [])"

definition openai_said :: "json \<Rightarrow> string" where
  "openai_said m =
     (if json_text (json_member ''role'' m) = ''tool'' then []
      else case json_member ''content'' m of
        Some (JArr parts) \<Rightarrow> str_join [CHR 0x0A]
          (List.map_filter (\<lambda>p. map_option (\<lambda>t. json_text (Some t)) (json_member ''text'' p)) parts)
      | content \<Rightarrow> json_text content)"

subsection \<open>Blocks\<close>

lemma map_of_put [simp]: "map_of (put k v kvs) j = (if j = k then Some v else map_of kvs j)"
  by (induction kvs) auto

lemma map_filter_append [simp]: "List.map_filter f (xs @ ys) = List.map_filter f xs @ List.map_filter f ys"
  by (simp add: List.map_filter_def)

lemma map_filter_concat: "List.map_filter f (concat xss) = concat (map (List.map_filter f) xss)"
  by (induction xss) (simp_all add: List.map_filter_simps)

lemma is_kinds:
  "IsToolUse c \<Longrightarrow> \<not> IsToolResult c \<and> \<not> IsImage c" "IsToolResult c \<Longrightarrow> \<not> IsToolUse c \<and> \<not> IsImage c"
  "IsImage c \<Longrightarrow> \<not> IsToolUse c \<and> \<not> IsToolResult c"
  by (auto simp: IsToolUse_def IsToolResult_def IsImage_def)

text \<open>An image block with a URL or with data; only such a block is sent to Anthropic.\<close>

definition usable :: "content_block \<Rightarrow> bool" where
  "usable c \<longleftrightarrow> (IsImage c \<longrightarrow> (let im = the (cb_Image c) in
     img_Kind im = ''base64'' \<and> img_Data im \<noteq> [] \<or> img_Kind im = ''url'' \<and> img_URL im \<noteq> []))"

lemma anthropic_block_item:
  assumes "usable c"
  shows "Option.bind (BuildAnthropicContentBlock c) anthropic_item = block_item c"
proof -
  consider (tool) "IsToolUse c" | (result) "IsToolResult c" | (img) "IsImage c"
    | (texts) "\<not> IsToolUse c" "\<not> IsToolResult c" "\<not> IsImage c" by blast
  then show ?thesis
  proof cases
    case tool
    then show ?thesis
      by (simp add: BuildAnthropicContentBlock_def buildAnthropicContentBlock_def anthropic_item_def block_item_def
          Let_def inputToOpenAIArgs_def)
  next
    case result
    let ?tr = "the (cb_ToolResult c)"
    have "\<exists>b. buildAnthropicContentBlock c = Some b \<and> map_of b ''type'' = Some (JStr ''tool_result'')
        \<and> map_of b ''tool_use_id'' = Some (JStr (tr_ToolUseID ?tr))"
      using result is_kinds(2) [OF result] unfolding buildAnthropicContentBlock_def Let_def
      by (simp del: put.simps)
    then obtain b where "buildAnthropicContentBlock c = Some b" "map_of b ''type'' = Some (JStr ''tool_result'')"
        "map_of b ''tool_use_id'' = Some (JStr (tr_ToolUseID ?tr))" by blast
    with result is_kinds(2) [OF result] show ?thesis
      by (simp add: BuildAnthropicContentBlock_def anthropic_item_def block_item_def Let_def del: put.simps)
  next
    case img
    let ?im = "the (cb_Image c)"
    have b: "buildAnthropicContentBlock c =
        (if img_Kind ?im = ''base64'' then
           (if img_Data ?im = [] then None
            else Some [(''source'', JObj [(''data'', JStr (img_Data ?im)), (''media_type'', JStr (img_MediaType ?im)),
                        (''type'', JStr ''base64'')]), (''type'', JStr ''image'')])
         else if img_Kind ?im = ''url'' then
           (if img_URL ?im = [] then None
            else Some [(''source'', JObj [(''type'', JStr ''url''), (''url'', JStr (img_URL ?im))]),
                       (''type'', JStr ''image'')])
         else None)"
      using img is_kinds(3) [OF img] by (simp add: buildAnthropicContentBlock_def Let_def)
    have "\<exists>src. buildAnthropicContentBlock c = Some [(''source'', src), (''type'', JStr ''image'')]"
      using assms img unfolding b usable_def Let_def by (cases "img_Kind ?im = ''base64''") simp_all
    then obtain src where "buildAnthropicContentBlock c = Some [(''source'', src), (''type'', JStr ''image'')]" ..
    with img is_kinds(3) [OF img] show ?thesis
      by (simp add: BuildAnthropicContentBlock_def anthropic_item_def block_item_def Let_def)
  next
    case texts
    then show ?thesis
      by (simp add: BuildAnthropicContentBlock_def buildAnthropicContentBlock_def anthropic_item_def block_item_def Let_def)
  qed
qed

lemma map_filter_bind:
  "List.map_filter g (List.map_filter f xs) = List.map_filter (\<lambda>x. Option.bind (f x) g) xs"
  by (induction xs) (auto simp: List.map_filter_simps split: option.splits)

lemma map_filter_cong: "(\<And>x. x \<in> set xs \<Longrightarrow> f x = g x) \<Longrightarrow> List.map_filter f xs = List.map_filter g xs"
  by (induction xs) (auto simp: List.map_filter_simps split: option.split)

lemma anthropic_body_items:
  assumes "list_all (\<lambda>m. list_all usable (msg_Content m)) (ur_Messages uni)"
  shows "body_items anthropic_item (anthropic_body uni) = concat (map message_items (ur_Messages uni))"
proof -
  have "List.map_filter anthropic_item (BuildAnthropicContentBlocks (msg_Content m)) = message_items m"
    if "m \<in> set (ur_Messages uni)" for m
    using assms that anthropic_block_item
    by (auto simp: BuildAnthropicContentBlocks_def message_items_def map_filter_bind list_all_iff intro: map_filter_cong)
  then have "concat (map (\<lambda>m. List.map_filter anthropic_item (BuildAnthropicContentBlocks (msg_Content m))) (ur_Messages uni))
      = concat (map message_items (ur_Messages uni))"
    by (intro arg_cong [where f = concat] map_cong) auto
  then show ?thesis
    by (simp add: body_items_def anthropic_body_def comp_def)
qed

lemma converse_block_members [simp]:
  "json_member ''toolUse'' (converse_block_obj b) =
     map_option (\<lambda>tu. JObj [(''toolUseId'', JStr (tu_ID tu)), (''name'', JStr (tu_Name tu)), (''input'', JRaw (tu_Input tu))])
       (cvb_ToolUse b)"
  "json_member ''toolResult'' (converse_block_obj b) =
     map_option (\<lambda>tr. JObj [(''toolUseId'', JStr (fst tr)), (''content'', JArr (snd tr))]) (cvb_ToolResult b)"
  "json_member ''image'' (converse_block_obj b) = map_option image_obj (cvb_Image b)"
  "json_member ''text'' (converse_block_obj b) = (if cvb_Text b = [] then None else Some (JStr (cvb_Text b)))"
  by (auto simp: converse_block_obj_def omit_str_def omit_opt_def split: option.split)

lemma cache_point_item: "bedrock_item (converse_block_obj cache_point) = None"
  by (simp add: bedrock_item_def cache_point_def)

lemma bedrock_block_items:
  assumes "converse_blocks co c = Inr bs"
  shows "List.map_filter bedrock_item (map converse_block_obj bs) = List.map_filter block_item [c]"
proof -
  from assms obtain anchor where a: "converse_anchor co c = Inr anchor"
    and bs: "bs = anchor @ (if cb_CacheControl c \<noteq> None \<and> anchor \<noteq> [] then [cache_point] else [])"
    by (auto simp: converse_blocks_def split: sum.splits)
  have "List.map_filter bedrock_item (map converse_block_obj anchor) = List.map_filter block_item [c]"
  proof -
    consider (tool) "IsToolUse c" | (result) "IsToolResult c" | (img) "IsImage c"
      | (texts) "\<not> IsToolUse c" "\<not> IsToolResult c" "\<not> IsImage c" by blast
    then show ?thesis
    proof cases
      case tool
      with a is_kinds(1) [OF tool] show ?thesis
        by (auto simp: converse_anchor_def Let_def block_item_def bedrock_item_def List.map_filter_simps inputToOpenAIArgs_def)
    next
      case result
      with a is_kinds(2) [OF result] show ?thesis
        by (auto simp: converse_anchor_def Let_def block_item_def bedrock_item_def List.map_filter_simps split: sum.splits)
    next
      case img
      with a is_kinds(3) [OF img] show ?thesis
        by (auto simp: converse_anchor_def block_item_def bedrock_item_def List.map_filter_simps split: sum.splits)
    next
      case texts
      with a show ?thesis
        by (auto simp: converse_anchor_def block_item_def bedrock_item_def List.map_filter_simps)
    qed
  qed
  then show ?thesis by (simp add: bs cache_point_item List.map_filter_simps)
qed

lemma bedrock_body_messages:
  "json_items (json_member ''messages'' (bedrock_body r)) =
     map (\<lambda>m. JObj [(''role'', JStr (cvm_Role m)), (''content'', JArr (map converse_block_obj (cvm_Content m)))])
       (cvr_Messages r)"
  by (simp add: bedrock_body_def)

lemma map_filter_singles: "concat (map (\<lambda>x. List.map_filter f [x]) xs) = List.map_filter f xs"
  by (induction xs) (auto simp: List.map_filter_simps split: option.split)

lemma collect_items:
  assumes "collect f xs = Inr ys" "\<And>x y. x \<in> set xs \<Longrightarrow> f x = Inr y \<Longrightarrow> g y = h x"
    "\<And>u v. g (u @ v) = g u @ g v" "g [] = []"
  shows "g ys = concat (map h xs)"
  using assms(1,2)
proof (induction xs arbitrary: ys)
  case (Cons x xs)
  from Cons.prems(1) obtain y zs where "f x = Inr y" "collect f xs = Inr zs" "ys = y @ zs"
    by (auto split: sum.splits)
  with Cons.IH [of zs] Cons.prems(2) assms(3) show ?case by simp
qed (simp add: assms(4))

lemma bedrock_body_items:
  assumes "unifiedToBedrock co uni = Inr r"
  shows "body_items bedrock_item (bedrock_body r) = concat (map message_items (ur_Messages uni))"
proof -
  let ?items = "\<lambda>ms. concat (map (\<lambda>m. List.map_filter bedrock_item (map converse_block_obj (cvm_Content m))) ms)"
  from assms obtain msgs where c: "collect (converse_message_of co) (ur_Messages uni) = Inr msgs" "cvr_Messages r = msgs"
    by (auto simp: unifiedToBedrock_def split: sum.splits)
  have "?items ms = message_items m" if "converse_message_of co m = Inr ms" for m ms
  proof -
    from that obtain bs where bs: "collect (converse_blocks co) (msg_Content m) = Inr bs"
      and ms: "ms = (if bs = [] then [] else [\<lparr>cvm_Role = msg_Role m, cvm_Content = bs\<rparr>])"
      by (auto simp: converse_message_of_def split: sum.splits)
    have "List.map_filter bedrock_item (map converse_block_obj bs)
        = concat (map (\<lambda>c. List.map_filter block_item [c]) (msg_Content m))"
      by (rule collect_items [OF bs]) (simp_all add: bedrock_block_items List.map_filter_simps)
    also have "\<dots> = message_items m"
      by (simp only: map_filter_singles message_items_def)
    finally show ?thesis by (cases "bs = []") (simp_all add: ms List.map_filter_simps)
  qed
  then have "?items msgs = concat (map message_items (ur_Messages uni))"
    by (intro collect_items [OF c(1)]) simp_all
  then show ?thesis
    by (simp add: body_items_def bedrock_body_messages c(2) comp_def)
qed

subsection \<open>OpenAI\<close>

lemma answers_message: "openai_answers (openai_tool_message c) = [tr_ToolUseID (the (cb_ToolResult c))]"
  by (simp add: openai_answers_def openai_tool_message_def Let_def omit_str_def)

lemma tool_message_silent:
  "openai_calls (openai_tool_message c) = []" "openai_said (openai_tool_message c) = []"
  by (simp_all add: openai_calls_def openai_said_def openai_tool_message_def Let_def omit_str_def)

lemma calls_of_items:
  "calls_of (message_items m) =
     map (\<lambda>c. let tu = the (cb_ToolUse c) in (tu_ID tu, tu_Name tu, inputToOpenAIArgs (tu_Input tu)))
       (filter (\<lambda>c. \<not> IsToolResult c \<and> IsToolUse c) (msg_Content m))"
proof -
  have "calls_of (List.map_filter block_item cs) =
      map (\<lambda>c. let tu = the (cb_ToolUse c) in (tu_ID tu, tu_Name tu, inputToOpenAIArgs (tu_Input tu)))
        (filter (\<lambda>c. \<not> IsToolResult c \<and> IsToolUse c) cs)" for cs
  proof (induction cs)
    case (Cons c cs)
    then show ?case
      by (cases "IsToolUse c") (auto simp: calls_of_def List.map_filter_simps block_item_def Let_def dest: is_kinds)
  qed (simp add: calls_of_def List.map_filter_simps)
  then show ?thesis by (simp add: message_items_def)
qed

lemma answers_of_items:
  "answers_of (message_items m) = map (\<lambda>c. tr_ToolUseID (the (cb_ToolResult c))) (filter IsToolResult (msg_Content m))"
proof -
  have "answers_of (List.map_filter block_item cs) = map (\<lambda>c. tr_ToolUseID (the (cb_ToolResult c))) (filter IsToolResult cs)" for cs
  proof (induction cs)
    case (Cons c cs)
    then show ?case
      by (cases "IsToolResult c")
        (auto simp: answers_of_def List.map_filter_simps block_item_def Let_def dest: is_kinds)
  qed (simp add: answers_of_def List.map_filter_simps)
  then show ?thesis by (simp add: message_items_def)
qed

text \<open>The texts of the blocks that are neither calls, answers nor images.\<close>

definition plain_texts :: "content_block list \<Rightarrow> string list" where
  "plain_texts cs = filter (\<lambda>t. t \<noteq> []) (map cb_Text (filter (\<lambda>c. \<not> IsToolResult c \<and> \<not> IsToolUse c \<and> \<not> IsImage c) cs))"

lemma said_in_items: "said_in (message_items m) = str_join [CHR 0x0A] (plain_texts (msg_Content m))"
proof -
  have "List.map_filter (\<lambda>i. case i of Says t \<Rightarrow> Some t | _ \<Rightarrow> None) (List.map_filter block_item cs) = plain_texts cs" for cs
    by (induction cs) (auto simp: List.map_filter_simps block_item_def plain_texts_def Let_def)
  then show ?thesis by (simp add: said_in_def message_items_def)
qed

lemma openai_content_said:
  assumes "rest = filter (\<lambda>c. \<not> IsToolResult c \<and> \<not> IsToolUse c) (msg_Content m)"
  shows "(case openAIOutboundContent (m\<lparr>msg_Content := rest\<rparr>) of
      JArr parts \<Rightarrow> str_join [CHR 0x0A] (List.map_filter (\<lambda>p. map_option (\<lambda>t. json_text (Some t)) (json_member ''text'' p)) parts)
    | content \<Rightarrow> json_text (Some content)) = str_join [CHR 0x0A] (plain_texts (msg_Content m))"
proof (cases "HasImages (m\<lparr>msg_Content := rest\<rparr>)")
  case False
  then have "filter (\<lambda>c. \<not> IsToolResult c \<and> \<not> IsToolUse c \<and> \<not> IsImage c) (msg_Content m) = rest"
    unfolding assms by (intro filter_cong refl) (auto simp: assms HasImages_def list_ex_iff)
  with False show ?thesis
    by (simp add: openAIOutboundContent_def message_Text_def join_texts_char plain_texts_def)
next
  case True
  let ?part = "\<lambda>c. if IsImage c then
      (let im = the (cb_Image c);
           url = (if img_Kind im = ''base64'' then buildDataURL (img_MediaType im) (img_Data im) else img_URL im)
       in Some (JObj [(''type'', JStr ''image_url''), (''image_url'', JObj [(''url'', JStr url)])]))
    else if cb_Text c \<noteq> [] then Some (JObj [(''type'', JStr ''text''), (''text'', JStr (cb_Text c))])
    else None"
  let ?read = "\<lambda>p. map_option (\<lambda>t. json_text (Some t)) (json_member ''text'' p)"
  have "List.map_filter ?read (List.map_filter ?part (filter (\<lambda>c. \<not> IsToolResult c \<and> \<not> IsToolUse c) cs))
      = plain_texts cs" for cs
    by (induction cs) (auto simp: List.map_filter_simps plain_texts_def Let_def)
  with True show ?thesis by (simp add: openAIOutboundContent_def assms)
qed

lemma openai_message_reading:
  assumes "msg_Role m \<noteq> ''tool''"
  shows "concat (map openai_calls (openAIMessagesFromUnified m)) = calls_of (message_items m)"
    "concat (map openai_answers (openAIMessagesFromUnified m)) = answers_of (message_items m)"
    "filter (\<lambda>t. t \<noteq> []) (map openai_said (openAIMessagesFromUnified m))
       = filter (\<lambda>t. t \<noteq> []) [said_in (message_items m)]"
proof -
  define results where "results = filter IsToolResult (msg_Content m)"
  define calls where "calls = filter (\<lambda>c. \<not> IsToolResult c \<and> IsToolUse c) (msg_Content m)"
  define rest where "rest = filter (\<lambda>c. \<not> IsToolResult c \<and> \<not> IsToolUse c) (msg_Content m)"
  define content where "content = (if rest \<noteq> [] then openAIOutboundContent (m\<lparr>msg_Content := rest\<rparr>)
      else if calls \<noteq> [] then JNull else JStr [])"
  define main where "main = JObj ([(''role'', JStr (msg_Role m)), (''content'', content)]
      @ omit_list ''tool_calls'' openai_tool_call_obj calls)"
  have msgs: "openAIMessagesFromUnified m =
      map openai_tool_message results @ (if rest \<noteq> [] \<or> calls \<noteq> [] \<or> results = [] then [main] else [])"
    by (simp add: openAIMessagesFromUnified_def results_def calls_def rest_def content_def main_def Let_def)
  have main: "openai_answers main = []"
    "openai_calls main = map (\<lambda>c. let tu = the (cb_ToolUse c) in (tu_ID tu, tu_Name tu, inputToOpenAIArgs (tu_Input tu))) calls"
    using assms by (auto simp: openai_answers_def openai_calls_def main_def omit_list_def openai_tool_call_obj_def Let_def)
  have silent: "map openai_calls (map openai_tool_message results) = map (\<lambda>_. []) results"
    "map openai_said (map openai_tool_message results) = map (\<lambda>_. []) results"
    by (simp_all add: tool_message_silent)
  show "concat (map openai_calls (openAIMessagesFromUnified m)) = calls_of (message_items m)"
    unfolding msgs map_append concat_append silent calls_of_items calls_def [symmetric] using main by simp
  show "concat (map openai_answers (openAIMessagesFromUnified m)) = answers_of (message_items m)"
    unfolding msgs answers_of_items results_def [symmetric] using main by (simp add: answers_message comp_def)
  have plain: "str_join [CHR 0x0A] (plain_texts (msg_Content m)) = []" if "rest = []"
  proof -
    have "filter (\<lambda>c. \<not> IsToolResult c \<and> \<not> IsToolUse c \<and> \<not> IsImage c) (msg_Content m) = filter (\<lambda>c. \<not> IsImage c) rest"
      by (simp add: rest_def conj_commute conj_left_commute)
    with that show ?thesis by (simp add: plain_texts_def)
  qed
  have "openai_said main = said_in (message_items m)"
  proof (cases "rest = []")
    case True
    with plain assms show ?thesis by (simp add: openai_said_def main_def content_def said_in_items split: json.split)
  next
    case False
    with openai_content_said [OF rest_def] assms show ?thesis
      by (simp add: openai_said_def main_def content_def said_in_items split: json.split)
  qed
  moreover have "said_in (message_items m) = []" if "\<not> (rest \<noteq> [] \<or> calls \<noteq> [] \<or> results = [])"
    using that plain by (simp add: said_in_items)
  ultimately show "filter (\<lambda>t. t \<noteq> []) (map openai_said (openAIMessagesFromUnified m))
       = filter (\<lambda>t. t \<noteq> []) [said_in (message_items m)]"
    unfolding msgs map_append filter_append silent by (simp add: filter_empty_conv)
qed

definition openai_messages :: "unified_request \<Rightarrow> json list" where
  "openai_messages uni = json_items (json_member ''messages'' (openai_body uni))"

lemma openai_messages_eq:
  "openai_messages uni =
     (if trim_space (ur_System uni) \<noteq> [] then [JObj [(''role'', JStr RoleSystem), (''content'', JStr (ur_System uni))]] else [])
     @ concat (map openAIMessagesFromUnified (ur_Messages uni))"
  by (simp add: openai_messages_def openai_body_def Let_def)

lemma system_message_reading:
  "openai_calls (JObj [(''role'', JStr RoleSystem), (''content'', JStr t)]) = []"
  "openai_answers (JObj [(''role'', JStr RoleSystem), (''content'', JStr t)]) = []"
  "openai_said (JObj [(''role'', JStr RoleSystem), (''content'', JStr t)]) = t"
  by (simp_all add: openai_calls_def openai_answers_def openai_said_def RoleSystem_def)


definition sample_conversation :: unified_request where
  "sample_conversation =
     \<lparr>ur_Model = ''m'', ur_System = ''be brief'',
      ur_Messages = [\<lparr>msg_Role = ''user'', msg_Content = [TextBlock ''weather?'']\<rparr>,
        \<lparr>msg_Role = ''assistant'', msg_Content = [ToolUseBlockOf ''c1'' ''look'' ''{}'']\<rparr>,
        \<lparr>msg_Role = ''user'', msg_Content = [ToolResultBlockOf ''c1'' ''[]'' False, TextBlock ''so?'']\<rparr>],
      ur_SystemCacheControl = None, ur_Stream = False, ur_MaxTokens = None, ur_Temperature = None,
      ur_TopP = None, ur_StopSequences = [], ur_Tools = [], ur_ToolChoice = []\<rparr>"


end
