(* ===== verification/Aes.thy ===== *)
theory Aes
  imports Prelude
begin

text \<open>
  AES-256 in Galois/counter mode, as Go's \<open>crypto/aes\<close> and \<open>crypto/cipher\<close> compute it
  (FIPS 197, SP 800-38D): the block cipher, the counter stream, the authentication tag, \<open>Seal\<close> and
  \<open>Open\<close> with a 12-byte nonce, a 16-byte tag and no additional data.
\<close>

unbundle bit_operations_syntax

type_synonym byte = "8 word"

section \<open>The block cipher\<close>

definition xtime :: "byte \<Rightarrow> byte" where
  "xtime b = (if bit b 7 then push_bit 1 b XOR 0x1B else push_bit 1 b)"

text \<open>The product in the field of 256 elements: \<open>n\<close> bits of \<open>b\<close> are left.\<close>

fun gf_times :: "nat \<Rightarrow> byte \<Rightarrow> byte \<Rightarrow> byte" where
  "gf_times 0 a b = 0"
| "gf_times (Suc n) a b = (if bit b 0 then a else 0) XOR gf_times n (xtime a) (drop_bit 1 b)"

definition gf_mult :: "byte \<Rightarrow> byte \<Rightarrow> byte" where
  "gf_mult a b = gf_times 8 a b"

text \<open>The inverse is the power 254; the S-box is its affine image.\<close>

definition gf_inverse :: "byte \<Rightarrow> byte" where
  "gf_inverse a =
     (let sq = (\<lambda>x. gf_mult x x); a2 = sq a; a4 = sq a2; a8 = sq a4; a16 = sq a8; a32 = sq a16; a64 = sq a32;
          a128 = sq a64
      in gf_mult a128 (gf_mult a64 (gf_mult a32 (gf_mult a16 (gf_mult a8 (gf_mult a4 a2))))))"

definition sub_byte :: "byte \<Rightarrow> byte" where
  "sub_byte a =
     (let i = gf_inverse a in
      i XOR word_rotl 1 i XOR word_rotl 2 i XOR word_rotl 3 i XOR word_rotl 4 i XOR 0x63)"

definition xor_bytes :: "byte list \<Rightarrow> byte list \<Rightarrow> byte list" where
  "xor_bytes xs ys = map2 (XOR) xs ys"

text \<open>The words of the key schedule, of four bytes each; \<open>rc\<close> is the round constant.\<close>

fun expand_key :: "nat \<Rightarrow> byte \<Rightarrow> byte list list \<Rightarrow> byte list list" where
  "expand_key 0 rc ws = ws"
| "expand_key (Suc n) rc ws =
     (let i = length ws; prev = last ws;
          temp = (if i mod 8 = 0 then xor_bytes (map sub_byte (rotate1 prev)) [rc, 0, 0, 0]
                  else if i mod 8 = 4 then map sub_byte prev else prev)
      in expand_key n (if i mod 8 = 0 then xtime rc else rc) (ws @ [xor_bytes (ws ! (i - 8)) temp]))"

fun chunk :: "nat \<Rightarrow> nat \<Rightarrow> 'a list \<Rightarrow> 'a list list" where
  "chunk k 0 xs = []"
| "chunk k (Suc n) xs = take k xs # chunk k n (drop k xs)"

definition round_keys :: "byte list \<Rightarrow> byte list list" where
  "round_keys key = map concat (chunk 4 15 (expand_key 52 1 (chunk 4 8 key)))"

definition shift_rows :: "byte list \<Rightarrow> byte list" where
  "shift_rows s = map (\<lambda>i. s ! ((i + 4 * (i mod 4)) mod 16)) [0..<16]"

definition mix_column :: "byte list \<Rightarrow> byte list" where
  "mix_column c =
     map (\<lambda>i. gf_mult 2 (c ! (i mod 4)) XOR gf_mult 3 (c ! ((i + 1) mod 4)) XOR c ! ((i + 2) mod 4)
            XOR c ! ((i + 3) mod 4)) [0..<4]"

definition aes_round :: "byte list \<Rightarrow> byte list \<Rightarrow> byte list" where
  "aes_round k s = xor_bytes (concat (map mix_column (chunk 4 4 (shift_rows (map sub_byte s))))) k"

definition aes_encrypt :: "byte list \<Rightarrow> byte list \<Rightarrow> byte list" where
  "aes_encrypt key blk =
     (let ks = round_keys key in
      xor_bytes (shift_rows (map sub_byte (fold aes_round (take 13 (tl ks)) (xor_bytes blk (hd ks))))) (last ks))"

section \<open>Galois/counter mode\<close>

type_synonym gblock = "128 word"

definition block_word :: "byte list \<Rightarrow> gblock" where
  "block_word bs = foldl (\<lambda>w b. push_bit 8 w OR ucast b) 0 bs"

definition word_block :: "gblock \<Rightarrow> byte list" where
  "word_block w = map (\<lambda>k. ucast (drop_bit (120 - 8 * k) w)) [0..<16]"

fun gcm_times :: "nat \<Rightarrow> gblock \<Rightarrow> gblock \<Rightarrow> gblock" where
  "gcm_times 0 x v = 0"
| "gcm_times (Suc n) x v =
     (if bit x n then v else 0) XOR
     gcm_times n x (if bit v 0 then drop_bit 1 v XOR push_bit 120 0xE1 else drop_bit 1 v)"

definition gcm_mult :: "gblock \<Rightarrow> gblock \<Rightarrow> gblock" where
  "gcm_mult x y = gcm_times 128 x y"

definition pad16 :: "byte list \<Rightarrow> byte list" where
  "pad16 bs = bs @ replicate ((16 - length bs mod 16) mod 16) 0"

definition ghash :: "gblock \<Rightarrow> byte list \<Rightarrow> gblock" where
  "ghash h ct =
     (let blocks = map block_word (chunk 16 (length (pad16 ct) div 16) (pad16 ct)) @ [word_of_nat (8 * length ct)]
      in foldl (\<lambda>y b. gcm_mult (y XOR b) h) 0 blocks)"

definition counter_block :: "byte list \<Rightarrow> nat \<Rightarrow> byte list" where
  "counter_block nonce i = nonce @ drop 12 (word_block (word_of_nat (i mod 2 ^ 32)))"

definition keystream :: "byte list \<Rightarrow> byte list \<Rightarrow> nat \<Rightarrow> byte list" where
  "keystream key nonce n =
     concat (map (\<lambda>i. aes_encrypt key (counter_block nonce (i + 2))) [0..<(n + 15) div 16])"

definition gcm_tag :: "byte list \<Rightarrow> byte list \<Rightarrow> byte list \<Rightarrow> byte list" where
  "gcm_tag key nonce ct =
     xor_bytes (word_block (ghash (block_word (aes_encrypt key (replicate 16 0))) ct))
       (aes_encrypt key (counter_block nonce 1))"

definition gcm_seal :: "byte list \<Rightarrow> byte list \<Rightarrow> byte list \<Rightarrow> byte list" where
  "gcm_seal key nonce plain =
     (let ct = xor_bytes plain (keystream key nonce (length plain)) in ct @ gcm_tag key nonce ct)"

definition gcm_open :: "byte list \<Rightarrow> byte list \<Rightarrow> byte list \<Rightarrow> byte list option" where
  "gcm_open key nonce sealed =
     (if length sealed < 16 then None
      else
        let ct = take (length sealed - 16) sealed; tag = drop (length sealed - 16) sealed in
        if tag = gcm_tag key nonce ct then Some (xor_bytes ct (keystream key nonce (length ct))) else None)"

section \<open>Opening what was sealed\<close>

lemma length_xor_bytes [simp]: "length (xor_bytes xs ys) = min (length xs) (length ys)"
  by (simp add: xor_bytes_def)

lemma xor_bytes_cancel: "length xs \<le> length ks \<Longrightarrow> xor_bytes (xor_bytes xs ks) ks = xs"
  by (rule nth_equalityI) (simp_all add: xor_bytes_def xor.assoc)

lemma length_shift_rows [simp]: "length (shift_rows s) = 16"
  by (simp add: shift_rows_def)

lemma length_mix_column [simp]: "length (mix_column c) = 4"
  by (simp add: mix_column_def)

lemma length_chunk [simp]: "length (chunk k n xs) = n"
  by (induction n arbitrary: xs) simp_all

lemma length_concat_mix: "length (concat (map mix_column cs)) = 4 * length cs"
  by (induction cs) simp_all

lemma length_expand_key: "ws \<noteq> [] \<Longrightarrow> length (expand_key n rc ws) = n + length ws"
  by (induction n rc ws rule: expand_key.induct) (simp_all add: Let_def)

lemma expand_key_words:
  assumes "list_all (\<lambda>w. length w = 4) ws" "8 \<le> length ws"
  shows "list_all (\<lambda>w. length w = 4) (expand_key n rc ws)"
  using assms
proof (induction n rc ws rule: expand_key.induct)
  case (2 n rc ws)
  have "length (last ws) = 4" "length (ws ! (length ws - 8)) = 4"
    using 2(2,3) by (auto simp: list_all_iff intro!: last_in_set nth_mem)
  then show ?case using 2 by (simp add: Let_def)
qed simp

lemma chunk_words: "length xs = k * n \<Longrightarrow> list_all (\<lambda>w. length w = k) (chunk k n xs)"
  by (induction n arbitrary: xs) simp_all

lemma length_concat_words: "list_all (\<lambda>w. length w = 4) ws \<Longrightarrow> length (concat ws) = 4 * length ws"
  by (induction ws) simp_all

lemma chunk_all: "list_all P xs \<Longrightarrow> list_all (list_all P) (chunk k n xs)"
  by (induction n arbitrary: xs) (auto simp: list_all_iff dest: in_set_takeD in_set_dropD)

lemma round_keys_blocks:
  assumes "length key = 32"
  shows "length (round_keys key) = 15" "list_all (\<lambda>k. length k = 16) (round_keys key)"
proof -
  let ?ws = "expand_key 52 1 (chunk 4 8 key)"
  have four: "list_all (\<lambda>w. length w = 4) (chunk 4 8 key)" using assms by (intro chunk_words) simp
  have "chunk 4 8 key \<noteq> []" by (metis length_chunk list.size(3) zero_neq_numeral)
  then have len: "length ?ws = 60" by (simp add: length_expand_key)
  have "list_all (list_all (\<lambda>w. length w = 4)) (chunk 4 15 ?ws)"
    by (intro chunk_all expand_key_words four) simp
  moreover have "list_all (\<lambda>c. length c = 4) (chunk 4 15 ?ws)" by (intro chunk_words) (simp add: len)
  ultimately show "list_all (\<lambda>k. length k = 16) (round_keys key)"
    by (auto simp: round_keys_def list_all_iff length_concat_words)
  show "length (round_keys key) = 15" by (simp add: round_keys_def)
qed

lemma length_aes_encrypt: "length key = 32 \<Longrightarrow> length (aes_encrypt key blk) = 16"
proof -
  assume "length key = 32"
  note ks = round_keys_blocks [OF this]
  then have "round_keys key \<noteq> []" by auto
  then have "length (last (round_keys key)) = 16" using ks(2) by (auto simp: list_all_iff)
  then show ?thesis by (simp add: aes_encrypt_def Let_def)
qed

lemma length_keystream:
  assumes "length key = 32"
  shows "n \<le> length (keystream key nonce n)"
proof -
  have "length (concat (map (\<lambda>i. aes_encrypt key (counter_block nonce (i + 2))) [0..<m])) = 16 * m" for m
    by (induction m) (simp_all add: length_aes_encrypt [OF assms])
  then have "length (keystream key nonce n) = 16 * ((n + 15) div 16)" by (simp add: keystream_def)
  then show ?thesis by linarith
qed

lemma length_gcm_tag: "length key = 32 \<Longrightarrow> length (gcm_tag key nonce ct) = 16"
  by (simp add: gcm_tag_def length_aes_encrypt word_block_def)

lemma gcm_open_seal:
  assumes "length key = 32"
  shows "gcm_open key nonce (gcm_seal key nonce plain) = Some plain"
proof -
  define ct where "ct = xor_bytes plain (keystream key nonce (length plain))"
  have len: "length ct = length plain"
    using length_keystream [OF assms, of "length plain" nonce] by (simp add: ct_def)
  have "xor_bytes ct (keystream key nonce (length ct)) = plain"
    unfolding len unfolding ct_def by (rule xor_bytes_cancel) (rule length_keystream [OF assms])
  then show ?thesis
    using length_gcm_tag [OF assms, of nonce ct] by (simp add: gcm_open_def gcm_seal_def Let_def ct_def [symmetric])
qed

end
