(* ===== verification/Secrets.thy ===== *)
theory Secrets
  imports Aes Base64 Sha256
begin

text \<open>
  Secrets at rest: \<open>crypto/aesgcm.go\<close>.  The nonce drawn from \<open>crypto/rand\<close> is an argument, \<open>None\<close>
  when the draw fails; the text of a base64 decoding error is a parameter.
\<close>

definition deriveKey :: "string \<Rightarrow> byte list" where
  "deriveKey secret = map word_of_nat (sha256_bytes (map of_char secret))"

definition to_bytes :: "string \<Rightarrow> byte list" where
  "to_bytes s = map (\<lambda>c. word_of_nat (of_char c)) s"

definition of_bytes :: "byte list \<Rightarrow> string" where
  "of_bytes bs = map (\<lambda>b. char_of (unat b)) bs"

definition nonce_size :: nat where "nonce_size = 12"

definition Encrypt :: "string \<Rightarrow> byte list option \<Rightarrow> string \<Rightarrow> string option" where
  "Encrypt secret nonce plaintext =
     (if plaintext = [] then Some []
      else
        (case nonce of
           None \<Rightarrow> None
         | Some n \<Rightarrow> Some (b64_encode (of_bytes (n @ gcm_seal (deriveKey secret) n (to_bytes plaintext))))))"

definition Decrypt :: "(string \<Rightarrow> string) \<Rightarrow> string \<Rightarrow> string \<Rightarrow> string + string" where
  "Decrypt badb64 secret ciphertext =
     (if ciphertext = [] then Inr []
      else
        (case b64_decode ciphertext of
           None \<Rightarrow> Inl (''crypto: base64 decode: '' @ badb64 ciphertext)
         | Some raw \<Rightarrow>
             if length raw < nonce_size then Inl ''crypto: ciphertext shorter than nonce''
             else
               (case gcm_open (deriveKey secret) (take nonce_size (to_bytes raw)) (drop nonce_size (to_bytes raw)) of
                  None \<Rightarrow> Inl ''crypto: gcm open: cipher: message authentication failed''
                | Some plain \<Rightarrow> Inr (of_bytes plain))))"

definition Mask :: "string \<Rightarrow> string" where
  "Mask secret =
     (if secret = [] then []
      else if length secret \<le> 8 then ''****''
      else take 4 secret @ ''****'' @ drop (length secret - 4) secret)"

section \<open>Round trip\<close>

lemma to_of_bytes [simp]: "to_bytes (of_bytes bs) = bs"
proof -
  have "word_of_nat (of_char (char_of (unat (b :: byte)) :: char)) = b" for b
  proof -
    have "unat b < 256" using unsigned_less [of b, where 'a = nat] by simp
    then show ?thesis by (simp add: of_char_of)
  qed
  then show ?thesis by (simp add: to_bytes_def of_bytes_def map_idI)
qed

lemma of_to_bytes [simp]: "of_bytes (to_bytes s) = s"
proof -
  have "char_of (unat (word_of_nat (of_char c) :: byte)) = (c :: char)" for c
    using of_char_lt [of c] by (simp add: unat_of_nat)
  then show ?thesis by (simp add: to_bytes_def of_bytes_def map_idI)
qed

lemma length_bytes [simp]: "length (to_bytes s) = length s" "length (of_bytes bs) = length bs"
  by (simp_all add: to_bytes_def of_bytes_def)

lemma length_deriveKey: "length (deriveKey secret) = 32"
  by (simp add: deriveKey_def length_sha256)

lemma b64_encode_ne: "s \<noteq> [] \<Longrightarrow> b64_encode s \<noteq> []"
  by (cases s rule: b64_encode.cases) (simp_all add: sextets_def Let_def)

lemma Decrypt_Encrypt:
  assumes "Encrypt secret nonce p = Some c" "case nonce of None \<Rightarrow> True | Some n \<Rightarrow> length n = nonce_size"
  shows "Decrypt badb64 secret c = Inr p"
proof (cases "p = []")
  case True
  with assms show ?thesis by (simp add: Encrypt_def Decrypt_def)
next
  case False
  with assms(1) obtain n where n: "nonce = Some n"
    and c: "c = b64_encode (of_bytes (n @ gcm_seal (deriveKey secret) n (to_bytes p)))"
    by (auto simp: Encrypt_def split: option.splits)
  have "of_bytes (n @ gcm_seal (deriveKey secret) n (to_bytes p)) \<noteq> []"
    using False by (simp add: of_bytes_def gcm_seal_def Let_def)
      (metis length_gcm_tag [OF length_deriveKey] list.size(3) zero_neq_numeral)
  then have "c \<noteq> []" unfolding c by (rule b64_encode_ne)
  moreover have "length n = nonce_size" using assms(2) n by simp
  ultimately show ?thesis
    by (simp add: Decrypt_def c gcm_open_seal [OF length_deriveKey])
qed

text \<open>A mask shows at most eight characters of a secret.\<close>

lemma Mask_reveals: "Mask s \<in> {[], ''****''} \<or> (\<exists>a b c. s = a @ b @ c \<and> length a = 4 \<and> length c = 4 \<and> b \<noteq> [] \<and> Mask s = a @ ''****'' @ c)"
proof (cases "length s \<le> 8")
  case False
  have "length s - 8 + 4 = length s - 4" using False by simp
  then have "drop (length s - 4) s = drop (length s - 8) (drop 4 s)" by simp
  then have "s = take 4 s @ take (length s - 8) (drop 4 s) @ drop (length s - 4) s"
    by (metis append_take_drop_id)
  with False show ?thesis
    by (intro disjI2 exI [of _ "take 4 s"] exI [of _ "take (length s - 8) (drop 4 s)"] exI [of _ "drop (length s - 4) s"])
      (auto simp: Mask_def)
qed (auto simp: Mask_def)

end
