(* ===== verification/Channels.thy ===== *)
theory Channels
  imports Upstream Secrets Rules Tokens
begin

text \<open>
  Upstream channels: \<open>service/channel_service.go\<close>.  The HTTP client, the random nonces and the texts
  of library errors are parameters; the Redis cache of model lists is passed along as a map (an
  entry that expires is one that is missing).  Latencies are left out.
\<close>

section \<open>Keys\<close>

record channel_env =
  ce_secret :: string
  ce_nonce :: "byte list option"
  ce_badb64 :: "string \<Rightarrow> string"
  ce_jerr :: "string \<Rightarrow> string"
  ce_quote :: "string \<Rightarrow> string"
  ce_http :: "string \<Rightarrow> string \<Rightarrow> (string \<times> string) list \<Rightarrow> json option \<Rightarrow> fetched"

definition channel_Decrypt :: "channel_env \<Rightarrow> channel \<Rightarrow> string + string" where
  "channel_Decrypt env ch = Decrypt (ce_badb64 env) (ce_secret env) (ch_Key ch)"

definition encryptM :: "channel_env \<Rightarrow> string \<Rightarrow> string db" where
  "encryptM env plain =
     (case Encrypt (ce_secret env) (ce_nonce env) plain of None \<Rightarrow> failM ErrRand | Some c \<Rightarrow> retM c)"

section \<open>Views and input\<close>

record channel_view =
  cv_Channel :: channel
  cv_KeyMasked :: string
  cv_HasKey :: bool

definition channel_toView :: "channel_env \<Rightarrow> channel \<Rightarrow> channel_view" where
  "channel_toView env ch =
     \<lparr>cv_Channel = ch\<lparr>ch_Key := []\<rparr>,
      cv_KeyMasked = (if ch_Key ch = [] then []
        else (case channel_Decrypt env ch of Inr plain \<Rightarrow> Mask plain | Inl _ \<Rightarrow> ''****'')),
      cv_HasKey = (ch_Key ch \<noteq> [])\<rparr>"

text \<open>\<open>None\<close> is a nil pointer.  A mapping is given by its members.\<close>

record channel_input =
  cin_Name :: "string option"
  cin_Type :: "string option"
  cin_BaseURL :: "string option"
  cin_Key :: "string option"
  cin_Region :: "string option"
  cin_Models :: "string list option"
  cin_ModelMapping :: "(string \<times> string) list option"
  cin_Group :: "string option"
  cin_Priority :: "int option"
  cin_Weight :: "int option"
  cin_Status :: "string option"
  cin_UseInferenceProfile :: "bool option"
  cin_AutoCacheSystem :: "bool option"

definition marshal_mapping :: "(string \<times> string) list \<Rightarrow> json" where
  "marshal_mapping kvs = JObj (fold (\<lambda>(k, v). put (utf8_coerce k) (JStr (utf8_coerce v))) kvs [])"

definition channel_applyInput :: "channel_input \<Rightarrow> channel \<Rightarrow> channel" where
  "channel_applyInput inp =
     set_field (cin_AutoCacheSystem inp) (\<lambda>b c. c\<lparr>ch_AutoCacheSystem := b\<rparr>)
   \<circ> set_field (cin_UseInferenceProfile inp) (\<lambda>b c. c\<lparr>ch_UseInferenceProfile := b\<rparr>)
   \<circ> set_field (cin_Status inp) (\<lambda>s c. c\<lparr>ch_Status := s\<rparr>)
   \<circ> set_field (cin_Weight inp) (\<lambda>n c. c\<lparr>ch_Weight := n\<rparr>)
   \<circ> set_field (cin_Priority inp) (\<lambda>n c. c\<lparr>ch_Priority := n\<rparr>)
   \<circ> set_field (cin_Group inp) (\<lambda>g c. c\<lparr>ch_Group := (if trim_space g = [] then ''default'' else trim_space g)\<rparr>)
   \<circ> set_field (cin_ModelMapping inp) (\<lambda>m c. c\<lparr>ch_ModelMapping := Some (marshal_mapping m)\<rparr>)
   \<circ> set_field (cin_Models inp) (\<lambda>ms c. c\<lparr>ch_Models := Some (toJSONArray ms)\<rparr>)
   \<circ> set_field (cin_Region inp) (\<lambda>r c. c\<lparr>ch_Region := trim_space r\<rparr>)
   \<circ> set_field (cin_BaseURL inp) (\<lambda>u c. c\<lparr>ch_BaseURL := trim_slashes (trim_space u)\<rparr>)
   \<circ> set_field (cin_Type inp) (\<lambda>t c. c\<lparr>ch_Type := t\<rparr>)
   \<circ> set_field (cin_Name inp) (\<lambda>n c. c\<lparr>ch_Name := trim_space n\<rparr>)"

definition validChannelType :: "string \<Rightarrow> bool" where
  "validChannelType t \<longleftrightarrow> t = ChannelOpenAI \<or> t = ChannelBedrock \<or> t = ChannelAnthropic"

section \<open>The table\<close>

definition seq_channels :: string where "seq_channels = ''channels''"

definition storable_channel :: "channel \<Rightarrow> bool" where
  "storable_channel c \<longleftrightarrow>
     list_all (\<lambda>(s, n). valid_text s \<and> length (runes s) \<le> n)
       [(ch_Name c, 128), (ch_Type c, 16), (ch_BaseURL c, 255), (ch_Region c, 32), (ch_Group c, 64), (ch_Status c, 16)]
     \<and> valid_text (ch_Key c) \<and> in_int64 (ch_Priority c) \<and> in_int64 (ch_Weight c)
     \<and> list_all (\<lambda>j. case j of None \<Rightarrow> True | Some v \<Rightarrow> json_storable v) [ch_Models c, ch_ModelMapping c]"

text \<open>A zero value of a column with a default takes the default, which is read back.\<close>

definition gorm_channel_defaults :: "channel \<Rightarrow> channel" where
  "gorm_channel_defaults c =
     c\<lparr>ch_UseInferenceProfile := True,
       ch_Group := (if ch_Group c = [] then ''default'' else ch_Group c),
       ch_Weight := (if ch_Weight c = 0 then 1 else ch_Weight c),
       ch_Status := (if ch_Status c = [] then ChannelEnabled else ch_Status c)\<rparr>"

definition create_channel :: "channel \<Rightarrow> channel db" where
  "create_channel c =
     bindM (io ErrDB) (\<lambda>_ w.
       let c' = (gorm_channel_defaults c)\<lparr>ch_ID := w_seq w seq_channels\<rparr>;
           w' = w\<lparr>w_seq := (w_seq w)(seq_channels := Suc (w_seq w seq_channels))\<rparr> in
       if storable_channel c' then (Inr c', w'\<lparr>w_channels := w_channels w @ [c']\<rparr>) else (Inl ErrDB, w'))"

definition upd_channel :: "nat \<Rightarrow> (channel \<Rightarrow> channel) \<Rightarrow> world \<Rightarrow> world" where
  "upd_channel i f w = w\<lparr>w_channels := map (\<lambda>c. if ch_ID c = i then f c else c) (w_channels w)\<rparr>"

definition save_channel :: "channel \<Rightarrow> unit db" where
  "save_channel c = db_write_if (\<lambda>_. storable_channel c) (upd_channel (ch_ID c) (\<lambda>_. c))"

definition find_channel :: "nat \<Rightarrow> world \<Rightarrow> channel option" where
  "find_channel i w = find (\<lambda>c. ch_ID c = i) (w_channels w)"

section \<open>Operations\<close>

definition channel_getRaw :: "nat \<Rightarrow> channel db" where
  "channel_getRaw i =
     bindM (db_read (find_channel i)) (\<lambda>r. case r of None \<Rightarrow> failM ErrChannelNotFound | Some c \<Rightarrow> retM c)"

definition new_channel :: channel where
  "new_channel = \<lparr>ch_ID = 0, ch_Name = [], ch_Type = [], ch_BaseURL = [], ch_Key = [], ch_Region = [],
     ch_Models = None, ch_ModelMapping = None, ch_UseInferenceProfile = False, ch_AutoCacheSystem = True,
     ch_Group = ''default'', ch_Priority = 0, ch_Weight = 1, ch_Status = ChannelEnabled\<rparr>"

definition ChannelService_Create :: "channel_env \<Rightarrow> channel_input \<Rightarrow> channel_view db" where
  "ChannelService_Create env inp =
     (if (case cin_Name inp of None \<Rightarrow> True | Some n \<Rightarrow> trim_space n = [])
      then failM (ErrInvalidChannel ''name is required'')
      else case cin_Type inp of
        None \<Rightarrow> failM (ErrInvalidChannel ''type is required'')
      | Some t \<Rightarrow>
          if \<not> validChannelType t then failM (ErrInvalidChannel ''type must be openai, bedrock, or anthropic'')
          else
            bindM (encryptM env (case cin_Key inp of None \<Rightarrow> [] | Some k \<Rightarrow> k)) (\<lambda>enc.
            let c = (channel_applyInput inp new_channel)\<lparr>ch_Key := enc\<rparr>;
                c = c\<lparr>ch_Models := (case ch_Models c of None \<Rightarrow> Some (JArr []) | m \<Rightarrow> m)\<rparr> in
            bindM (create_channel c) (\<lambda>stored.
              case cin_UseInferenceProfile inp of
                None \<Rightarrow> retM (channel_toView env stored)
              | Some b \<Rightarrow>
                  if ch_UseInferenceProfile stored \<noteq> b then
                    seqM (db_write (upd_channel (ch_ID stored) (\<lambda>x. x\<lparr>ch_UseInferenceProfile := b\<rparr>)))
                         (retM (channel_toView env (stored\<lparr>ch_UseInferenceProfile := b\<rparr>)))
                  else retM (channel_toView env stored))))"

definition ChannelService_Update :: "channel_env \<Rightarrow> nat \<Rightarrow> channel_input \<Rightarrow> channel_view db" where
  "ChannelService_Update env i inp =
     bindM (channel_getRaw i) (\<lambda>c.
       if (case cin_Type inp of None \<Rightarrow> False | Some t \<Rightarrow> \<not> validChannelType t)
       then failM (ErrInvalidChannel ''type must be openai, bedrock, or anthropic'')
       else if (case cin_Name inp of None \<Rightarrow> False | Some n \<Rightarrow> trim_space n = [])
       then failM (ErrInvalidChannel ''name cannot be empty'')
       else
         bindM (case cin_Key inp of None \<Rightarrow> retM (ch_Key c) | Some k \<Rightarrow> encryptM env k) (\<lambda>enc.
         let c' = (channel_applyInput inp c)\<lparr>ch_Key := enc\<rparr> in
         seqM (save_channel c') (retM (channel_toView env c'))))"

definition ChannelService_Delete :: "nat \<Rightarrow> unit db" where
  "ChannelService_Delete i = transaction (
     seqM (\<lambda>w. bindM (io ErrDB) (\<lambda>_ w.
       if list_ex (\<lambda>c. ch_ID c = i) (w_channels w)
       then (Inr (), w\<lparr>w_channels := filter (\<lambda>c. ch_ID c \<noteq> i) (w_channels w)\<rparr>)
       else (Inl ErrChannelNotFound, w)) w)
     (db_write (\<lambda>w. w\<lparr>w_prices := filter (\<lambda>p. price_ChannelID p \<noteq> i) (w_prices w)\<rparr>)))"

definition ChannelService_Get :: "channel_env \<Rightarrow> nat \<Rightarrow> channel_view db" where
  "ChannelService_Get env i = bindM (channel_getRaw i) (\<lambda>c. retM (channel_toView env c))"

definition ChannelService_List :: "channel_env \<Rightarrow> channel_view list db" where
  "ChannelService_List env = db_read (\<lambda>w. map (channel_toView env) (w_channels w))"

definition EnabledChannels :: "channel list db" where
  "EnabledChannels = db_read (\<lambda>w. filter (\<lambda>c. ch_Status c = ChannelEnabled) (w_channels w))"

section \<open>Model lists\<close>

definition service_snippet :: "string \<Rightarrow> string" where
  "service_snippet b =
     (let s = trim_space b in
      if length s > 300 then take 300 s @ [CHR 0xE2, CHR 0x80, CHR 0xA6]
      else if s = [] then ''(empty body)'' else s)"

definition maxServiceBody :: int where "maxServiceBody = 2097152"

definition bedrockBuiltinModels :: "string list" where
  "bedrockBuiltinModels =
     [''anthropic.claude-3-5-sonnet-20240620-v1:0'', ''anthropic.claude-3-5-sonnet-20241022-v2:0'',
      ''anthropic.claude-3-5-haiku-20241022-v1:0'', ''anthropic.claude-3-haiku-20240307-v1:0'',
      ''anthropic.claude-3-opus-20240229-v1:0'', ''us.anthropic.claude-3-5-sonnet-20241022-v2:0'',
      ''us.anthropic.claude-sonnet-4-20250514-v1:0'', ''us.anthropic.claude-opus-4-20250514-v1:0'',
      ''amazon.nova-pro-v1:0'', ''amazon.nova-lite-v1:0'', ''amazon.nova-micro-v1:0'',
      ''meta.llama3-1-70b-instruct-v1:0'', ''meta.llama3-1-8b-instruct-v1:0'', ''meta.llama3-3-70b-instruct-v1:0'']"

definition anthropicBuiltinModels :: "string list" where
  "anthropicBuiltinModels = [''claude-opus-4-8'', ''claude-sonnet-4-6'', ''claude-haiku-4-5'']"

definition dec_model_ids :: "string list decoder" where
  "dec_model_ids = dec_record [(''data'', dec_list [] (dec_record [(''id'', dec_str)]))]"

definition auth_header :: "string \<Rightarrow> (string \<times> string) list" where
  "auth_header key = key_header ''Authorization'' ''Bearer '' key"

definition tryOpenAIModelsURL :: "channel_env \<Rightarrow> string \<Rightarrow> string \<Rightarrow> (err + string list) \<times> int" where
  "tryOpenAIModelsURL env url key =
     (case ce_http env ''GET'' url (auth_header key) None of
        BadURL e \<Rightarrow> (Inl (ErrText e), 0)
      | NoResponse e \<Rightarrow> (Inl (ErrText (''request upstream models: '' @ e)), 0)
      | Fetched code _ full _ \<Rightarrow>
          let body = read_limited maxServiceBody full in
          if \<not> ok_status code then
            (Inl (ErrText (''upstream returned '' @ dec_int code @ '': '' @ service_snippet body)), code)
          else
            (case unmarshal dec_model_ids [] body of
               None \<Rightarrow> (Inl (ErrText (''parse models response: '' @ ce_jerr env body)), code)
             | Some ids \<Rightarrow> (Inr (filter (\<lambda>m. m \<noteq> []) ids), code)))"

definition trim_suffix :: "string \<Rightarrow> string \<Rightarrow> string" where
  "trim_suffix s suf = (if suffix suf s then take (length s - length suf) s else s)"

definition fetchOpenAIModels :: "channel_env \<Rightarrow> channel \<Rightarrow> err + string list" where
  "fetchOpenAIModels env ch =
     (let base = trim_slashes (ch_BaseURL ch) in
      if base = [] then Inl (ErrInvalidChannel ''base_url is required for openai channels'')
      else
        let root = trim_slashes (trim_suffix base ''/v1'') in
        (case channel_Decrypt env ch of
           Inl e \<Rightarrow> Inl (ErrText (''decrypt key: '' @ e))
         | Inr key \<Rightarrow>
             (case tryOpenAIModelsURL env (root @ ''/v1/models'') key of
                (Inr ids, _) \<Rightarrow> Inr ids
              | (Inl e, status) \<Rightarrow>
                  if status = 404 \<or> status = 400 then fst (tryOpenAIModelsURL env (root @ ''/models'') key)
                  else Inl e)))"

definition anthropicFallback :: string where
  "anthropicFallback = ''Anthropic /v1/models unavailable or credential rejected; ''
     @ ''falling back to the built-in Claude model list.''"

definition fetchAnthropicModels :: "channel_env \<Rightarrow> channel \<Rightarrow> string list \<times> string" where
  "fetchAnthropicModels env ch =
     (let base = trim_slashes (ch_BaseURL ch); fallback = (anthropicBuiltinModels, anthropicFallback) in
      if base = [] then
        (anthropicBuiltinModels, ''base_url is required to query Anthropic models; '' @ anthropicFallback)
      else
        (case channel_Decrypt env ch of
           Inl e \<Rightarrow> (anthropicBuiltinModels, ''could not decrypt channel key; '' @ anthropicFallback)
         | Inr key \<Rightarrow>
             (case ce_http env ''GET'' (base @ ''/v1/models'')
                 ([(''anthropic-version'', ''2023-06-01'')] @ key_header ''x-api-key'' [] key @ auth_header key) None of
                Fetched code _ full _ \<Rightarrow>
                  let body = read_limited maxServiceBody full in
                  if \<not> ok_status code then fallback
                  else
                    (case unmarshal dec_model_ids [] body of
                       None \<Rightarrow> fallback
                     | Some ids \<Rightarrow>
                         let out = filter (\<lambda>m. m \<noteq> []) ids in if out = [] then fallback else (out, []))
              | _ \<Rightarrow> fallback)))"

definition containsFold_TEXT :: "string list \<Rightarrow> bool" where
  "containsFold_TEXT items = list_ex (\<lambda>i. map lower_char i = ''text'') items"

definition bedrockFallback :: string where
  "bedrockFallback = ''Bedrock control plane unavailable or bearer credential not accepted for ''
     @ ''ListFoundationModels (it normally requires SigV4); falling back to the built-in model list.''"

definition dec_model_summaries :: "(string \<times> string list) list decoder" where
  "dec_model_summaries = dec_record [(''modelsummaries'', dec_list ([], []) (dec_record
     [(''modelid'', into fst (\<lambda>v r. (v, snd r)) dec_str),
      (''outputmodalities'', into snd (\<lambda>v r. (fst r, v)) (dec_list [] dec_str))]))]"

definition fetchBedrockModels :: "channel_env \<Rightarrow> channel \<Rightarrow> string list \<times> string" where
  "fetchBedrockModels env ch =
     (let fallback = (bedrockBuiltinModels, bedrockFallback) in
      if ch_Region ch = [] then
        (bedrockBuiltinModels, ''region is required to query the Bedrock control plane; '' @ bedrockFallback)
      else
        (case channel_Decrypt env ch of
           Inl e \<Rightarrow> fallback
         | Inr key \<Rightarrow>
             (case ce_http env ''GET'' (''https://bedrock.'' @ ch_Region ch @ ''.amazonaws.com/foundation-models'')
                 (auth_header key @ [(''Accept'', ''application/json'')]) None of
                Fetched code _ full _ \<Rightarrow>
                  let body = read_limited maxServiceBody full in
                  if \<not> ok_status code then
                    (bedrockBuiltinModels, ''Bedrock control plane returned '' @ dec_int code @ '': ''
                       @ service_snippet body @ ''; '' @ bedrockFallback)
                  else
                    (case unmarshal dec_model_summaries [] body of
                       None \<Rightarrow> fallback
                     | Some ms \<Rightarrow>
                         let out = map fst (filter (\<lambda>(i, mods). i \<noteq> [] \<and> \<not> (mods \<noteq> [] \<and> \<not> containsFold_TEXT mods)) ms) in
                         if out = [] then
                           (bedrockBuiltinModels, ''Bedrock control plane returned no usable text/multimodal models; ''
                              @ bedrockFallback)
                         else (out, []))
              | _ \<Rightarrow> fallback)))"

record fetch_result =
  fr_Models :: "string list"
  fr_Cached :: bool
  fr_Source :: string
  fr_Message :: string

definition persistModels :: "channel \<Rightarrow> string list \<Rightarrow> unit db" where
  "persistModels ch models =
     db_write_if (\<lambda>_. json_storable (toJSONArray models))
       (upd_channel (ch_ID ch) (\<lambda>c. c\<lparr>ch_Models := Some (toJSONArray models)\<rparr>))"

type_synonym model_cache = "string \<rightharpoonup> string"

definition model_cache_key :: "nat \<Rightarrow> string" where
  "model_cache_key i = ''channel:models:'' @ dec i"

text \<open>The cache is written on a best-effort basis.\<close>

definition cacheModels :: "string \<Rightarrow> string list \<Rightarrow> model_cache \<Rightarrow> model_cache db" where
  "cacheModels key models cache w =
     (if w_redis w = None then (Inr cache, w)
      else (case io ErrRedis w of
          (Inl _, w') \<Rightarrow> (Inr cache, w')
        | (Inr _, w') \<Rightarrow> (Inr (cache(key \<mapsto> marshal (toJSONArray models))), w')))"

text \<open>A cached list that is there, readable and not empty text.\<close>

definition read_cache :: "string \<Rightarrow> model_cache \<Rightarrow> string list option db" where
  "read_cache key cache w =
     (if w_redis w = None then (Inr None, w)
      else (case io ErrRedis w of
          (Inl _, w') \<Rightarrow> (Inr None, w')
        | (Inr _, w') \<Rightarrow>
            (Inr (case cache key of
                None \<Rightarrow> None
              | Some s \<Rightarrow> if s = [] then None else unmarshal (dec_list [] dec_str) [] s), w')))"

definition store_models ::
    "channel \<Rightarrow> string list \<Rightarrow> string \<Rightarrow> model_cache \<Rightarrow> (fetch_result \<times> model_cache) db" where
  "store_models ch models msg cache =
     seqM (persistModels ch models)
       (bindM (cacheModels (model_cache_key (ch_ID ch)) models cache) (\<lambda>cache'.
          retM (\<lparr>fr_Models = models, fr_Cached = False,
            fr_Source = (if msg \<noteq> [] then ''builtin'' else ''upstream''), fr_Message = msg\<rparr>, cache')))"

definition FetchModels :: "channel_env \<Rightarrow> nat \<Rightarrow> bool \<Rightarrow> model_cache \<Rightarrow> (fetch_result \<times> model_cache) db" where
  "FetchModels env i refresh cache =
     bindM (channel_getRaw i) (\<lambda>ch.
     bindM (if refresh then retM None else read_cache (model_cache_key (ch_ID ch)) cache) (\<lambda>cached.
       case cached of
         Some models \<Rightarrow>
           retM (\<lparr>fr_Models = models, fr_Cached = True, fr_Source = ''cache'', fr_Message = []\<rparr>, cache)
       | None \<Rightarrow>
           if ch_Type ch = ChannelBedrock then
             (let (models, msg) = fetchBedrockModels env ch in store_models ch models msg cache)
           else if ch_Type ch = ChannelAnthropic then
             (let (models, msg) = fetchAnthropicModels env ch in store_models ch models msg cache)
           else
             (case fetchOpenAIModels env ch of
                Inl e \<Rightarrow> failM e
              | Inr models \<Rightarrow> store_models ch models [] cache)))"

section \<open>Connectivity test\<close>

definition pickTestModel :: "channel \<Rightarrow> string \<Rightarrow> string" where
  "pickTestModel ch fallback =
     (case (case ch_Models ch of None \<Rightarrow> [] | Some j \<Rightarrow> unmarshal_strs j) of m # _ \<Rightarrow> m | [] \<Rightarrow> fallback)"

text \<open>A POST that counts as a success if the answer is a 2xx: the text of the failure otherwise.\<close>

definition test_post :: "channel_env \<Rightarrow> string \<Rightarrow> string \<Rightarrow> string \<Rightarrow> (string \<times> string) list \<Rightarrow> json \<Rightarrow> string option" where
  "test_post env what who url hdrs body =
     (case ce_http env ''POST'' url hdrs (Some body) of
        BadURL e \<Rightarrow> Some e
      | NoResponse e \<Rightarrow> Some (''connect '' @ what @ '': '' @ e)
      | Fetched code _ full _ \<Rightarrow>
          if \<not> ok_status code then
            Some (who @ '' returned '' @ dec_int code @ '': '' @ service_snippet (read_limited maxServiceBody full))
          else None)"

definition ping_messages :: json where
  "ping_messages = JArr [JObj [(''content'', JStr ''ping''), (''role'', JStr ''user'')]]"

definition testOpenAI :: "channel_env \<Rightarrow> channel \<Rightarrow> string \<Rightarrow> string option" where
  "testOpenAI env ch key =
     (let base = trim_slashes (ch_BaseURL ch) in
      if base = [] then Some ''base_url is required for openai channels''
      else test_post env ''upstream'' ''upstream'' (base @ ''/v1/chat/completions'')
        ([(''Content-Type'', ''application/json'')] @ auth_header key)
        (JObj [(''max_tokens'', JInt 1), (''messages'', ping_messages),
               (''model'', JStr (pickTestModel ch ''gpt-3.5-turbo''))]))"

definition testBedrock :: "channel_env \<Rightarrow> channel \<Rightarrow> string \<Rightarrow> string option" where
  "testBedrock env ch key =
     (if ch_Region ch = [] then Some ''region is required for bedrock channels''
      else test_post env ''bedrock runtime'' ''bedrock''
        (bedrockEndpoint (ch_Region ch) (pickTestModel ch ''anthropic.claude-3-5-sonnet-20240620-v1:0'') False)
        ([(''Content-Type'', ''application/json'')] @ auth_header key)
        (JObj [(''inferenceConfig'', JObj [(''maxTokens'', JInt 1)]),
               (''messages'', JArr [JObj [(''content'', JArr [text_member ''ping'']), (''role'', JStr ''user'')]])]))"

definition testAnthropic :: "channel_env \<Rightarrow> channel \<Rightarrow> string \<Rightarrow> string option" where
  "testAnthropic env ch key =
     (let base = trim_slashes (ch_BaseURL ch) in
      if base = [] then Some ''base_url is required for anthropic channels''
      else test_post env ''upstream'' ''upstream'' (base @ ''/v1/messages'')
        ([(''Content-Type'', ''application/json''), (''anthropic-version'', ''2023-06-01'')] @ key_header ''x-api-key'' [] key)
        (JObj [(''max_tokens'', JInt 1), (''messages'', ping_messages),
               (''model'', JStr (pickTestModel ch ''claude-opus-4-8''))]))"

record test_result =
  tst_Success :: bool
  tst_Message :: string

definition TestChannel :: "channel_env \<Rightarrow> nat \<Rightarrow> test_result db" where
  "TestChannel env i =
     bindM (channel_getRaw i) (\<lambda>ch.
       case channel_Decrypt env ch of
         Inl e \<Rightarrow> failM (ErrText (''decrypt key: '' @ e))
       | Inr key \<Rightarrow>
           retM (case (if ch_Type ch = ChannelOpenAI then testOpenAI env ch key
                       else if ch_Type ch = ChannelBedrock then testBedrock env ch key
                       else if ch_Type ch = ChannelAnthropic then testAnthropic env ch key
                       else Some (''unsupported channel type '' @ ce_quote env (ch_Type ch))) of
                   None \<Rightarrow> \<lparr>tst_Success = True, tst_Message = ''ok''\<rparr>
                 | Some e \<Rightarrow> \<lparr>tst_Success = False, tst_Message = e\<rparr>))"

section \<open>A sound channel table\<close>

text \<open>
  Ids are unique, types are known, groups are not empty, and every stored key can be decrypted with
  the server's secret.
\<close>

definition sound_channel :: "string \<Rightarrow> channel \<Rightarrow> bool" where
  "sound_channel secret c \<longleftrightarrow> validChannelType (ch_Type c) \<and> ch_Group c \<noteq> []
     \<and> (case Decrypt (\<lambda>_. []) secret (ch_Key c) of Inl _ \<Rightarrow> False | Inr _ \<Rightarrow> True)"

definition channels_ok :: "string \<Rightarrow> world \<Rightarrow> bool" where
  "channels_ok secret w \<longleftrightarrow> distinct (map ch_ID (w_channels w))
     \<and> list_all (\<lambda>c. ch_ID c < w_seq w seq_channels) (w_channels w)
     \<and> list_all (sound_channel secret) (w_channels w)"

definition keeps_channels :: "string \<Rightarrow> world \<Rightarrow> world \<Rightarrow> bool" where
  "keeps_channels secret w w' \<longleftrightarrow>
     w_seq w seq_channels \<le> w_seq w' seq_channels \<and> (channels_ok secret w \<longrightarrow> channels_ok secret w')"

interpretation chn: kept "keeps_channels secret" for secret
proof
  show "same_data w w' \<Longrightarrow> keeps_channels secret w w'" for w w'
    by (simp add: keeps_channels_def channels_ok_def same_dataD)
  show "keeps_channels secret w v \<Longrightarrow> keeps_channels secret w (w\<lparr>w_faults := w_faults v, w_seq := w_seq v\<rparr>)" for w v
    by (auto simp: keeps_channels_def channels_ok_def elim!: list.pred_mono_strong)
qed (simp add: keeps_channels_def)

lemma Decrypt_badb64:
  "(case Decrypt f secret c of Inl _ \<Rightarrow> False | Inr _ \<Rightarrow> True) = (case Decrypt g secret c of Inl _ \<Rightarrow> False | Inr _ \<Rightarrow> True)"
  "Decrypt f secret c = Inr p \<longleftrightarrow> Decrypt g secret c = Inr p"
  by (simp_all add: Decrypt_def split: option.split)

lemma sound_channelI:
  assumes "validChannelType (ch_Type c)" "ch_Group c \<noteq> []" "Decrypt f secret (ch_Key c) = Inr p"
  shows "sound_channel secret c"
  using assms Decrypt_badb64(2) [of f secret "ch_Key c" p "\<lambda>_. []"] by (simp add: sound_channel_def)

lemma set_field_skip:
  "(\<And>v c. ch_ID (f v c) = ch_ID c) \<Longrightarrow> ch_ID (set_field x f c) = ch_ID c"
  "(\<And>v c. ch_Key (f v c) = ch_Key c) \<Longrightarrow> ch_Key (set_field x f c) = ch_Key c"
  "(\<And>v c. ch_Type (f v c) = ch_Type c) \<Longrightarrow> ch_Type (set_field x f c) = ch_Type c"
  "(\<And>v c. ch_Group (f v c) = ch_Group c) \<Longrightarrow> ch_Group (set_field x f c) = ch_Group c"
  "(\<And>v c. ch_UseInferenceProfile (f v c) = ch_UseInferenceProfile c) \<Longrightarrow>
     ch_UseInferenceProfile (set_field x f c) = ch_UseInferenceProfile c"
  "(\<And>v c. ch_AutoCacheSystem (f v c) = ch_AutoCacheSystem c) \<Longrightarrow>
     ch_AutoCacheSystem (set_field x f c) = ch_AutoCacheSystem c"
  by (simp_all add: set_field_def split: option.split)

lemma set_field_sel:
  "ch_Type (set_field t (\<lambda>t c. c\<lparr>ch_Type := t\<rparr>) c) = (case t of None \<Rightarrow> ch_Type c | Some t \<Rightarrow> t)"
  "ch_Group (set_field g (\<lambda>g c. c\<lparr>ch_Group := h g\<rparr>) c) = (case g of None \<Rightarrow> ch_Group c | Some g \<Rightarrow> h g)"
  "ch_UseInferenceProfile (set_field b (\<lambda>b c. c\<lparr>ch_UseInferenceProfile := b\<rparr>) c) =
     (case b of None \<Rightarrow> ch_UseInferenceProfile c | Some b \<Rightarrow> b)"
  "ch_AutoCacheSystem (set_field b (\<lambda>b c. c\<lparr>ch_AutoCacheSystem := b\<rparr>) c) =
     (case b of None \<Rightarrow> ch_AutoCacheSystem c | Some b \<Rightarrow> b)"
  by (simp_all add: set_field_def split: option.split)

lemma channel_applyInput_sel [simp]:
  "ch_ID (channel_applyInput inp c) = ch_ID c" "ch_Key (channel_applyInput inp c) = ch_Key c"
  "ch_Type (channel_applyInput inp c) = (case cin_Type inp of None \<Rightarrow> ch_Type c | Some t \<Rightarrow> t)"
  "ch_Group (channel_applyInput inp c) = (case cin_Group inp of None \<Rightarrow> ch_Group c
     | Some g \<Rightarrow> if trim_space g = [] then ''default'' else trim_space g)"
  "ch_UseInferenceProfile (channel_applyInput inp c) =
     (case cin_UseInferenceProfile inp of None \<Rightarrow> ch_UseInferenceProfile c | Some b \<Rightarrow> b)"
  "ch_AutoCacheSystem (channel_applyInput inp c) =
     (case cin_AutoCacheSystem inp of None \<Rightarrow> ch_AutoCacheSystem c | Some b \<Rightarrow> b)"
  by (simp_all add: channel_applyInput_def set_field_skip set_field_sel cong: option.case_cong)

lemma gorm_channel_defaults_sel [simp]:
  "ch_ID (gorm_channel_defaults c) = ch_ID c" "ch_Key (gorm_channel_defaults c) = ch_Key c"
  "ch_Type (gorm_channel_defaults c) = ch_Type c"
  "ch_UseInferenceProfile (gorm_channel_defaults c) = True"
  "ch_Group c \<noteq> [] \<Longrightarrow> ch_Group (gorm_channel_defaults c) = ch_Group c"
  by (simp_all add: gorm_channel_defaults_def)

text \<open>The random source: a nonce has the right size, when there is one.\<close>

definition env_ok :: "channel_env \<Rightarrow> bool" where
  "env_ok env \<longleftrightarrow> (case ce_nonce env of None \<Rightarrow> True | Some n \<Rightarrow> length n = nonce_size)"

lemma encryptM_cases:
  assumes "encryptM env plain w = (res, w')" "env_ok env"
  shows "w' = w" "case res of Inl _ \<Rightarrow> True | Inr c \<Rightarrow> Decrypt f (ce_secret env) c = Inr plain"
  using assms Decrypt_Encrypt [of "ce_secret env" "ce_nonce env" plain _ f]
  by (auto simp: encryptM_def env_ok_def split: option.splits)

lemma upd_channel_keeps:
  assumes "\<And>c. ch_ID c = i \<Longrightarrow> ch_ID (f c) = i" "\<And>c. sound_channel secret c \<Longrightarrow> sound_channel secret (f c)"
  shows "keeps_channels secret w (upd_channel i f w)"
proof -
  have ids: "map ch_ID (w_channels (upd_channel i f w)) = map ch_ID (w_channels w)"
    using assms(1) by (auto simp: upd_channel_def)
  have seq: "list_all (\<lambda>c. ch_ID c < n) cs \<longleftrightarrow> list_all (\<lambda>i. i < n) (map ch_ID cs)" for n cs
    by (simp add: list.pred_map comp_def)
  have "list_all (sound_channel secret) (w_channels w) \<Longrightarrow> list_all (sound_channel secret) (w_channels (upd_channel i f w))"
    using assms(2) by (auto simp: upd_channel_def list_all_iff)
  moreover have "w_seq (upd_channel i f w) = w_seq w" by (simp add: upd_channel_def)
  ultimately show ?thesis unfolding keeps_channels_def channels_ok_def seq ids by simp
qed

lemma create_channel_keeps:
  assumes "sound_channel secret c"
  shows "keeps_channels secret w (snd (create_channel c w))"
proof (cases rule: io_cases [of ErrDB w])
  case (ok fs)
  have "sound_channel secret ((gorm_channel_defaults c)\<lparr>ch_ID := i\<rparr>)" for i
    using assms by (auto simp: sound_channel_def gorm_channel_defaults_def)
  with ok show ?thesis
    by (fastforce simp: create_channel_def bindM_def Let_def keeps_channels_def channels_ok_def list_all_iff less_Suc_eq)
next
  case (fail fs)
  then show ?thesis by (simp add: create_channel_def bindM_def keeps_channels_def channels_ok_def)
qed

lemma create_channel_ok:
  assumes "create_channel c w = (Inr s, w')"
  shows "s = (gorm_channel_defaults c)\<lparr>ch_ID := w_seq w seq_channels\<rparr>" "w_channels w' = w_channels w @ [s]"
  using assms by (cases rule: io_cases [of ErrDB w]; auto simp: create_channel_def bindM_def Let_def split: if_splits)+

lemma ChannelService_Create_keeps:
  assumes "env_ok env"
  shows "keeps_channels (ce_secret env) w (snd (ChannelService_Create env inp w))"
proof -
  let ?R = "\<lambda>w. keeps_channels (ce_secret env) w"
  define build where "build enc = (let c = (channel_applyInput inp new_channel)\<lparr>ch_Key := enc\<rparr> in
      c\<lparr>ch_Models := (case ch_Models c of None \<Rightarrow> Some (JArr []) | m \<Rightarrow> m)\<rparr>)" for enc
  define finish where "finish = (\<lambda>stored. case cin_UseInferenceProfile inp of
        None \<Rightarrow> retM (channel_toView env stored)
      | Some b \<Rightarrow>
          if ch_UseInferenceProfile stored \<noteq> b then
            seqM (db_write (upd_channel (ch_ID stored) (\<lambda>x. x\<lparr>ch_UseInferenceProfile := b\<rparr>)))
                 (retM (channel_toView env (stored\<lparr>ch_UseInferenceProfile := b\<rparr>)))
          else retM (channel_toView env stored))"
  have fin: "?R v (snd (finish stored v))" for stored v
    unfolding finish_def
    by (intro chn.rules chn.stores upd_channel_keeps) (simp_all add: sound_channel_def)
  have create: "?R v (snd (bindM (create_channel (build enc)) finish v))"
    if "cin_Type inp = Some t" "validChannelType t" "Decrypt f (ce_secret env) enc = Inr p" for v enc t f p
  proof -
    have "sound_channel (ce_secret env) (build enc)"
      using that by (intro sound_channelI [where f = f and p = p])
        (auto simp: build_def Let_def new_channel_def split: option.split)
    then show ?thesis by (intro chn.bind create_channel_keeps fin)
  qed
  show ?thesis
  proof (cases "case cin_Name inp of None \<Rightarrow> True | Some n \<Rightarrow> trim_space n = []")
    case True
    then show ?thesis by (simp add: ChannelService_Create_def chn.data)
  next
    case False
    show ?thesis
    proof (cases "\<exists>t. cin_Type inp = Some t \<and> validChannelType t")
      case True
      then obtain t where t: "cin_Type inp = Some t" "validChannelType t" by blast
      obtain res v where e: "encryptM env (case cin_Key inp of None \<Rightarrow> [] | Some k \<Rightarrow> k) w = (res, v)" by fastforce
      note enc = encryptM_cases [OF e assms]
      have run: "ChannelService_Create env inp w = bindM (encryptM env (case cin_Key inp of None \<Rightarrow> [] | Some k \<Rightarrow> k))
          (\<lambda>enc. bindM (create_channel (build enc)) finish) w"
        using False t by (simp add: ChannelService_Create_def build_def finish_def Let_def)
      show ?thesis
        unfolding run using e enc create [OF t, of "\<lambda>_. []"] chn.data
        by (cases res) (auto simp: bindM_def)
    next
      case False
      then show ?thesis
        by (auto simp: ChannelService_Create_def chn.data split: option.split)
    qed
  qed
qed

lemma find_channel_in: "find_channel i w = Some c \<Longrightarrow> c \<in> set (w_channels w) \<and> ch_ID c = i"
  by (auto simp: find_channel_def find_Some_iff)

lemma find_channel_data: "same_data w w' \<Longrightarrow> find_channel i w' = find_channel i w"
  by (simp add: find_channel_def same_dataD)

lemma channel_getRaw_cases:
  assumes "channel_getRaw i w = (res, w')"
  shows "same_data w w'" "case res of Inl _ \<Rightarrow> True | Inr c \<Rightarrow> find_channel i w = Some c"
  using assms by (cases rule: io_cases [of ErrDB w];
    auto simp: channel_getRaw_def db_read_def bindM_def find_channel_def split: option.splits)+

lemma save_channel_keeps:
  assumes "sound_channel secret c"
  shows "keeps_channels secret w (snd (save_channel c w))"
  unfolding save_channel_def by (intro chn.write_if upd_channel_keeps) (use assms in simp_all)

lemma ChannelService_Update_keeps:
  assumes "env_ok env" "channels_ok (ce_secret env) w"
  shows "channels_ok (ce_secret env) (snd (ChannelService_Update env i inp w))"
proof -
  let ?s = "ce_secret env"
  obtain x v where g: "channel_getRaw i w = (x, v)" by fastforce
  note v = channel_getRaw_cases [OF g]
  have ok: "channels_ok ?s v" using assms(2) v(1) by (simp add: channels_ok_def same_dataD)
  show ?thesis
  proof (cases x)
    case (Inl e)
    with g ok show ?thesis by (simp add: ChannelService_Update_def bindM_def)
  next
    case (Inr c)
    with v(2) have "c \<in> set (w_channels w)" by (auto dest: find_channel_in)
    with assms(2) have c: "sound_channel ?s c" by (simp add: channels_ok_def list_all_iff)
    define encr where "encr = (case cin_Key inp of None \<Rightarrow> retM (ch_Key c) | Some k \<Rightarrow> encryptM env k)"
    define save where "save = (\<lambda>enc. let c' = (channel_applyInput inp c)\<lparr>ch_Key := enc\<rparr> in
        seqM (save_channel c') (retM (channel_toView env c')))"
    have "channels_ok ?s (snd (bindM encr save v))"
      if t: "case cin_Type inp of None \<Rightarrow> True | Some t \<Rightarrow> validChannelType t"
    proof -
      obtain res u where e: "encr v = (res, u)" by fastforce
      have u: "u = v" and res: "\<And>enc. res = Inr enc \<Longrightarrow> \<exists>p. Decrypt (\<lambda>_. []) ?s enc = Inr p"
      proof -
        have "u = v \<and> (\<forall>enc. res = Inr enc \<longrightarrow> (\<exists>p. Decrypt (\<lambda>_. []) ?s enc = Inr p))"
        proof (cases "cin_Key inp")
          case None
          with e c show ?thesis by (auto simp: encr_def sound_channel_def split: sum.splits)
        next
          case (Some k)
          then have "encryptM env k v = (res, u)" using e by (simp add: encr_def)
          from encryptM_cases(1) [OF this assms(1)] encryptM_cases(2) [OF this assms(1), of "\<lambda>_. []"]
          show ?thesis by auto
        qed
        then show "u = v" "\<And>enc. res = Inr enc \<Longrightarrow> \<exists>p. Decrypt (\<lambda>_. []) ?s enc = Inr p" by auto
      qed
      show ?thesis
      proof (cases res)
        case (Inr enc)
        then obtain p where p: "Decrypt (\<lambda>_. []) ?s enc = Inr p" using res by blast
        have "sound_channel ?s ((channel_applyInput inp c)\<lparr>ch_Key := enc\<rparr>)"
          using p t c by (intro sound_channelI [where f = "\<lambda>_. []" and p = p]) (auto simp: sound_channel_def split: option.splits)
        then have "keeps_channels ?s v (snd (save enc v))"
          unfolding save_def Let_def by (intro chn.rules save_channel_keeps)
        with e u Inr ok show ?thesis by (simp add: bindM_def keeps_channels_def)
      qed (use e u ok in \<open>simp add: bindM_def\<close>)
    qed
    then show ?thesis
      using g ok Inr by (auto simp: ChannelService_Update_def bindM_def [of "channel_getRaw i"] encr_def save_def split: option.split)
  qed
qed

lemma ChannelService_Delete_keeps: "keeps_channels secret w (snd (ChannelService_Delete i w))"
proof -
  have "keeps_channels secret v (v\<lparr>w_channels := filter P (w_channels v)\<rparr>)"
    "keeps_channels secret v (v\<lparr>w_prices := ps\<rparr>)" for v P ps
    by (auto simp: keeps_channels_def channels_ok_def list_all_iff distinct_map_filter)
  then show ?thesis
    unfolding ChannelService_Delete_def by (intro chn.atomic chn.seqn chn.stores chn.bind chn.call) (simp_all add: chn.data)
qed

lemma store_models_keeps: "keeps_channels secret w (snd (store_models ch models msg cache w))"
proof -
  have "keeps_channels secret v (snd (cacheModels key models c v))" for v key c
    using chn.data io_data by (auto simp: cacheModels_def split: prod.split sum.split)
  then show ?thesis
    unfolding store_models_def persistModels_def
    by (intro chn.rules chn.write_if upd_channel_keeps) (simp_all add: sound_channel_def)
qed

lemma FetchModels_keeps: "keeps_channels secret w (snd (FetchModels env i refresh cache w))"
proof -
  have "keeps_channels secret v (snd (read_cache key c v))" for v key c
    using chn.data io_data by (auto simp: read_cache_def split: prod.split sum.split)
  moreover have "keeps_channels secret v (snd (channel_getRaw i v))" for v
    using channel_getRaw_cases(1) chn.data by (metis prod.collapse)
  ultimately show ?thesis
    unfolding FetchModels_def case_prod_beta Let_def
    by (intro chn.rules store_models_keeps)
qed

datatype channel_op =
    CreateChannel channel_input
  | UpdateChannel nat channel_input
  | DeleteChannel nat
  | RefreshModels nat bool model_cache

text \<open>Every operation has an environment of its own (a fresh nonce, the providers' answers).\<close>

definition channel_step :: "channel_env \<times> channel_op \<Rightarrow> world \<Rightarrow> world" where
  "channel_step eop w =
     (case snd eop of
        CreateChannel inp \<Rightarrow> snd (ChannelService_Create (fst eop) inp w)
      | UpdateChannel i inp \<Rightarrow> snd (ChannelService_Update (fst eop) i inp w)
      | DeleteChannel i \<Rightarrow> snd (ChannelService_Delete i w)
      | RefreshModels i refresh cache \<Rightarrow> snd (FetchModels (fst eop) i refresh cache w))"

text \<open>
  C35. Whatever channel operations are run, and whatever calls fail, the table stays sound: unique
  ids, known types, non-empty groups, and only keys the server can decrypt.
\<close>

theorem channel_table_sound:
  assumes "channels_ok secret w" and "list_all (\<lambda>(env, _). ce_secret env = secret \<and> env_ok env) ops"
  shows "channels_ok secret (fold channel_step ops w)"
  using assms
proof (induction ops arbitrary: w)
  case (Cons eop ops)
  obtain env op where eop: "eop = (env, op)" by fastforce
  then have env: "ce_secret env = secret" "env_ok env" using Cons.prems(2) by simp_all
  have "channels_ok secret (channel_step eop w)"
  proof (cases op)
    case (CreateChannel inp)
    with ChannelService_Create_keeps [OF env(2)] env(1) Cons.prems(1) eop show ?thesis
      by (auto simp: channel_step_def keeps_channels_def)
  next
    case (UpdateChannel i inp)
    with ChannelService_Update_keeps [OF env(2)] env(1) Cons.prems(1) eop show ?thesis
      by (auto simp: channel_step_def)
  next
    case (DeleteChannel i)
    with ChannelService_Delete_keeps Cons.prems(1) eop show ?thesis
      by (auto simp: channel_step_def keeps_channels_def)
  next
    case (RefreshModels i refresh cache)
    with FetchModels_keeps Cons.prems(1) eop show ?thesis
      by (auto simp: channel_step_def keeps_channels_def)
  qed
  with Cons show ?case by (simp add: eop)
qed simp

lemma encryptM_Inr:
  "encryptM env plain w = (Inr enc, w') \<Longrightarrow> env_ok env \<Longrightarrow> w' = w \<and> Decrypt f (ce_secret env) enc = Inr plain"
  using encryptM_cases(1) encryptM_cases(2) [of env plain w "Inr enc" w' f] by fastforce

lemma fresh_id:
  "channels_ok secret w \<Longrightarrow> c \<in> set (w_channels w) \<Longrightarrow> ch_ID c \<noteq> w_seq w seq_channels"
  by (auto simp: channels_ok_def list_all_iff)

text \<open>The part of \<open>Create\<close> after the insertion.\<close>

lemma create_finish:
  assumes "(case b of None \<Rightarrow> retM (channel_toView env s)
      | Some u \<Rightarrow>
          if ch_UseInferenceProfile s \<noteq> u then
            seqM (db_write (upd_channel (ch_ID s) (\<lambda>x. x\<lparr>ch_UseInferenceProfile := u\<rparr>)))
                 (retM (channel_toView env (s\<lparr>ch_UseInferenceProfile := u\<rparr>)))
          else retM (channel_toView env s)) v = (Inr view, w')"
    and "w_channels v = cs @ [s]" "\<And>c. c \<in> set cs \<Longrightarrow> ch_ID c \<noteq> ch_ID s" "ch_UseInferenceProfile s"
  shows "\<exists>c. w_channels w' = cs @ [c] \<and> view = channel_toView env c
    \<and> c = s\<lparr>ch_UseInferenceProfile := (case b of None \<Rightarrow> True | Some u \<Rightarrow> u)\<rparr>"
proof (cases "b = Some False")
  case True
  have rows: "map (\<lambda>c. if ch_ID c = ch_ID s then c\<lparr>ch_UseInferenceProfile := False\<rparr> else c) cs = cs"
    using assms(3) by (intro map_idI) auto
  show ?thesis
  proof (cases rule: io_cases [of ErrDB v])
    case (ok fs)
    with True assms(1,4) have w': "w' = upd_channel (ch_ID s) (\<lambda>x. x\<lparr>ch_UseInferenceProfile := False\<rparr>) (v\<lparr>w_faults := fs\<rparr>)"
      and view: "view = channel_toView env (s\<lparr>ch_UseInferenceProfile := False\<rparr>)"
      by (auto simp: seqM_def bindM_def db_write_def)
    have "w_channels w' = cs @ [s\<lparr>ch_UseInferenceProfile := False\<rparr>]"
      using rows by (simp add: w' upd_channel_def assms(2))
    with view True show ?thesis by auto
  qed (use True assms(1,4) in \<open>auto simp: seqM_def bindM_def db_write_def\<close>)
next
  case False
  have "s = s\<lparr>ch_UseInferenceProfile := True\<rparr>" using assms(4) by (cases s) simp
  with False assms show ?thesis by (cases b) auto
qed

text \<open>
  C36. A channel's key survives storage and stays secret: a created channel is one new row, with the flags
  asked for, whose encrypted key decrypts to the key that was given; what the operation returns shows the row
  without its key and a mask of at most eight of its characters; and the OpenAI adapter sends exactly
  that key, and only in its \<open>Authorization\<close> header.
\<close>

theorem channel_key_roundtrip:
  assumes "ChannelService_Create env inp w = (Inr view, w')" and "env_ok env" and "channels_ok (ce_secret env) w"
    and "cin_Key inp = Some key" and "key \<noteq> []"
  shows "\<exists>c. w_channels w' = w_channels w @ [c] \<and> channel_Decrypt env c = Inr key
    \<and> ch_UseInferenceProfile c = (case cin_UseInferenceProfile inp of None \<Rightarrow> True | Some b \<Rightarrow> b)
    \<and> ch_AutoCacheSystem c = (case cin_AutoCacheSystem inp of None \<Rightarrow> True | Some b \<Rightarrow> b)
    \<and> cv_Channel view = c\<lparr>ch_Key := []\<rparr> \<and> cv_KeyMasked view = Mask key
    \<and> (case openai_BuildRequest co (channel_Decrypt env) uni c of
         Inl _ \<Rightarrow> True
       | Inr req \<Rightarrow> uq_Body req = openai_body uni
           \<and> filter (\<lambda>(name, _). name \<noteq> ''Content-Type'' \<and> name \<noteq> ''Accept'') (uq_Headers req)
             = [(''Authorization'', ''Bearer '' @ key)])"
proof -
  define build where "build enc = (let c = (channel_applyInput inp new_channel)\<lparr>ch_Key := enc\<rparr> in
      c\<lparr>ch_Models := (case ch_Models c of None \<Rightarrow> Some (JArr []) | m \<Rightarrow> m)\<rparr>)" for enc
  from assms(1) obtain enc v s u where e: "encryptM env key w = (Inr enc, v)"
    and c: "create_channel (build enc) v = (Inr s, u)"
    and fin: "(case cin_UseInferenceProfile inp of None \<Rightarrow> retM (channel_toView env s)
      | Some b \<Rightarrow>
          if ch_UseInferenceProfile s \<noteq> b then
            seqM (db_write (upd_channel (ch_ID s) (\<lambda>x. x\<lparr>ch_UseInferenceProfile := b\<rparr>)))
                 (retM (channel_toView env (s\<lparr>ch_UseInferenceProfile := b\<rparr>)))
          else retM (channel_toView env s)) u = (Inr view, w')"
    by (auto simp: ChannelService_Create_def assms(4) build_def Let_def elim!: bindM_InrE split: if_splits option.splits)
  have enc: "v = w" "\<And>f. Decrypt f (ce_secret env) enc = Inr key"
    using encryptM_Inr [OF e assms(2)] by auto
  then have ne: "enc \<noteq> []" using assms(5) by (auto simp: Decrypt_def)
  note s = create_channel_ok [OF c [unfolded enc(1)]]
  have "ch_UseInferenceProfile s" "ch_Key s = enc" "ch_ID s = w_seq w seq_channels"
    "ch_AutoCacheSystem s = (case cin_AutoCacheSystem inp of None \<Rightarrow> True | Some b \<Rightarrow> b)"
    by (simp_all add: s(1) build_def Let_def new_channel_def gorm_channel_defaults_def split: option.split)
  then obtain r where r: "w_channels w' = w_channels w @ [r]" "view = channel_toView env r"
    "r = s\<lparr>ch_UseInferenceProfile := (case cin_UseInferenceProfile inp of None \<Rightarrow> True | Some u \<Rightarrow> u)\<rparr>" "ch_Key s = enc"
    "ch_AutoCacheSystem s = (case cin_AutoCacheSystem inp of None \<Rightarrow> True | Some b \<Rightarrow> b)"
    using create_finish [OF fin s(2)] fresh_id [OF assms(3)] by metis
  have d: "channel_Decrypt env r = Inr key" using r enc by (simp add: channel_Decrypt_def)
  moreover have "case openai_BuildRequest co (channel_Decrypt env) uni r of Inl _ \<Rightarrow> True
       | Inr req \<Rightarrow> uq_Body req = openai_body uni
           \<and> filter (\<lambda>(name, _). name \<noteq> ''Content-Type'' \<and> name \<noteq> ''Accept'') (uq_Headers req)
             = [(''Authorization'', ''Bearer '' @ key)]"
    using d assms(5)
    by (simp add: openai_BuildRequest_def finish_request_def key_header_def Let_def split: option.split)
  ultimately show ?thesis
    using r ne d by (intro exI [of _ r]) (simp add: channel_toView_def)
qed


text \<open>Base64 text is ASCII, so that an encrypted key can always be stored.\<close>

lemma ascii_valid_text:
  "list_all (\<lambda>c. c \<noteq> CHR 0x00 \<and> (of_char c :: nat) < 128) s \<Longrightarrow> valid_text s"
proof (induction s)
  case Nil
  then show ?case by (simp add: valid_text_def utf8_coerce_def unrunes_def runes.simps)
next
  case (Cons c s)
  then have c: "c \<noteq> CHR 0x00" "(of_char c :: nat) < 128" and s: "valid_text s" by simp_all
  have "runes (c # s) = of_char c # runes s"
    using c by (subst runes.simps) (simp add: decode_rune_def)
  with c s show ?case by (simp add: valid_text_def utf8_coerce_def unrunes_def encode_rune_def)
qed

lemma b64_char_ascii: "n < 64 \<Longrightarrow> b64_char n \<noteq> CHR 0x00 \<and> (of_char (b64_char n) :: nat) < 128"
  using of_char_b64 [of n] b64_val_char [of n] by (auto simp: b64_val_def)

lemma b64_encode_ascii: "list_all (\<lambda>c. c \<noteq> CHR 0x00 \<and> (of_char c :: nat) < 128) (b64_encode s)"
proof (induction s rule: b64_encode.induct)
  case (1 a b c r)
  then show ?case by (cases rule: sextets_split [of a b c]) (simp add: b64_char_ascii)
next
  case (2 a b)
  then show ?case by (cases rule: sextets_split [of a b "CHR 0x00"]) (simp add: b64_char_ascii)
next
  case (3 a)
  then show ?case by (cases rule: sextets_split [of a "CHR 0x00" "CHR 0x00"]) (simp add: b64_char_ascii)
qed simp

lemma Encrypt_storable: "Encrypt secret nonce p = Some c \<Longrightarrow> valid_text c"
  using b64_encode_ascii by (auto simp: Encrypt_def ascii_valid_text split: if_splits option.splits)

definition sample_channel_env :: channel_env where
  "sample_channel_env =
     \<lparr>ce_secret = ''server'', ce_nonce = Some (replicate 12 0), ce_badb64 = (\<lambda>_. []), ce_jerr = (\<lambda>_. []),
      ce_quote = (\<lambda>s. s), ce_http = (\<lambda>_ _ _ _. NoResponse ''refused'')\<rparr>"

definition sample_channel_input :: channel_input where
  "sample_channel_input =
     \<lparr>cin_Name = Some ''main'', cin_Type = Some ''openai'', cin_BaseURL = Some ''https://up/'', cin_Key = Some ''sk-live-0123456789'',
      cin_Region = None, cin_Models = None, cin_ModelMapping = None, cin_Group = None, cin_Priority = None,
      cin_Weight = None, cin_Status = None, cin_UseInferenceProfile = Some False, cin_AutoCacheSystem = None\<rparr>"

definition sample_channel :: "string \<Rightarrow> channel" where
  "sample_channel enc = (channel_applyInput sample_channel_input new_channel)\<lparr>ch_Key := enc, ch_Models := Some (JArr [])\<rparr>"

definition channel_world :: world where
  "channel_world =
     \<lparr>w_users = [], w_tokens = [], w_channels = [], w_rules = [], w_prices = [], w_options = Map.empty, w_logs = [],
      w_seq = (\<lambda>_. 1), w_redis = None, w_dirtyTokens = [], w_dirtyUsers = [], w_faults = [], w_now = 5\<rparr>"

lemma sample_env_ok: "env_ok sample_channel_env"
  by (simp add: env_ok_def sample_channel_env_def nonce_size_def)

lemma sample_input_sel [simp]:
  "cin_Name sample_channel_input = Some ''main''" "cin_Type sample_channel_input = Some ChannelOpenAI"
  "cin_Key sample_channel_input = Some ''sk-live-0123456789''"
  "cin_UseInferenceProfile sample_channel_input = Some False"
  by (simp_all add: sample_channel_input_def ChannelOpenAI_def)

lemma sample_channel_storable:
  "valid_text enc \<Longrightarrow> storable_channel ((gorm_channel_defaults (sample_channel enc))\<lparr>ch_ID := 1\<rparr>)"
proof -
  have st: "storable_channel ((gorm_channel_defaults (sample_channel []))\<lparr>ch_ID := 1\<rparr>)" by code_simp
  have "(gorm_channel_defaults (sample_channel enc))\<lparr>ch_ID := 1\<rparr>
      = ((gorm_channel_defaults (sample_channel []))\<lparr>ch_ID := 1\<rparr>)\<lparr>ch_Key := enc\<rparr>"
    by (simp add: sample_channel_def gorm_channel_defaults_def)
  moreover have "storable_channel c \<Longrightarrow> valid_text enc \<Longrightarrow> storable_channel (c\<lparr>ch_Key := enc\<rparr>)" for c
    by (simp add: storable_channel_def)
  ultimately show "valid_text enc \<Longrightarrow> storable_channel ((gorm_channel_defaults (sample_channel enc))\<lparr>ch_ID := 1\<rparr>)"
    using st by metis
qed

lemma Create_sample:
  "\<exists>view w'. ChannelService_Create sample_channel_env sample_channel_input channel_world = (Inr view, w')"
proof -
  have n: "trim_space ''main'' \<noteq> []" by code_simp
  have "Encrypt ''server'' (Some (replicate 12 0)) ''sk-live-0123456789'' \<noteq> None"
    by (simp add: Encrypt_def)
  then obtain enc where e: "Encrypt ''server'' (Some (replicate 12 0)) ''sk-live-0123456789'' = Some enc" by blast
  then have crypt: "encryptM sample_channel_env ''sk-live-0123456789'' w = (Inr enc, w)" for w
    by (simp add: encryptM_def sample_channel_env_def retM_def)
  have build: "(let c = (channel_applyInput sample_channel_input new_channel)\<lparr>ch_Key := enc\<rparr> in
      c\<lparr>ch_Models := (case ch_Models c of None \<Rightarrow> Some (JArr []) | m \<Rightarrow> m)\<rparr>) = sample_channel enc"
    by (simp add: channel_applyInput_def set_field_def sample_channel_input_def new_channel_def sample_channel_def)
  define s where "s = (gorm_channel_defaults (sample_channel enc))\<lparr>ch_ID := 1\<rparr>"
  obtain v where "create_channel (sample_channel enc) channel_world = (Inr s, v)" "w_faults v = []"
    using sample_channel_storable [OF Encrypt_storable [OF e]]
    by (simp add: create_channel_def bindM_def io_def channel_world_def Let_def s_def)
  then show ?thesis
    using n crypt build
    by (simp add: ChannelService_Create_def Let_def validChannelType_def bindM_def seqM_def db_write_def io_def retM_def)
qed

lemma channel_key_roundtrip_witness:
  "\<exists>view w' c. ChannelService_Create sample_channel_env sample_channel_input channel_world = (Inr view, w')
     \<and> w_channels w' = [c] \<and> channel_Decrypt sample_channel_env c = Inr ''sk-live-0123456789''
     \<and> cv_KeyMasked view = ''sk-l****6789''"
proof -
  obtain view w' where c: "ChannelService_Create sample_channel_env sample_channel_input channel_world = (Inr view, w')"
    using Create_sample by blast
  have "channels_ok (ce_secret sample_channel_env) channel_world" by (simp add: channels_ok_def channel_world_def)
  from channel_key_roundtrip [OF c sample_env_ok this sample_input_sel(3)] c show ?thesis
    by (fastforce simp: channel_world_def Mask_def)
qed

lemma channel_table_sound_witness:
  "channels_ok ''server'' (fold channel_step
     [(sample_channel_env, CreateChannel sample_channel_input), (sample_channel_env, RefreshModels 1 True Map.empty),
      (sample_channel_env, DeleteChannel 1)] channel_world)"
  by (rule channel_table_sound)
    (simp_all add: channels_ok_def channel_world_def sample_env_ok, simp add: sample_channel_env_def)

end
