(* ===== verification/Gateway.thy ===== *)
theory Gateway
  imports Relay_Correct Auth Channels
begin

text \<open>
  The public endpoints put together: the routes of \<open>api/router.go\<close>, the middleware chain, the
  handlers of \<open>controller/relay_ctrl.go\<close> and the parsing half of \<open>relay/relay.go\<close>, with the
  adapters' request builders and the channel keys in place of the relay's parameter.
\<close>

section \<open>The inference endpoints\<close>

definition invalid_request :: "string \<Rightarrow> string \<Rightarrow> relay_event list" where
  "invalid_request format m = to_client (WriteClassError format 400 ClassInvalidRequest m)"

definition HandleChatCompletions ::
    "codec \<Rightarrow> 'req relay_env \<Rightarrow> token_row option \<Rightarrow> user option \<Rightarrow> string \<Rightarrow> handler" where
  "HandleChatCompletions co env tok usr raw w =
     (case unmarshal (dec_openai_inbound co) zero_openai_inbound raw of
        None \<Rightarrow> (invalid_request FormatOpenAI (''invalid request body: '' @ env_jerr env raw), w)
      | Some inb \<Rightarrow>
          if oi_Model inb = [] then
            (invalid_request FormatOpenAI (''field '' @ [CHR 0x22] @ ''model'' @ [CHR 0x22] @ '' is required''), w)
          else handle env tok usr FormatOpenAI (ParseOpenAIRequest inb) raw w)"

definition HandleMessages ::
    "codec \<Rightarrow> 'req relay_env \<Rightarrow> token_row option \<Rightarrow> user option \<Rightarrow> string \<Rightarrow> handler" where
  "HandleMessages co env tok usr raw w =
     (case unmarshal (dec_anthropic_inbound co) zero_anthropic_inbound raw of
        None \<Rightarrow> (invalid_request FormatAnthropic (''invalid request body: '' @ env_jerr env raw), w)
      | Some inb \<Rightarrow>
          if ai_Model inb = [] then
            (invalid_request FormatAnthropic (''field '' @ [CHR 0x22] @ ''model'' @ [CHR 0x22] @ '' is required''), w)
          else handle env tok usr FormatAnthropic (ParseAnthropicRequest inb) raw w)"

text \<open>The relay's environment with the adapters and the stored keys.\<close>

definition with_adapters ::
    "codec \<Rightarrow> channel_env \<Rightarrow> upstream_request relay_env \<Rightarrow> upstream_request relay_env" where
  "with_adapters co ce env = env\<lparr>env_BuildRequest := BuildRequest co (channel_Decrypt ce)\<rparr>"

text \<open>The chain of an inference endpoint: authentication, the quota guard, the handler.\<close>

definition infer ::
    "(token_row option \<Rightarrow> user option \<Rightarrow> string \<Rightarrow> handler) \<Rightarrow> http_request \<Rightarrow> string \<Rightarrow> handler" where
  "infer h c raw w =
     (case RelayAuth c w of
        (Inl evs, w1) \<Rightarrow> (to_client evs, w1)
      | (Inr (t, u), w1) \<Rightarrow>
          (case Quota_mw c (Some (t, u)) w1 of
             (Inl evs, w2) \<Rightarrow> (to_client evs, w2)
           | (Inr _, w2) \<Rightarrow> h (Some t) (Some u) raw w2))"

section \<open>The list of models\<close>

definition strict_strings :: "json \<Rightarrow> string list option" where
  "strict_strings j =
     (case j of
        JArr xs \<Rightarrow> if list_all (\<lambda>x. allowed_model x \<noteq> None) xs then Some (map (\<lambda>x. the (allowed_model x)) xs) else None
      | JNull \<Rightarrow> Some []
      | _ \<Rightarrow> None)"

text \<open>The keys of a mapping, in whatever order: they are sorted later.\<close>

definition mapping_names :: "json \<Rightarrow> string list" where
  "mapping_names j =
     (case j of
        JObj kvs \<Rightarrow> if list_all (\<lambda>(_, v). allowed_model v \<noteq> None) kvs then map fst kvs else []
      | _ \<Rightarrow> [])"

definition channelModelNames :: "channel \<Rightarrow> string list" where
  "channelModelNames ch =
     (case ch_Models ch of None \<Rightarrow> [] | Some j \<Rightarrow> (case strict_strings j of None \<Rightarrow> [] | Some ms \<Rightarrow> ms))
     @ (case ch_ModelMapping ch of None \<Rightarrow> [] | Some j \<Rightarrow> mapping_names j)"

text \<open>The token's allowed models; the empty list is no restriction.\<close>

definition decodeAllowed :: "token_row \<Rightarrow> string list" where
  "decodeAllowed tok =
     (case tok_AllowedModels tok of
        None \<Rightarrow> []
      | Some j \<Rightarrow> (case strict_strings j of None \<Rightarrow> [] | Some ms \<Rightarrow> ms))"

definition listed_models :: "token_row \<Rightarrow> channel list \<Rightarrow> string list" where
  "listed_models tok chs =
     (let allowed = decodeAllowed tok in
      sort (remdups (filter (\<lambda>m. allowed = [] \<or> m \<in> set allowed) (concat (map channelModelNames chs)))))"

definition model_entry :: "int \<Rightarrow> string \<Rightarrow> json" where
  "model_entry created i =
     JObj [(''created'', JInt created), (''id'', JStr i), (''object'', JStr ''model''), (''owned_by'', JStr ''agent-router'')]"

definition Models :: "token_row option \<Rightarrow> handler" where
  "Models tok w =
     (case tok of
        None \<Rightarrow> (to_client (WriteClassError FormatOpenAI 401 ClassAuthentication ''authentication required''), w)
      | Some t \<Rightarrow>
          (case EnabledChannels w of
             (Inl e, w') \<Rightarrow> (to_client (WriteClassError FormatOpenAI 500 ClassInternal ''could not list models''), w')
           | (Inr chs, w') \<Rightarrow>
               (to_client (gin_JSON 200 (JObj
                  [(''data'', JArr (map (model_entry (w_now w')) (listed_models t chs))), (''object'', JStr ''list'')])), w')))"

section \<open>The routes\<close>

text \<open>The three routes under \<open>/v1\<close>; \<open>None\<close> for a path that is none of them.\<close>

definition relay_route ::
    "codec \<Rightarrow> channel_env \<Rightarrow> upstream_request relay_env \<Rightarrow> http_request \<Rightarrow> string \<Rightarrow> handler option" where
  "relay_route co ce env c raw =
     (if rq_FullPath c = ''/v1/models'' then
        Some (\<lambda>w. case RelayAuth c w of
            (Inl evs, w1) \<Rightarrow> (to_client evs, w1)
          | (Inr (t, _), w1) \<Rightarrow> Models (Some t) w1)
      else if rq_FullPath c = ''/v1/chat/completions'' then
        Some (infer (HandleChatCompletions co (with_adapters co ce env)) c raw)
      else if rq_FullPath c = ''/v1/messages'' then
        Some (infer (HandleMessages co (with_adapters co ce env)) c raw)
      else None)"

section \<open>What gets through\<close>

text \<open>The model a request asks for, if its body can be parsed.\<close>

definition requested_model :: "codec \<Rightarrow> http_request \<Rightarrow> string \<Rightarrow> string option" where
  "requested_model co c raw =
     (if rq_FullPath c = ''/v1/messages''
      then map_option ai_Model (unmarshal (dec_anthropic_inbound co) zero_anthropic_inbound raw)
      else map_option oi_Model (unmarshal (dec_openai_inbound co) zero_openai_inbound raw))"

text \<open>
  \<open>served c w m evs w'\<close>: a request by someone admissible, for an allowed model \<open>m\<close>, made the calls
  first, was answered once, logged at most one row of its own, and was debited what the row says.
\<close>

definition served :: "http_request \<Rightarrow> world \<Rightarrow> string option \<Rightarrow> relay_event list \<Rightarrow> world \<Rightarrow> bool" where
  "served c w m evs w' \<longleftrightarrow>
     (\<exists>t u cs resp v logs cost. admissible c w t u \<and> (case m of None \<Rightarrow> False | Some m \<Rightarrow> m \<noteq> [] \<and> modelAllowed t m)
        \<and> evs = calls cs @ to_client resp \<and> response_shape resp
        \<and> live_token v = live_token w \<and> live_user v = live_user w
        \<and> w_logs v = w_logs w @ logs \<and> length logs \<le> 1
        \<and> list_all (\<lambda>l. log_UserID l = user_ID u \<and> log_TokenID l = Some (tok_ID t)
            \<and> cost = (case log_CostMicroUSD l of None \<Rightarrow> 0 | Some n \<Rightarrow> n)) logs
        \<and> w' = (if cost > 0 then snd (Consume (tok_ID t) (user_ID u) cost v) else v)
        \<and> (if cost > 0 then response_status resp = Some 200 else True))"

definition refused :: "world \<Rightarrow> relay_event list \<Rightarrow> world \<Rightarrow> bool" where
  "refused w evs w' \<longleftrightarrow> lazy_load w w' \<and> (\<exists>status body. evs = [ToClient (SendJSON status body)] \<and> status \<ge> 400)"

lemma admissible_data: "same_data w v \<Longrightarrow> admissible c v t u = admissible c w t u"
  by (simp add: admissible_def token_by_hash_def find_user_def same_dataD)

lemma WriteClassError_refused:
  "status \<ge> 400 \<Longrightarrow> lazy_load w w' \<Longrightarrow> refused w (to_client (WriteClassError format status cls m)) w'"
  by (simp add: refused_def WriteClassError_def WriteError_def)

lemma handle_outcome:
  fixes env :: "'req relay_env"
  assumes "admissible c w0 t u" "lazy_load w0 w" "ur_Model uni \<noteq> []"
  shows "case handle env (Some t) (Some u) format uni raw w of (evs, w') \<Rightarrow>
      refused w0 evs w' \<or> served c w0 (Some (ur_Model uni)) evs w'"
proof (cases "modelAllowed t (ur_Model uni)")
  case False
  then show ?thesis using assms(2) by (simp add: handle_def WriteClassError_refused)
next
  case True
  obtain cs resp w' where h: "handle env (Some t) (Some u) format uni raw w = (calls cs @ to_client resp, w')"
    and c: "concluded (request_context_of t u format uni raw) w resp w'"
    using handle_concluded by blast
  from concluded_lazy [OF assms(2) c] obtain v logs cost where v: "response_shape resp" "live_token v = live_token w0"
    "live_user v = live_user w0" "w_logs v = w_logs w0 @ logs" "length logs \<le> 1"
    "list_all (log_matches (request_context_of t u format uni raw) resp cost) logs"
    "w' = (if cost > 0 then snd (Consume (tok_ID t) (user_ID u) cost v) else v)"
    "if cost > 0 then response_status resp = Some 200 else True"
    by (elim concludedE)
  have "list_all (\<lambda>l. log_UserID l = user_ID u \<and> log_TokenID l = Some (tok_ID t)
            \<and> cost = (case log_CostMicroUSD l of None \<Rightarrow> 0 | Some n \<Rightarrow> n)) logs"
    using v(6) by (auto simp: list_all_iff log_matches_def)
  with v True assms(1,3) have "served c w0 (Some (ur_Model uni)) (calls cs @ to_client resp) w'"
    unfolding served_def option.case by blast
  with h show ?thesis by simp
qed

lemma Quota_mw_lazy: "Quota_mw c ctx w = (r, w') \<Longrightarrow> lazy_load w w'"
  by (auto simp: Quota_mw_def Let_def split: option.splits prod.splits sum.splits if_splits dest: CheckRemaining_lazy)

lemma Quota_mw_refuses: "Quota_mw c ctx w = (Inl evs, w') \<Longrightarrow> lazy_load w0 w' \<Longrightarrow> refused w0 (to_client evs) w'"
  by (auto simp: Quota_mw_def Let_def split: option.splits prod.splits sum.splits if_splits intro: WriteClassError_refused)

lemma infer_outcome:
  assumes "\<And>t u v. admissible c w t u \<Longrightarrow> lazy_load w v \<Longrightarrow>
      (case h (Some t) (Some u) raw v of (evs, w') \<Rightarrow> refused w evs w' \<or> served c w m evs w')"
  shows "case infer h c raw w of (evs, w') \<Rightarrow> refused w evs w' \<or> served c w m evs w'"
proof -
  obtain r w1 where auth: "RelayAuth c w = (r, w1)" by fastforce
  show ?thesis
  proof (cases r)
    case (Inl evs)
    with RelayAuth_reject [of c w evs w1] auth have "refused w (to_client evs) w1"
      by (auto intro: WriteClassError_refused lazy_load_same)
    with auth Inl show ?thesis by (simp add: infer_def)
  next
    case (Inr tu)
    obtain t u where tu: "tu = (t, u)" by fastforce
    with RelayAuth_accept [of c w t u w1] auth Inr have a: "lazy_load w w1" "admissible c w t u"
      by (auto intro: lazy_load_same)
    obtain q w2 where q: "Quota_mw c (Some (t, u)) w1 = (q, w2)" by fastforce
    have l: "lazy_load w w2" using a(1) Quota_mw_lazy [OF q] by (rule lazy_load_trans)
    show ?thesis
    proof (cases q)
      case (Inl evs)
      with Quota_mw_refuses [OF _ l] q have "refused w (to_client evs) w2" by simp
      with auth Inr tu q Inl show ?thesis by (simp add: infer_def)
    next
      case (Inr x)
      with auth \<open>r = Inr tu\<close> tu q assms [OF a(2) l] show ?thesis by (simp add: infer_def)
    qed
  qed
qed

lemma invalid_request_refused: "lazy_load w w' \<Longrightarrow> refused w (invalid_request format m) w'"
  by (simp add: invalid_request_def WriteClassError_refused)


section \<open>Listed models\<close>

lemma strict_strings_decode: "strict_strings j = Some ms \<Longrightarrow> unmarshal_strs j = ms"
proof -
  have "unmarshal_str x = the (allowed_model x)" if "allowed_model x \<noteq> None" for x
    using that by (cases x) auto
  then show "strict_strings j = Some ms \<Longrightarrow> unmarshal_strs j = ms"
    by (auto simp: strict_strings_def list_all_iff split: json.splits if_splits)
qed

lemma dom_unmarshal_map: "dom (unmarshal_map (JObj kvs)) = set (map fst kvs)"
proof -
  have "dom (fold (\<lambda>(k, v) m. m(k \<mapsto> unmarshal_str v)) kvs m) = dom m \<union> set (map fst kvs)" for m
    by (induction kvs arbitrary: m) auto
  then show ?thesis by simp
qed

lemma channelModelNames_served: "m \<in> set (channelModelNames ch) \<Longrightarrow> may_serve None m ch"
proof -
  assume "m \<in> set (channelModelNames ch)"
  then consider (listed) j ms where "ch_Models ch = Some j" "strict_strings j = Some ms" "m \<in> set ms"
    | (mapped) j where "ch_ModelMapping ch = Some j" "m \<in> set (mapping_names j)"
    by (auto simp: channelModelNames_def split: option.splits dest: sym)
  then show ?thesis
  proof cases
    case listed
    with strict_strings_decode [OF listed(2)] show ?thesis
      by (simp add: may_serve_def allow_ids_def allow_group_def decodeModels_def)
  next
    case mapped
    then obtain kvs where "j = JObj kvs" "m \<in> set (map fst kvs)"
      by (auto simp: mapping_names_def split: json.splits if_splits)
    with mapped dom_unmarshal_map [of kvs] have "m \<in> dom (decodeMapping (ch_ModelMapping ch))"
      by (simp add: decodeMapping_def del: unmarshal_map.simps)
    then show ?thesis by (simp add: may_serve_def allow_ids_def allow_group_def)
  qed
qed

lemma decodeAllowed_model:
  "modelAllowed t m \<longleftrightarrow> decodeAllowed t = [] \<or> m \<in> set (decodeAllowed t)"
proof -
  have "decodeAllowed t = decodeAllowedModels t"
    by (simp add: decodeAllowed_def decodeAllowedModels_def strict_strings_def split: option.split json.split)
  then show ?thesis by (auto simp: modelAllowed_def Let_def list_ex_iff)
qed


end
