(* ===== verification/Logs.thy ===== *)
theory Logs
  imports Users
begin

text \<open>
  The request log and its analytics: \<open>service/log_service.go\<close>.  The queries are SQL; their meaning
  on the rows is written out.  The columns of a row that its record leaves out (creation time and
  latency) are given by its position; the text \<open>date_trunc\<close> makes of a time, and the rank of a
  string in the database's collation, are parameters.  Averages and rates are kept as fractions.
\<close>

section \<open>Rows\<close>

record log_columns =
  lc_CreatedAt :: "nat \<Rightarrow> int"
  lc_LatencyMs :: "nat \<Rightarrow> int"
  lc_trunc :: "string \<Rightarrow> int \<Rightarrow> string"
  lc_coll :: "string \<Rightarrow> nat"

type_synonym log_entry = "nat \<times> request_log"

definition log_rows :: "world \<Rightarrow> log_entry list" where
  "log_rows w = zip [0..<length (w_logs w)] (w_logs w)"

record log_filter =
  lf_UserID :: "nat option"
  lf_ChannelID :: "nat option"
  lf_Model :: string
  lf_Status :: string
  lf_Start :: "int option"
  lf_End :: "int option"
  lf_IsTest :: "bool option"

definition constrained :: "'a option \<Rightarrow> ('a \<Rightarrow> bool) \<Rightarrow> bool" where
  "constrained x P \<longleftrightarrow> (case x of None \<Rightarrow> True | Some v \<Rightarrow> P v)"

definition applyFilter :: "log_columns \<Rightarrow> log_filter \<Rightarrow> log_entry \<Rightarrow> bool" where
  "applyFilter lc f e \<longleftrightarrow>
     constrained (lf_UserID f) (\<lambda>i. log_UserID (snd e) = i)
   \<and> constrained (lf_ChannelID f) (\<lambda>i. log_ChannelID (snd e) = i)
   \<and> (lf_Model f = [] \<or> log_Model (snd e) = lf_Model f)
   \<and> (lf_Status f = [] \<or> log_Status (snd e) = lf_Status f)
   \<and> constrained (lf_Start f) (\<lambda>t. lc_CreatedAt lc (fst e) \<ge> t)
   \<and> constrained (lf_End f) (\<lambda>t. lc_CreatedAt lc (fst e) \<le> t)
   \<and> constrained (lf_IsTest f) (\<lambda>b. log_IsTest (snd e) = b)"

definition matching :: "log_columns \<Rightarrow> log_filter \<Rightarrow> world \<Rightarrow> log_entry list" where
  "matching lc f w = filter (applyFilter lc f) (log_rows w)"

text \<open>A query with the filter's texts as parameters.\<close>

definition log_query :: "log_filter \<Rightarrow> (world \<Rightarrow> 'a) \<Rightarrow> 'a db" where
  "log_query f q = db_text (lf_Model f @ lf_Status f) q"

section \<open>Listing\<close>

record log_listing =
  ll_Log :: request_log
  ll_Username :: string
  ll_ChannelName :: string
  ll_ChannelType :: string
  ll_TokenName :: string

text \<open>The left joins: a missing row's columns are NULL, which scan as empty strings.\<close>

definition joined :: "world \<Rightarrow> log_entry \<Rightarrow> log_listing" where
  "joined w e =
     (let l = snd e; ch = find (\<lambda>c. ch_ID c = log_ChannelID l) (w_channels w) in
      \<lparr>ll_Log = l,
       ll_Username = (case find_user (log_UserID l) w of None \<Rightarrow> [] | Some u \<Rightarrow> user_Username u),
       ll_ChannelName = (case ch of None \<Rightarrow> [] | Some c \<Rightarrow> ch_Name c),
       ll_ChannelType = (case ch of None \<Rightarrow> [] | Some c \<Rightarrow> ch_Type c),
       ll_TokenName = (case log_TokenID l of None \<Rightarrow> []
         | Some i \<Rightarrow> (case find_token i w of None \<Rightarrow> [] | Some t \<Rightarrow> tok_Name t))\<rparr>)"

definition newest_first :: "log_columns \<Rightarrow> log_entry list \<Rightarrow> log_entry list" where
  "newest_first lc es = sort_key (\<lambda>e. - lc_CreatedAt lc (fst e)) (rev es)"

definition log_page_size :: "int \<Rightarrow> int" where
  "log_page_size n = (let n = (if n < 1 then 20 else n) in if n > 200 then 200 else n)"

definition LogService_List :: "log_columns \<Rightarrow> log_filter \<Rightarrow> int \<Rightarrow> int \<Rightarrow> (log_listing list \<times> nat) db" where
  "LogService_List lc f page pageSize =
     (let page = (if page < 1 then 1 else page); pageSize = log_page_size pageSize in
      bindM (log_query f (\<lambda>w. length (matching lc f w))) (\<lambda>total.
      bindM (log_query f (\<lambda>w. map (joined w)
          (limit_offset pageSize (mul64 (add64 page (- 1)) pageSize) (newest_first lc (matching lc f w))))) (\<lambda>rows.
        retM (rows, total))))"

section \<open>Summary\<close>

text \<open>A rate is a numerator and a denominator; a denominator of 0 stands for the rate 0.\<close>

record log_summary =
  ls_TotalRequests :: int
  ls_SuccessRequests :: int
  ls_ErrorRequests :: int
  ls_SuccessRate :: "int \<times> int"
  ls_PromptTokens :: int
  ls_CompletionTokens :: int
  ls_TotalTokens :: int
  ls_AvgLatencyMs :: "int \<times> int"
  ls_CostMicroUSD :: int

definition sum_of :: "(log_entry \<Rightarrow> int) \<Rightarrow> log_entry list \<Rightarrow> int" where
  "sum_of f es = sum_list (map f es)"

definition log_cost :: "log_entry \<Rightarrow> int" where
  "log_cost e = (case log_CostMicroUSD (snd e) of None \<Rightarrow> 0 | Some c \<Rightarrow> c)"

definition summarize :: "log_columns \<Rightarrow> log_entry list \<Rightarrow> log_summary" where
  "summarize lc es =
     (let total = int (length es); ok = int (length (filter (\<lambda>e. log_Status (snd e) = LogSuccess) es)) in
      \<lparr>ls_TotalRequests = total, ls_SuccessRequests = ok, ls_ErrorRequests = total - ok,
       ls_SuccessRate = (ok, total),
       ls_PromptTokens = sum_of (\<lambda>e. log_PromptTokens (snd e)) es,
       ls_CompletionTokens = sum_of (\<lambda>e. log_CompletionTokens (snd e)) es,
       ls_TotalTokens = sum_of (\<lambda>e. log_TotalTokens (snd e)) es,
       ls_AvgLatencyMs = (sum_of (\<lambda>e. lc_LatencyMs lc (fst e)) es, total),
       ls_CostMicroUSD = sum_of log_cost es\<rparr>)"

text \<open>Sums are \<open>numeric\<close> in SQL: one that does not fit the scanned \<open>int64\<close> is an error.\<close>

definition scannable :: "log_summary \<Rightarrow> bool" where
  "scannable s \<longleftrightarrow> list_all in_int64 [ls_PromptTokens s, ls_CompletionTokens s, ls_TotalTokens s, ls_CostMicroUSD s]"

definition LogService_Summary :: "log_columns \<Rightarrow> log_filter \<Rightarrow> log_summary db" where
  "LogService_Summary lc f =
     bindM (log_query f (\<lambda>w. summarize lc (matching lc f w)))
       (\<lambda>s. if scannable s then retM s else failM ErrDB)"

section \<open>Timeseries\<close>

record time_point =
  tp_TS :: string
  tp_Requests :: int
  tp_Tokens :: int

type_synonym timeseries_group = "string \<times> time_point list"

definition groupColumn :: "string \<Rightarrow> (log_entry \<Rightarrow> string) option" where
  "groupColumn groupBy =
     (if groupBy = ''channel'' \<or> groupBy = ''channel_id'' then Some (\<lambda>e. dec (log_ChannelID (snd e)))
      else if groupBy = ''model'' then Some (\<lambda>e. log_Model (snd e))
      else None)"

text \<open>The order of the groups: channels by number, models by collation.\<close>

definition group_rank :: "log_columns \<Rightarrow> string \<Rightarrow> string \<Rightarrow> nat" where
  "group_rank lc groupBy g = (if groupBy = ''model'' then lc_coll lc g else undec g)"

definition bucketExpr :: "log_columns \<Rightarrow> string \<Rightarrow> log_entry \<Rightarrow> string" where
  "bucketExpr lc interval e = lc_trunc lc (if interval = ''hour'' then ''hour'' else ''day'') (lc_CreatedAt lc (fst e))"

text \<open>One row of the grouped query: group, bucket, number of requests, tokens.\<close>

record bucket_row =
  br_Group :: string
  br_Bucket :: string
  br_Requests :: int
  br_Tokens :: int

definition bucket_rows :: "log_columns \<Rightarrow> string \<Rightarrow> string \<Rightarrow> log_entry list \<Rightarrow> bucket_row list" where
  "bucket_rows lc interval groupBy es =
     (let grp = (case groupColumn groupBy of None \<Rightarrow> (\<lambda>_. []) | Some g \<Rightarrow> g);
          key = (\<lambda>e. (grp e, bucketExpr lc interval e));
          keys = sort_key (\<lambda>k. group_rank lc groupBy (fst k))
            (sort_key (\<lambda>k. lc_coll lc (snd k)) (remdups (map key es)))
      in map (\<lambda>k. let hits = filter (\<lambda>e. key e = k) es in
             \<lparr>br_Group = fst k, br_Bucket = snd k, br_Requests = int (length hits),
              br_Tokens = sum_of (\<lambda>e. log_TotalTokens (snd e)) hits\<rparr>) keys)"

text \<open>
  \<open>normalizeBucket\<close>: the labels of the query are date and time with a \<open>T\<close> between, read as UTC.  Any
  other text is returned as it is (the other layouts tried never meet such a label).
\<close>

definition two_digits :: "nat \<Rightarrow> nat \<Rightarrow> string \<Rightarrow> bool" where
  "two_digits lo hi s \<longleftrightarrow> length s = 2 \<and> all_digits s \<and> lo \<le> undec s \<and> undec s \<le> hi"

definition month_days :: "nat \<Rightarrow> nat \<Rightarrow> nat" where
  "month_days year month =
     (if month = 2 then (if year mod 4 = 0 \<and> (year mod 100 \<noteq> 0 \<or> year mod 400 = 0) then 29 else 28)
      else if month \<in> {4, 6, 9, 11} then 30 else 31)"

definition label_text :: "string \<Rightarrow> bool" where
  "label_text b \<longleftrightarrow>
     (let part = (\<lambda>i n. take n (drop i b)) in
      length b = 19 \<and> all_digits (part 0 4) \<and> part 4 1 = ''-'' \<and> two_digits 1 12 (part 5 2) \<and> part 7 1 = ''-''
      \<and> two_digits 1 (month_days (undec (part 0 4)) (undec (part 5 2))) (part 8 2) \<and> part 10 1 = ''T''
      \<and> two_digits 0 23 (part 11 2) \<and> part 13 1 = '':'' \<and> two_digits 0 59 (part 14 2) \<and> part 16 1 = '':''
      \<and> two_digits 0 59 (part 17 2))"

definition normalizeBucket :: "string \<Rightarrow> string" where
  "normalizeBucket b = (if label_text b then b @ ''Z'' else b)"

text \<open>Rows are stitched into series in their order; a group met again gets further points.\<close>

fun add_point :: "string \<Rightarrow> time_point \<Rightarrow> timeseries_group list \<Rightarrow> timeseries_group list" where
  "add_point k p [] = [(k, [p])]"
| "add_point k p ((k', ps) # gs) = (if k' = k then (k', ps @ [p]) # gs else (k', ps) # add_point k p gs)"

definition stitch :: "bool \<Rightarrow> bucket_row list \<Rightarrow> timeseries_group list" where
  "stitch useGroup rows =
     fold (\<lambda>r. add_point (if useGroup then (if br_Group r = [] then ''unknown'' else br_Group r) else ''all'')
       \<lparr>tp_TS = normalizeBucket (br_Bucket r), tp_Requests = br_Requests r, tp_Tokens = br_Tokens r\<rparr>) rows []"

definition LogService_Timeseries :: "log_columns \<Rightarrow> log_filter \<Rightarrow> string \<Rightarrow> string \<Rightarrow> timeseries_group list db" where
  "LogService_Timeseries lc f interval groupBy =
     bindM (log_query f (\<lambda>w. bucket_rows lc interval groupBy (matching lc f w))) (\<lambda>rows.
       if list_all (\<lambda>r. in_int64 (br_Tokens r)) rows
       then retM (stitch (groupColumn groupBy \<noteq> None) rows) else failM ErrDB)"

section \<open>Nothing is lost or counted twice\<close>

lemma sum_by_key:
  fixes h :: "'a \<Rightarrow> int"
  assumes "distinct ks"
  shows "sum_list (map (\<lambda>k. sum_list (map h (filter (\<lambda>e. key e = k) es))) ks)
    = sum_list (map h (filter (\<lambda>e. key e \<in> set ks) es))"
  using assms
proof (induction ks)
  case (Cons k ks)
  have "sum_list (map h (filter (\<lambda>e. key e = k \<or> key e \<in> set ks) es)) =
      sum_list (map h (filter (\<lambda>e. key e = k) es)) + sum_list (map h (filter (\<lambda>e. key e \<in> set ks) es))"
    using Cons.prems by (induction es) auto
  with Cons show ?case by (simp add: disj_commute)
qed simp

lemma length_sum: "int (length es) = sum_of (\<lambda>_. 1) es"
  by (induction es) (simp_all add: sum_of_def)

lemma bucket_sums:
  "sum_list (map br_Requests (bucket_rows lc interval g es)) = int (length es)"
  "sum_list (map br_Tokens (bucket_rows lc interval g es)) = sum_of (\<lambda>e. log_TotalTokens (snd e)) es"
proof -
  define grp where "grp = (case groupColumn g of None \<Rightarrow> (\<lambda>_. []) | Some g \<Rightarrow> g)"
  define key where "key = (\<lambda>e. (grp e, bucketExpr lc interval e))"
  define keys where "keys = sort_key (\<lambda>k. group_rank lc g (fst k)) (sort_key (\<lambda>k. lc_coll lc (snd k)) (remdups (map key es)))"
  have keys: "distinct keys" "set keys = key ` set es" by (simp_all add: keys_def)
  then have all: "filter (\<lambda>e. key e \<in> set keys) es = es" by (simp add: filter_id_conv)
  have rows: "bucket_rows lc interval g es = map (\<lambda>k. \<lparr>br_Group = fst k, br_Bucket = snd k,
      br_Requests = int (length (filter (\<lambda>e. key e = k) es)),
      br_Tokens = sum_of (\<lambda>e. log_TotalTokens (snd e)) (filter (\<lambda>e. key e = k) es)\<rparr>) keys"
    by (simp add: bucket_rows_def keys_def key_def grp_def Let_def)
  show "sum_list (map br_Tokens (bucket_rows lc interval g es)) = sum_of (\<lambda>e. log_TotalTokens (snd e)) es"
    using sum_by_key [OF keys(1), of "\<lambda>e. log_TotalTokens (snd e)" key es]
    by (simp add: rows all comp_def sum_of_def)
  show "sum_list (map br_Requests (bucket_rows lc interval g es)) = int (length es)"
    using sum_by_key [OF keys(1), of "\<lambda>_. 1" key es]
    by (simp add: rows all comp_def length_sum sum_of_def)
qed

definition series_sum :: "(time_point \<Rightarrow> int) \<Rightarrow> timeseries_group list \<Rightarrow> int" where
  "series_sum f gs = sum_list (map f (concat (map snd gs)))"

lemma add_point_sum: "series_sum f (add_point k p gs) = series_sum f gs + f p"
  by (induction k p gs rule: add_point.induct) (simp_all add: series_sum_def)

lemma stitch_sum:
  assumes "\<And>r ts. f \<lparr>tp_TS = ts, tp_Requests = br_Requests r, tp_Tokens = br_Tokens r\<rparr> = h r"
  shows "series_sum f (stitch useGroup rows) = sum_list (map h rows)"
proof -
  have "series_sum f (fold (\<lambda>r. add_point (k r) \<lparr>tp_TS = ts r, tp_Requests = br_Requests r, tp_Tokens = br_Tokens r\<rparr>) rows gs)
      = series_sum f gs + sum_list (map h rows)" for k ts gs
    by (induction rows arbitrary: gs) (simp_all add: add_point_sum assms)
  then show ?thesis by (simp add: stitch_def series_sum_def)
qed

lemma log_query_Inr: "log_query f q w = (Inr x, w') \<Longrightarrow> (\<And>fs. q (w\<lparr>w_faults := fs\<rparr>) = q w) \<Longrightarrow> x = q w"
  by (cases rule: io_cases [of ErrDB w]) (auto simp: log_query_def db_text_def bindM_def split: if_splits)

lemma matching_faults [simp]: "matching lc f (w\<lparr>w_faults := fs\<rparr>) = matching lc f w"
  by (simp add: matching_def log_rows_def)

text \<open>
  C38. The charts add up to the headline: whatever the filter, the bucket size and the grouping, the
  requests and the tokens of all points of all series sum up to the totals of the summary under
  the same filter, so no request is lost between buckets or counted in two.
\<close>

theorem timeseries_conserves:
  "case (LogService_Timeseries lc f interval g w, LogService_Summary lc f w) of
     ((Inr series, _), (Inr s, _)) \<Rightarrow>
       series_sum tp_Requests series = ls_TotalRequests s \<and> series_sum tp_Tokens series = ls_TotalTokens s
       \<and> ls_TotalRequests s = ls_SuccessRequests s + ls_ErrorRequests s \<and> 0 \<le> ls_ErrorRequests s
   | _ \<Rightarrow> True"
proof -
  let ?es = "matching lc f w"
  have "series_sum tp_Requests series = ls_TotalRequests s \<and> series_sum tp_Tokens series = ls_TotalTokens s
       \<and> ls_TotalRequests s = ls_SuccessRequests s + ls_ErrorRequests s \<and> 0 \<le> ls_ErrorRequests s"
    if t: "LogService_Timeseries lc f interval g w = (Inr series, w1)" and s: "LogService_Summary lc f w = (Inr s, w2)"
    for series s w1 w2
  proof -
    from t obtain rows v where r: "log_query f (\<lambda>w. bucket_rows lc interval g (matching lc f w)) w = (Inr rows, v)"
      and series: "series = stitch (groupColumn g \<noteq> None) rows"
      by (auto simp: LogService_Timeseries_def elim!: bindM_InrE split: if_splits)
    from s obtain v2 where q: "log_query f (\<lambda>w. summarize lc (matching lc f w)) w = (Inr s, v2)"
      by (auto simp: LogService_Summary_def elim!: bindM_InrE split: if_splits)
    have rows: "rows = bucket_rows lc interval g ?es" using log_query_Inr [OF r] by simp
    have sm: "s = summarize lc ?es" using log_query_Inr [OF q] by simp
    show ?thesis
      using bucket_sums [of lc interval g ?es]
        stitch_sum [of tp_Requests br_Requests "groupColumn g \<noteq> None" rows]
        stitch_sum [of tp_Tokens br_Tokens "groupColumn g \<noteq> None" rows]
      by (simp add: series sm rows summarize_def Let_def)
  qed
  then show ?thesis by (auto split: prod.split sum.split)
qed

end
