(* ===== verification/Http_Probe.thy ===== *)
theory Http_Probe
  imports Router Channels
begin

text \<open>
  The routing classifier behind an HTTP proxy (\<open>router/probe/http_probe.go\<close>), and the choice
  of the classifier from the current settings (\<open>api/router.go\<close>).  The HTTP client and the texts of
  library errors are parameters.
\<close>

record probe_env =
  pe_post :: "string \<Rightarrow> json \<Rightarrow> fetched"
  pe_jerr :: "string \<Rightarrow> string"
  pe_quote :: "string \<Rightarrow> string"

definition servedModel :: string where "servedModel = ''qwen-router''"
definition maxMirroredPrompt :: nat where "maxMirroredPrompt = 2000"
definition maxProbeBody :: int where "maxProbeBody = 1048576"

definition probe_snippet :: "string \<Rightarrow> string" where
  "probe_snippet b =
     (let s = trim_space b in
      if length s > 200 then take 200 s @ [CHR 0xE2, CHR 0x80, CHR 0xA6] else s)"

text \<open>The request: the prompt is mirrored into \<open>prompt\<close> only if it is short (and not empty).\<close>

definition chat_request :: "string \<Rightarrow> json" where
  "chat_request prompt = JObj
     ([(''model'', JStr servedModel)]
      @ (if length prompt \<le> maxMirroredPrompt then omit_str ''prompt'' prompt else [])
      @ [(''messages'', JArr [JObj [(''role'', JStr ''user''), (''content'', JStr prompt)]]),
         (''max_tokens'', JInt 16), (''temperature'', JInt 0)])"

definition dec_prediction :: "(int \<times> int) decoder" where
  "dec_prediction = dec_record
     [(''w'', into fst (\<lambda>v r. (v, snd r)) dec_gint), (''t'', into snd (\<lambda>v r. (fst r, v)) dec_gint)]"

record probe_response =
  prs_Prediction :: "(int \<times> int) option"
  prs_Raw :: string
  prs_Choices :: "string list"
  prs_W :: "int option"
  prs_T :: "int option"

definition zero_probe_response :: probe_response where
  "zero_probe_response = \<lparr>prs_Prediction = None, prs_Raw = [], prs_Choices = [], prs_W = None, prs_T = None\<rparr>"

definition dec_probe_response :: "probe_response decoder" where
  "dec_probe_response = dec_record
     [(''prediction'', into prs_Prediction (\<lambda>v r. r\<lparr>prs_Prediction := v\<rparr>) (dec_ptr (0, 0) dec_prediction)),
      (''raw'', into prs_Raw (\<lambda>v r. r\<lparr>prs_Raw := v\<rparr>) dec_str),
      (''choices'', into prs_Choices (\<lambda>v r. r\<lparr>prs_Choices := v\<rparr>)
         (dec_list [] (dec_record [(''message'', dec_record [(''content'', dec_str)])]))),
      (''w'', into prs_W (\<lambda>v r. r\<lparr>prs_W := v\<rparr>) (dec_ptr 0 dec_gint)),
      (''t'', into prs_T (\<lambda>v r. r\<lparr>prs_T := v\<rparr>) (dec_ptr 0 dec_gint))]"

text \<open>The four shapes of an answer, in order of priority.\<close>

definition prediction_of :: "probe_env \<Rightarrow> string \<Rightarrow> probe_response \<Rightarrow> string + (int \<times> int)" where
  "prediction_of env raw pr =
     (case prs_Prediction pr of
        Some p \<Rightarrow> Inr p
      | None \<Rightarrow>
          (case (let s = trim_space (prs_Raw pr) in if s \<noteq> [] then unmarshal dec_prediction (0, 0) s else None) of
             Some p \<Rightarrow> Inr p
           | None \<Rightarrow>
               (case prs_Choices pr of
                  content # _ \<Rightarrow>
                    (let s = trim_space content in
                     case unmarshal dec_prediction (0, 0) s of
                       None \<Rightarrow> Inl (''router probe parse prediction '' @ pe_quote env (probe_snippet s) @ '': '' @ pe_jerr env s)
                     | Some p \<Rightarrow> Inr p)
                | [] \<Rightarrow>
                    if prs_W pr \<noteq> None \<or> prs_T pr \<noteq> None then
                      Inr (case prs_W pr of None \<Rightarrow> 0 | Some w \<Rightarrow> w, case prs_T pr of None \<Rightarrow> 0 | Some t \<Rightarrow> t)
                    else Inl (''router probe: unrecognized response shape: '' @ probe_snippet raw))))"

definition HTTPProbe_Predict :: "probe_env \<Rightarrow> string \<Rightarrow> string \<Rightarrow> string + (int \<times> int)" where
  "HTTPProbe_Predict env url prompt =
     (case pe_post env url (chat_request prompt) of
        BadURL e \<Rightarrow> Inl e
      | NoResponse e \<Rightarrow> Inl (''router probe request: '' @ e)
      | Fetched code _ full _ \<Rightarrow>
          let raw = read_limited maxProbeBody full in
          if \<not> ok_status code then Inl (''router probe http '' @ dec_int code @ '': '' @ probe_snippet raw)
          else
            (case unmarshal dec_probe_response zero_probe_response raw of
               None \<Rightarrow> Inl (''router probe decode response: '' @ pe_jerr env raw)
             | Some pr \<Rightarrow> prediction_of env raw pr))"

definition HTTPProbe :: "probe_env \<Rightarrow> string \<Rightarrow> probe" where
  "HTTPProbe env url = \<lparr>probe_Name = ''http'', probe_Predict = HTTPProbe_Predict env url\<rparr>"

definition OptRouterProbeMock :: string where "OptRouterProbeMock = ''RouterProbeMock''"
definition OptRouterProbeURL :: string where "OptRouterProbeURL = ''RouterProbeURL''"
definition OptRouterProbeRegion :: string where "OptRouterProbeRegion = ''RouterProbeRegion''"

text \<open>The resolver \<open>registerRelayRoutes\<close> gives the engine.\<close>

definition probe_resolver :: "probe_env \<Rightarrow> probe option db" where
  "probe_resolver env =
     bindM (GetOption OptRouterProbeMock ''true'') (\<lambda>mock.
       if mock \<noteq> ''false'' then retM (Some (MockProbe None))
       else bindM (GetOption OptRouterProbeURL []) (\<lambda>url.
         retM (if url \<noteq> [] then Some (HTTPProbe env url) else None)))"

section \<open>The four shapes\<close>

text \<open>The answers below are told apart by shape and read as the same prediction.\<close>

definition quoted :: "string \<Rightarrow> string" where
  "quoted s = concat (map (\<lambda>c. if c = CHR 0x22 then [CHR 0x5C, c] else [c]) s)"

lemma prediction_shapes:
  "map (\<lambda>body. map_option (prediction_of env body) (unmarshal dec_probe_response zero_probe_response body))
     [''{\"prediction\":{\"w\":1,\"t\":79},\"w\":0}'',
      ''{\"raw\":\"'' @ quoted ''{\"w\":1,\"t\":79}'' @ ''\"}'',
      ''{\"choices\":[{\"message\":{\"content\":\"'' @ quoted '' {\"t\":79,\"w\":1}'' @ ''\"}}]}'',
      ''{\"w\":1,\"t\":79}'']
   = replicate 4 (Some (Inr (1, 79)))"
  by code_simp

end
