(* ===== verification/Console.thy ===== *)
theory Console
  imports Logs Rules Tokens Http_Probe
begin

text \<open>
  The console's sign-in and the endpoints of every signed-in user: \<open>middleware/jwt_auth.go\<close> and
  the controllers for accounts and API keys.  A handler turns a request into a reply and
  the world it leaves; the reply is the refusal \<open>respondError\<close> writes, or a status and what
  is rendered.  Parameters: the JWT library, bcrypt, PostgreSQL's text functions, random draws, the
  instant an RFC 3339 text or a date denotes (the zero time is 0), the scheme and host of a URL, and
  those of the services.
\<close>

section \<open>Requests and replies\<close>

text \<open>\<open>cq_Query\<close>: \<open>GetQuery\<close>, so that \<open>Query\<close> is the empty string where it is \<open>None\<close>.\<close>

record console_request =
  cq_Authorization :: string
  cq_ID :: string
  cq_Query :: "string \<Rightarrow> string option"
  cq_Body :: string
  cq_ContentLength :: int

definition query :: "console_request \<Rightarrow> string \<Rightarrow> string" where
  "query req k = (case cq_Query req k of None \<Rightarrow> [] | Some v \<Rightarrow> v)"

record jwt_lib =
  jwt_sign :: "string \<Rightarrow> nat \<times> string \<Rightarrow> int \<Rightarrow> int \<Rightarrow> string option"
  jwt_verify :: "string \<Rightarrow> string \<Rightarrow> int \<Rightarrow> (nat \<times> string) option"

text \<open>
  What the library promises: a token signed with a secret verifies with that secret, to the claims
  signed, until it expires.
\<close>

definition jwt_ok :: "jwt_lib \<Rightarrow> bool" where
  "jwt_ok lib \<longleftrightarrow> (\<forall>secret claims issued expires tok now. jwt_sign lib secret claims issued expires = Some tok \<longrightarrow>
     jwt_verify lib secret tok now = (if now < expires then Some claims else None))"

record console_env =
  cs_jwt :: jwt_lib
  cs_JWTSecret :: string
  cs_bcrypt :: bcrypt
  cs_pg :: pg_text
  cs_draw :: "nat \<Rightarrow> nat option"
  cs_key :: "nat list option"
  cs_time :: "string \<Rightarrow> int option"
  cs_date :: "string \<Rightarrow> int option"
  cs_url :: "string \<Rightarrow> (string \<times> string) option"
  cs_xtext :: "expr_error \<Rightarrow> string"
  cs_coll :: "string \<Rightarrow> nat"
  cs_channel :: channel_env
  cs_probe :: probe_env
  cs_logs :: log_columns

datatype payload =
    Auth_response string user
  | Setup_status nat
  | One_user user
  | User_page "user list" nat int int
  | Plain_password string
  | Deleted
  | Token_list "token_view list"
  | One_token token_view
  | New_token token_view string
  | Rule_list "routing_rule list"
  | One_rule routing_rule
  | Group_list "string list"
  | Channel_list "channel_view list"
  | One_channel channel_view
  | Fetched_models fetch_result
  | Test_outcome test_result
  | Price_list "model_price list"
  | One_price model_price
  | Settings bool
  | Probe_settings bool string string
  | Probe_test "string + (int \<times> int)"
  | Log_summary log_summary
  | Log_series "timeseries_group list" string string
  | Log_page "log_listing list" nat int int

datatype reply = Refuse int string string | Send int payload

text \<open>
  The password column is not rendered (\<open>json:"-"\<close>, and \<open>UserView\<close> has no such field).
\<close>

definition toUserView :: "user \<Rightarrow> user" where
  "toUserView u = u\<lparr>user_Password := []\<rparr>"

type_synonym handling = "world \<Rightarrow> reply \<times> world"

text \<open>Run a service operation and render its result or its error.\<close>

definition respond :: "'a db \<Rightarrow> (err \<Rightarrow> reply) \<Rightarrow> ('a \<Rightarrow> reply) \<Rightarrow> handling" where
  "respond m err ok w = (case m w of (Inl e, w') \<Rightarrow> (err e, w') | (Inr x, w') \<Rightarrow> (ok x, w'))"

definition bad_body :: "reply" where
  "bad_body = Refuse 400 ''invalid_request'' ''invalid request body''"

definition internal :: "string \<Rightarrow> err \<Rightarrow> reply" where
  "internal m e = Refuse 500 ''internal_error'' m"

text \<open>
  \<open>ShouldBindJSON\<close> decodes the first JSON value of the body and ignores what follows it.
\<close>

definition bind_json :: "'a decoder \<Rightarrow> 'a \<Rightarrow> console_request \<Rightarrow> 'a option" where
  "bind_json d zero req =
     (case parse_value maxNestingDepth (cq_Body req) of
        None \<Rightarrow> None
      | Some (j, _) \<Rightarrow> (case d j zero of (v, ok) \<Rightarrow> if ok then Some v else None))"

definition with_body :: "'a decoder \<Rightarrow> 'a \<Rightarrow> console_request \<Rightarrow> ('a \<Rightarrow> handling) \<Rightarrow> handling" where
  "with_body d zero req h w = (case bind_json d zero req of None \<Rightarrow> (bad_body, w) | Some v \<Rightarrow> h v w)"

definition ParseUint :: "string \<Rightarrow> nat option" where
  "ParseUint s = (if all_digits s \<and> undec s < 2 ^ 64 then Some (undec s) else None)"

definition with_id :: "string \<Rightarrow> console_request \<Rightarrow> (nat \<Rightarrow> handling) \<Rightarrow> handling" where
  "with_id what req h w =
     (case ParseUint (cq_ID req) of
        None \<Rightarrow> (Refuse 400 ''invalid_request'' (''invalid '' @ what @ '' id''), w)
      | Some i \<Rightarrow> h i w)"

definition parseIntDefault :: "string \<Rightarrow> int \<Rightarrow> int" where
  "parseIntDefault v def =
     (if v = [] then def else case ParseInt v of None \<Rightarrow> def | Some n \<Rightarrow> if n \<le> 0 then def else n)"

abbreviation opt_str :: "string option decoder" where "opt_str \<equiv> dec_ptr [] dec_str"
abbreviation opt_int :: "int option decoder" where "opt_int \<equiv> dec_ptr 0 dec_gint"
abbreviation opt_bool :: "bool option decoder" where "opt_bool \<equiv> dec_ptr False dec_bool"
abbreviation opt_strs :: "string list option decoder" where "opt_strs \<equiv> dec_ptr [] (dec_list [] dec_str)"

section \<open>Sign-in\<close>

definition tokenTTL :: int where "tokenTTL = 86400"

definition IssueToken :: "console_env \<Rightarrow> nat \<Rightarrow> string \<Rightarrow> int \<Rightarrow> string option" where
  "IssueToken env uid role now = jwt_sign (cs_jwt env) (cs_JWTSecret env) (uid, role) now (now + tokenTTL)"

definition ParseToken :: "console_env \<Rightarrow> string \<Rightarrow> int \<Rightarrow> (nat \<times> string) option" where
  "ParseToken env tok now = jwt_verify (cs_jwt env) (cs_JWTSecret env) tok now"

definition bearerToken :: "console_request \<Rightarrow> string option" where
  "bearerToken req =
     (let h = cq_Authorization req; pre = ''Bearer '' in
      if h = [] then None
      else if length h \<le> length pre \<or> map lower_char (take (length pre) h) \<noteq> map lower_char pre then None
      else let tok = trim_space (drop (length pre) h) in if tok = [] then None else Some tok)"

text \<open>The caller: user id and role, as the token says.\<close>

type_synonym caller = "nat \<times> string"

definition JWTAuth :: "console_env \<Rightarrow> console_request \<Rightarrow> (caller \<Rightarrow> handling) \<Rightarrow> handling" where
  "JWTAuth env req next w =
     (case bearerToken req of
        None \<Rightarrow> (Refuse 401 ''unauthorized'' ''missing or malformed Authorization header'', w)
      | Some tok \<Rightarrow>
          (case ParseToken env tok (w_now w) of
             None \<Rightarrow> (Refuse 401 ''unauthorized'' ''invalid or expired token'', w)
           | Some who \<Rightarrow> next who w))"

definition AdminOnly :: "(caller \<Rightarrow> handling) \<Rightarrow> caller \<Rightarrow> handling" where
  "AdminOnly next who w =
     (if snd who \<noteq> RoleAdmin then (Refuse 403 ''forbidden'' ''admin privileges required'', w) else next who w)"

section \<open>Registration and login\<close>

definition dec_register :: "register_input decoder" where
  "dec_register = dec_record
     [(''username'', into reg_Username (\<lambda>v r. r\<lparr>reg_Username := v\<rparr>) dec_str),
      (''password'', into reg_Password (\<lambda>v r. r\<lparr>reg_Password := v\<rparr>) dec_str),
      (''display_name'', into reg_DisplayName (\<lambda>v r. r\<lparr>reg_DisplayName := v\<rparr>) dec_str),
      (''email'', into reg_Email (\<lambda>v r. r\<lparr>reg_Email := v\<rparr>) dec_str)]"

definition zero_register :: register_input where
  "zero_register = \<lparr>reg_Username = [], reg_Password = [], reg_DisplayName = [], reg_Email = []\<rparr>"

definition issue_reply :: "console_env \<Rightarrow> int \<Rightarrow> user db \<Rightarrow> (err \<Rightarrow> reply) \<Rightarrow> handling" where
  "issue_reply env status m err w =
     (case m w of
        (Inl e, w') \<Rightarrow> (err e, w')
      | (Inr u, w') \<Rightarrow>
          (case IssueToken env (user_ID u) (user_Role u) (w_now w') of
             None \<Rightarrow> (internal ''could not issue token'' ErrRand, w')
           | Some tok \<Rightarrow> (Send status (Auth_response tok (toUserView u)), w')))"

definition AuthController_Register :: "console_env \<Rightarrow> console_request \<Rightarrow> handling" where
  "AuthController_Register env req =
     with_body dec_register zero_register req (\<lambda>inp.
       issue_reply env 201 (Register (cs_bcrypt env) inp False) (\<lambda>e.
         if e = ErrUserExists then Refuse 409 ''conflict'' ''username already taken''
         else if e = ErrRegisterDisabled then Refuse 403 ''forbidden'' ''registration is disabled''
         else if e = ErrInvalidInput then Refuse 400 ''invalid_request'' ''username and password are required''
         else internal ''could not create user'' e))"

definition AuthController_Login :: "console_env \<Rightarrow> console_request \<Rightarrow> handling" where
  "AuthController_Login env req =
     with_body (dec_record [(''username'', into fst (\<lambda>v r. (v, snd r)) dec_str), (''password'', into snd (\<lambda>v r. (fst r, v)) dec_str)])
       ([], []) req (\<lambda>(name, password).
       issue_reply env 200 (Login (cs_bcrypt env) name password) (\<lambda>e.
         if e = ErrInvalidCredential then Refuse 401 ''unauthorized'' ''invalid username or password''
         else if e = ErrUserDisabled then Refuse 403 ''forbidden'' ''account is disabled''
         else internal ''could not authenticate'' e))"

definition SetupStatus :: "handling" where
  "SetupStatus = respond UserService_Count (internal ''could not read system status'') (\<lambda>n. Send 200 (Setup_status n))"

section \<open>Accounts\<close>

definition respondLookupError :: "err \<Rightarrow> reply" where
  "respondLookupError e =
     (if e = ErrUserNotFound then Refuse 404 ''not_found'' ''user not found''
      else if e = ErrUserExists then Refuse 409 ''conflict'' ''username already taken''
      else if e = ErrCannotDeleteSelf then Refuse 409 ''conflict'' ''you cannot delete your own account''
      else if e = ErrLastAdmin then Refuse 409 ''conflict'' ''cannot delete the last admin account''
      else if e = ErrInvalidInput then Refuse 400 ''invalid_request'' ''invalid input''
      else internal ''could not process request'' e)"

definition GetSelf :: "caller \<Rightarrow> handling" where
  "GetSelf who = respond (GetByID (fst who)) respondLookupError (\<lambda>u. Send 200 (One_user (toUserView u)))"

definition dec_self :: "self_input decoder" where
  "dec_self = dec_record
     [(''display_name'', into si_DisplayName (\<lambda>v r. r\<lparr>si_DisplayName := v\<rparr>) opt_str),
      (''email'', into si_Email (\<lambda>v r. r\<lparr>si_Email := v\<rparr>) opt_str),
      (''password'', into si_Password (\<lambda>v r. r\<lparr>si_Password := v\<rparr>) opt_str)]"

definition UserController_UpdateSelf :: "console_env \<Rightarrow> console_request \<Rightarrow> caller \<Rightarrow> handling" where
  "UserController_UpdateSelf env req who =
     with_body dec_self \<lparr>si_DisplayName = None, si_Email = None, si_Password = None\<rparr> req (\<lambda>inp.
       respond (UpdateSelf (cs_bcrypt env) (fst who) inp) respondLookupError (\<lambda>u. Send 200 (One_user (toUserView u))))"

definition UserController_List :: "console_env \<Rightarrow> console_request \<Rightarrow> caller \<Rightarrow> handling" where
  "UserController_List env req who =
     (let page = parseIntDefault (query req ''page'') 1; pageSize = parseIntDefault (query req ''page_size'') 20 in
      respond (ListPaged (cs_pg env)
          \<lparr>uq_Page = page, uq_PageSize = pageSize, uq_Search = query req ''search'', uq_Role = query req ''role'',
           uq_Status = query req ''status'', uq_Sort = query req ''sort'', uq_Order = query req ''order''\<rparr>)
        (internal ''could not list users'')
        (\<lambda>(us, total). Send 200 (User_page (map toUserView us) total page pageSize)))"

definition dec_admin :: "admin_input decoder" where
  "dec_admin = dec_record
     [(''display_name'', into ai_DisplayName (\<lambda>v r. r\<lparr>ai_DisplayName := v\<rparr>) opt_str),
      (''email'', into ai_Email (\<lambda>v r. r\<lparr>ai_Email := v\<rparr>) opt_str),
      (''role'', into ai_Role (\<lambda>v r. r\<lparr>ai_Role := v\<rparr>) opt_str),
      (''status'', into ai_Status (\<lambda>v r. r\<lparr>ai_Status := v\<rparr>) opt_str),
      (''quota'', into ai_Quota (\<lambda>v r. r\<lparr>ai_Quota := v\<rparr>) opt_int),
      (''password'', into ai_Password (\<lambda>v r. r\<lparr>ai_Password := v\<rparr>) opt_str),
      (''group'', into ai_Group (\<lambda>v r. r\<lparr>ai_Group := v\<rparr>) opt_str)]"

definition zero_admin :: admin_input where
  "zero_admin = \<lparr>ai_DisplayName = None, ai_Email = None, ai_Role = None, ai_Status = None, ai_Quota = None,
     ai_Password = None, ai_Group = None\<rparr>"

definition UserController_AdminUpdate :: "console_env \<Rightarrow> console_request \<Rightarrow> caller \<Rightarrow> handling" where
  "UserController_AdminUpdate env req who =
     with_id ''user'' req (\<lambda>i.
     with_body dec_admin zero_admin req (\<lambda>inp w.
       if fst who = i \<and> ai_Status inp = Some UserDisabled then
         (Refuse 409 ''conflict'' ''you cannot disable your own account'', w)
       else if fst who = i \<and> (case ai_Role inp of None \<Rightarrow> False | Some r \<Rightarrow> r \<noteq> RoleAdmin) then
         (Refuse 409 ''conflict'' ''you cannot remove your own admin role'', w)
       else
         respond (AdminUpdate (cs_bcrypt env) i inp) respondLookupError (\<lambda>u. Send 200 (One_user (toUserView u))) w))"

definition dec_create :: "create_input decoder" where
  "dec_create = dec_record
     [(''username'', into ci_Username (\<lambda>v r. r\<lparr>ci_Username := v\<rparr>) dec_str),
      (''password'', into ci_Password (\<lambda>v r. r\<lparr>ci_Password := v\<rparr>) dec_str),
      (''display_name'', into ci_DisplayName (\<lambda>v r. r\<lparr>ci_DisplayName := v\<rparr>) dec_str),
      (''email'', into ci_Email (\<lambda>v r. r\<lparr>ci_Email := v\<rparr>) dec_str),
      (''role'', into ci_Role (\<lambda>v r. r\<lparr>ci_Role := v\<rparr>) dec_str),
      (''status'', into ci_Status (\<lambda>v r. r\<lparr>ci_Status := v\<rparr>) dec_str),
      (''quota'', into ci_Quota (\<lambda>v r. r\<lparr>ci_Quota := v\<rparr>) opt_int),
      (''group'', into ci_Group (\<lambda>v r. r\<lparr>ci_Group := v\<rparr>) dec_str)]"

definition zero_create :: create_input where
  "zero_create = \<lparr>ci_Username = [], ci_Password = [], ci_DisplayName = [], ci_Email = [], ci_Role = [],
     ci_Status = [], ci_Quota = None, ci_Group = []\<rparr>"

definition UserController_Create :: "console_env \<Rightarrow> console_request \<Rightarrow> caller \<Rightarrow> handling" where
  "UserController_Create env req who =
     with_body dec_create zero_create req (\<lambda>inp.
       respond (AdminCreate (cs_bcrypt env) (cs_draw env) inp) respondLookupError
         (\<lambda>u. Send 201 (One_user (toUserView u))))"

definition UserController_Delete :: "console_request \<Rightarrow> caller \<Rightarrow> handling" where
  "UserController_Delete req who =
     with_id ''user'' req (\<lambda>i. respond (UserService_Delete (fst who) i) respondLookupError (\<lambda>_. Send 200 Deleted))"

definition UserController_ResetPassword :: "console_env \<Rightarrow> console_request \<Rightarrow> caller \<Rightarrow> handling" where
  "UserController_ResetPassword env req who =
     with_id ''user'' req (\<lambda>i w.
       case (if cq_ContentLength req \<noteq> 0
             then bind_json (dec_record [(''password'', opt_str)]) None req else Some None) of
         None \<Rightarrow> (bad_body, w)
       | Some password \<Rightarrow>
           respond (ResetPassword (cs_bcrypt env) (cs_draw env) i (case password of None \<Rightarrow> [] | Some p \<Rightarrow> p))
             respondLookupError (\<lambda>p. Send 200 (Plain_password p)) w)"

definition UserController_QuotaOp :: "console_request \<Rightarrow> caller \<Rightarrow> handling" where
  "UserController_QuotaOp req who =
     with_id ''user'' req (\<lambda>i.
     with_body (dec_record [(''op'', into fst (\<lambda>v r. (v, snd r)) dec_str), (''amount'', into snd (\<lambda>v r. (fst r, v)) dec_gint)])
       ([], 0) req (\<lambda>(op, amount).
       respond (QuotaOp i op amount) respondLookupError (\<lambda>u. Send 200 (One_user (toUserView u)))))"

section \<open>API keys\<close>

fun dec_time :: "(string \<Rightarrow> int option) \<Rightarrow> int decoder" where
  "dec_time time (DAtom (JStr s) _) old = (case time s of Some t \<Rightarrow> (t, True) | None \<Rightarrow> (old, False))"
| "dec_time time d old = (old, is_null d)"

definition dec_token :: "(string \<Rightarrow> int option) \<Rightarrow> token_input decoder" where
  "dec_token time = dec_record
     [(''name'', into ti_Name (\<lambda>v r. r\<lparr>ti_Name := v\<rparr>) opt_str),
      (''status'', into ti_Status (\<lambda>v r. r\<lparr>ti_Status := v\<rparr>) opt_str),
      (''quota'', into ti_Quota (\<lambda>v r. r\<lparr>ti_Quota := v\<rparr>) opt_int),
      (''expired_at'', into ti_ExpiredAt (\<lambda>v r. r\<lparr>ti_ExpiredAt := v\<rparr>) (dec_ptr 0 (dec_time time))),
      (''group'', into ti_Group (\<lambda>v r. r\<lparr>ti_Group := v\<rparr>) opt_str),
      (''allowed_models'', into ti_AllowedModels (\<lambda>v r. r\<lparr>ti_AllowedModels := v\<rparr>) opt_strs),
      (''output_format'', into ti_OutputFormat (\<lambda>v r. r\<lparr>ti_OutputFormat := v\<rparr>) opt_str)]"

definition zero_token :: token_input where
  "zero_token = \<lparr>ti_Name = None, ti_Status = None, ti_Quota = None, ti_ExpiredAt = None, ti_Group = None,
     ti_AllowedModels = None, ti_OutputFormat = None\<rparr>"

definition validOutputFormat :: "token_input \<Rightarrow> bool" where
  "validOutputFormat inp = (case ti_OutputFormat inp of None \<Rightarrow> True | Some f \<Rightarrow> ValidOutputFormat f)"

definition bad_output_format :: "reply" where
  "bad_output_format = Refuse 400 ''invalid_request''
     ''output_format must be one of: openai, anthropic, bedrock (or empty to follow the endpoint)''"

definition token_error :: "err \<Rightarrow> reply" where
  "token_error e =
     (case e of
        ErrTokenNotFound \<Rightarrow> Refuse 404 ''not_found'' ''token not found''
      | ErrInvalidToken m \<Rightarrow> Refuse 400 ''invalid_request'' (''invalid token input: '' @ m)
      | _ \<Rightarrow> internal ''could not process request'' e)"

definition TokenController_List :: "console_request \<Rightarrow> caller \<Rightarrow> handling" where
  "TokenController_List req who =
     (let target = (if snd who = RoleAdmin \<and> query req ''user_id'' \<noteq> [] then
           (case ParseUint (query req ''user_id'') of Some i \<Rightarrow> i | None \<Rightarrow> fst who) else fst who) in
      respond (TokenService_List target) (internal ''could not list tokens'') (\<lambda>ts. Send 200 (Token_list ts)))"

definition TokenController_Get :: "console_request \<Rightarrow> caller \<Rightarrow> handling" where
  "TokenController_Get req who =
     with_id ''token'' req (\<lambda>i. respond (TokenService_Get (fst who) i) token_error (\<lambda>t. Send 200 (One_token t)))"

definition TokenController_Create :: "console_env \<Rightarrow> console_request \<Rightarrow> caller \<Rightarrow> handling" where
  "TokenController_Create env req who =
     with_body (dec_token (cs_time env)) zero_token req (\<lambda>inp w.
       if \<not> validOutputFormat inp then (bad_output_format, w)
       else respond (TokenService_Create (fst who) inp (cs_key env)) token_error (\<lambda>(t, key). Send 201 (New_token t key)) w)"

definition TokenController_Update :: "console_env \<Rightarrow> console_request \<Rightarrow> caller \<Rightarrow> handling" where
  "TokenController_Update env req who =
     with_id ''token'' req (\<lambda>i.
     with_body (dec_token (cs_time env)) zero_token req (\<lambda>inp w.
       if \<not> validOutputFormat inp then (bad_output_format, w)
       else respond (TokenService_Update (fst who) i inp) token_error (\<lambda>t. Send 200 (One_token t)) w))"

definition TokenController_Delete :: "console_request \<Rightarrow> caller \<Rightarrow> handling" where
  "TokenController_Delete req who =
     with_id ''token'' req (\<lambda>i. respond (TokenService_Delete (fst who) i) token_error (\<lambda>_. Send 200 Deleted))"

end
