(* ===== verification/Test_Chat.thy ===== *)
theory Test_Chat
  imports Gateway Console
begin

text \<open>
  The administrators' test chat (\<open>relay/testchat.go\<close>): one request to one chosen channel, without
  routing and without quota, answered in the OpenAI dialect and logged as a test.  The environment
  is the relay's; its clients are asked for attempt 0.
\<close>

section \<open>The request\<close>

definition writeTestChatError :: "int \<Rightarrow> string \<Rightarrow> string \<Rightarrow> client_event list" where
  "writeTestChatError status errType m =
     [SendJSON status (JObj [(''error'', JObj [(''message'', JStr m), (''type'', JStr errType)])])]"

definition invalid_test :: "string \<Rightarrow> relay_event list" where
  "invalid_test m = to_client (writeTestChatError 400 ''invalid_request_error'' m)"

text \<open>The number wraps around at \<open>2 ^ 64\<close>.\<close>

definition parseTestChannelID :: "string \<Rightarrow> nat option" where
  "parseTestChannelID raw = (if all_digits raw then Some (undec raw mod 2 ^ 64) else None)"

text \<open>The request has some of the members of an OpenAI one.\<close>

definition dec_test_chat :: "codec \<Rightarrow> openai_inbound decoder" where
  "dec_test_chat co = dec_record
     [(''model'', into oi_Model (\<lambda>v r. r\<lparr>oi_Model := v\<rparr>) dec_str),
      (''messages'', into oi_Messages (\<lambda>v r. r\<lparr>oi_Messages := v\<rparr>)
         (dec_list zero_openai_inbound_message dec_openai_inbound_message)),
      (''stream'', into oi_Stream (\<lambda>v r. r\<lparr>oi_Stream := v\<rparr>) dec_bool),
      (''max_tokens'', into oi_MaxTokens (\<lambda>v r. r\<lparr>oi_MaxTokens := v\<rparr>) (dec_ptr 0 dec_gint)),
      (''temperature'', into oi_Temperature (\<lambda>v r. r\<lparr>oi_Temperature := v\<rparr>) (dec_ptr ''0'' (dec_float (co_float co)))),
      (''top_p'', into oi_TopP (\<lambda>v r. r\<lparr>oi_TopP := v\<rparr>) (dec_ptr ''0'' (dec_float (co_float co))))]"

definition decodeChannelModels :: "json option \<Rightarrow> string list" where
  "decodeChannelModels raw =
     (case raw of None \<Rightarrow> [] | Some j \<Rightarrow> (case strict_strings j of None \<Rightarrow> [] | Some ms \<Rightarrow> ms))"

definition required_model :: "string \<Rightarrow> string" where
  "required_model why = ''field '' @ [CHR 0x22] @ ''model'' @ [CHR 0x22] @ '' is required: '' @ why"

text \<open>The resolved model and a warning, or an error.\<close>

definition resolveTestModel :: "string \<Rightarrow> string list \<Rightarrow> string + string \<times> string" where
  "resolveTestModel requested channelModels =
     (let requested = trim_space requested in
      if requested = [] then
        (case channelModels of
           [m] \<Rightarrow> Inr (m, [])
         | [] \<Rightarrow> Inl (required_model ''channel has no models listed (run fetch-models or specify a model)'')
         | _ \<Rightarrow> Inl (required_model ''channel lists multiple models, specify one''))
      else
        Inr (requested,
          if channelModels \<noteq> [] \<and> \<not> list_ex (\<lambda>m. m = requested) channelModels then
            ''model '' @ [CHR 0x22] @ requested @ [CHR 0x22] @ '' is not in this channel's listed models; sending anyway''
          else []))"

definition buildTestUnifiedRequest :: "openai_inbound \<Rightarrow> string \<Rightarrow> unified_request" where
  "buildTestUnifiedRequest req resolvedModel = ParseOpenAIRequest (req\<lparr>oi_Model := resolvedModel\<rparr>)"

section \<open>The log row\<close>

record test_outcome =
  tco_Status :: string
  tco_HTTPStatus :: int
  tco_ErrMsg :: string
  tco_Usage :: usage

definition test_failed :: "int \<Rightarrow> string \<Rightarrow> test_outcome" where
  "test_failed status m = \<lparr>tco_Status = LogError, tco_HTTPStatus = status, tco_ErrMsg = m, tco_Usage = empty_usage\<rparr>"

definition test_log_row :: "nat \<Rightarrow> channel \<Rightarrow> unified_request \<Rightarrow> model_price option \<Rightarrow> test_outcome \<Rightarrow> request_log" where
  "test_log_row uid ch uni price st =
     (let billed = price \<noteq> None \<and> tco_Status st = LogSuccess; u = tco_Usage st in
      \<lparr>log_UserID = uid, log_TokenID = None, log_ChannelID = ch_ID ch, log_RuleID = None,
       log_Model = ur_Model uni, log_UpstreamModel = ur_Model uni, log_InboundFormat = InboundOpenAI,
       log_PromptTokens = us_Prompt u, log_CompletionTokens = us_Completion u, log_TotalTokens = us_Total u,
       log_CacheReadTokens = (if billed then Some (us_CacheRead u) else None),
       log_CacheWriteTokens = (if billed then Some (us_CacheWrite u) else None),
       log_CostMicroUSD = (if billed then Some (Cost price (u\<lparr>us_Total := 0\<rparr>)) else None),
       log_Status = tco_Status st, log_HTTPStatus = tco_HTTPStatus st, log_ErrorMessage = tco_ErrMsg st,
       log_IsStream = ur_Stream uni, log_IsTest = True,
       log_RequestBody = None, log_ResponseBody = None, log_ProbeInfo = None\<rparr>)"

definition writeTestLog :: "request_log \<Rightarrow> unit db" where
  "writeTestLog row = seqM (tryM (write_log row)) (retM ())"

section \<open>Serving\<close>

text \<open>What the client gets for a provider's error, and what the row says: the same.\<close>

definition upstream_failure :: "upstream_error \<Rightarrow> client_event list \<times> test_outcome" where
  "upstream_failure ue =
     (let status = clamp_status (ue_StatusCode ue); m = (if ue_Message ue = [] then upstream_Error ue else ue_Message ue) in
      (writeTestChatError status ''upstream_error'' m, test_failed status m))"

definition test_succeeded :: "usage \<Rightarrow> test_outcome" where
  "test_succeeded u = \<lparr>tco_Status = LogSuccess, tco_HTTPStatus = 200, tco_ErrMsg = [], tco_Usage = u\<rparr>"

definition build_failed :: "string \<Rightarrow> client_event list \<times> test_outcome" where
  "build_failed e =
     (let m = ''could not build upstream request: '' @ e in
      (writeTestChatError 400 ''invalid_request_error'' m, test_failed 400 m))"

definition request_failed :: "string \<Rightarrow> client_event list \<times> test_outcome" where
  "request_failed e =
     (let m = ''upstream request failed: '' @ e in
      (writeTestChatError 502 ''upstream_error'' m, test_failed 502 m))"

type_synonym served = "relay_event list \<times> test_outcome"

definition after_call :: "channel \<Rightarrow> unified_request \<Rightarrow> client_event list \<times> test_outcome \<Rightarrow> served" where
  "after_call ch uni r = (CallUpstream (ch_ID ch) (ur_Model uni) # to_client (fst r), snd r)"

definition test_serveNonStream ::
    "'req relay_env \<Rightarrow> string \<Rightarrow> channel \<Rightarrow> unified_request \<Rightarrow> string \<Rightarrow> served" where
  "test_serveNonStream env ad ch uni warning =
     (case env_BuildRequest env ad uni ch of
        Inl e \<Rightarrow> (to_client (fst (build_failed e)), snd (build_failed e))
      | Inr req \<Rightarrow> after_call ch uni
          (case env_httpDo env 0 req of
             Inl e \<Rightarrow> request_failed e
           | Inr resp \<Rightarrow>
               (case ParseResponse ad (env_jerr env) resp of
                  Inl ue \<Rightarrow> upstream_failure ue
                | Inr (uniResp, usage) \<Rightarrow>
                    (let body = put ''created'' (JInt (env_now env)) (put ''id'' (JStr (''chatcmpl-'' @ env_newid env))
                           (BuildOpenAIResponse (uniResp\<lparr>resp_Model := ur_Model uni\<rparr>)));
                         body = (if warning \<noteq> [] then put ''warning'' (JStr warning) body else body)
                     in (gin_JSON 200 (JObj body), test_succeeded usage)))))"

text \<open>The pump: \<open>process\<close> of \<open>pumpOpenAIStream\<close>, run by the same loop as the production pump.\<close>

definition test_process :: "string \<Rightarrow> parsed \<Rightarrow> pump \<Rightarrow> pump" where
  "test_process model parsed p =
     (case parsed of
        None \<Rightarrow> p
      | Some (ck, meaningful) \<Rightarrow>
          (case sc_UpstreamErr ck of
             Some ue \<Rightarrow> p\<lparr>pm_Fatal := Some (UpstreamFatal ue)\<rparr>
           | None \<Rightarrow>
               (let usage = (case sc_Usage ck of None \<Rightarrow> pm_Usage p | Some u \<Rightarrow> Some (mergeStreamUsage (pm_Usage p) u));
                    ck' = (if sc_Usage ck = None then ck else ck\<lparr>sc_Usage := usage\<rparr>);
                    p' = p\<lparr>pm_Usage := usage, pm_Completion := pm_Completion p @ sc_Delta ck,
                           pm_FirstToken := pm_FirstToken p \<or> sc_Delta ck \<noteq> []\<rparr> in
                if \<not> meaningful \<and> \<not> sc_Done ck then p'
                else (case BuildOpenAIStreamChunk model ck' of None \<Rightarrow> p' | Some obj \<Rightarrow> emit (SSEJson obj) p'))))"

definition pumpOpenAIStream :: "string \<Rightarrow> string \<Rightarrow> stream_response \<Rightarrow> pump" where
  "pumpOpenAIStream adapter model rsp =
     (let (evs, err) = upstreamEvents adapter (sr_End rsp) (hr_Body (sr_Response rsp)) in
      stream_loop (\<lambda>ev. test_process model (ParseStreamChunk adapter (ev_Type ev) (ev_Payload ev)))
        (sr_Gone rsp) evs err pump_init)"

definition writeSSEComment :: "string \<Rightarrow> string" where
  "writeSSEComment t = '': '' @ t @ newline @ newline"

definition setSSEHeaders :: "client_event list" where
  "setSSEHeaders =
     [SetHeader ''Content-Type'' ''text/event-stream'', SetHeader ''Cache-Control'' ''no-cache'',
      SetHeader ''Connection'' ''keep-alive'', SetHeader ''X-Accel-Buffering'' ''no'', SendStatus 200]"

definition stream_outcome :: "'req relay_env \<Rightarrow> pump \<Rightarrow> test_outcome" where
  "stream_outcome env p =
     (let comp = estimateTextTokens (pm_Completion p);
          usage = (case pm_Usage p of
             Some u \<Rightarrow> u
           | None \<Rightarrow> if pm_Completion p \<noteq> [] then empty_usage\<lparr>us_Completion := comp, us_Total := comp\<rparr> else empty_usage);
          (status, httpStatus, errMsg) = stream_status env p
      in \<lparr>tco_Status = status, tco_HTTPStatus = httpStatus, tco_ErrMsg = errMsg, tco_Usage = usage\<rparr>)"

definition test_serveStream ::
    "'req relay_env \<Rightarrow> string \<Rightarrow> channel \<Rightarrow> unified_request \<Rightarrow> string \<Rightarrow> served" where
  "test_serveStream env ad ch uni warning =
     (case env_BuildRequest env ad (uni\<lparr>ur_Stream := True\<rparr>) ch of
        Inl e \<Rightarrow> (to_client (fst (build_failed e)), snd (build_failed e))
      | Inr req \<Rightarrow> after_call ch uni
          (case env_streamDo env 0 req of
             Inl e \<Rightarrow> request_failed e
           | Inr rsp \<Rightarrow>
               if \<not> ok_status (hr_StatusCode (sr_Response rsp)) then
                 (let m = trim_space (read_limited maxErrorBody (hr_Body (sr_Response rsp))) in
                  upstream_failure \<lparr>ue_Provider = ad, ue_StatusCode = hr_StatusCode (sr_Response rsp),
                    ue_Message = (if m = [] then hr_Status (sr_Response rsp) else m), ue_Body = []\<rparr>)
               else
                 (let p = pumpOpenAIStream ad (ur_Model uni) rsp in
                  (setSSEHeaders
                     @ (if warning \<noteq> [] then [SendFrame (writeSSEComment (''warning: '' @ warning))] else [])
                     @ map (\<lambda>f. SendFrame (render_frame f)) (pm_Out p) @ [SendFrame (writeSSERaw ''[DONE]'')],
                   stream_outcome env p))))"

definition priced :: "'req relay_env \<Rightarrow> nat \<Rightarrow> string \<Rightarrow> channel \<Rightarrow> unified_request \<Rightarrow> string \<Rightarrow> handler" where
  "priced env uid ad ch uni warning w =
     (case Lookup (ch_ID ch) (ur_Model uni) w of
        (Inl e, w1) \<Rightarrow>
          (let m = ''could not look up model price: '' @ env_errText env e in
           finishing (to_client (writeTestChatError 500 ''internal_error'' m))
             (writeTestLog (test_log_row uid ch uni None (test_failed 500 m))) w1)
      | (Inr price, w1) \<Rightarrow>
          (let (evs, st) = (if ur_Stream uni then test_serveStream else test_serveNonStream) env ad ch uni warning in
           finishing evs (writeTestLog (test_log_row uid ch uni price st)) w1))"

definition TestChat :: "codec \<Rightarrow> 'req relay_env \<Rightarrow> console_request \<Rightarrow> nat \<Rightarrow> handler" where
  "TestChat co env req uid w =
     (case parseTestChannelID (cq_ID req) of
        None \<Rightarrow> (invalid_test ''invalid channel id'', w)
      | Some i \<Rightarrow>
          (case bind_json (dec_test_chat co) zero_openai_inbound req of
             None \<Rightarrow> (invalid_test (''invalid request body: '' @ env_jerr env (cq_Body req)), w)
           | Some inb \<Rightarrow>
               if oi_Messages inb = [] then
                 (invalid_test (''field '' @ [CHR 0x22] @ ''messages'' @ [CHR 0x22] @ '' is required and must be non-empty''), w)
               else
                 (case channel_getRaw i w of
                    (Inl e, w1) \<Rightarrow>
                      (to_client (if e = ErrChannelNotFound
                         then writeTestChatError 404 ''invalid_request_error'' ''channel not found''
                         else writeTestChatError 500 ''internal_error'' ''could not load channel''), w1)
                  | (Inr ch, w1) \<Rightarrow>
                      (case For ch of
                         None \<Rightarrow> (invalid_test (''unsupported channel type '' @ [CHR 0x22] @ ch_Type ch @ [CHR 0x22]), w1)
                       | Some ad \<Rightarrow>
                           (case resolveTestModel (oi_Model inb) (decodeChannelModels (ch_Models ch)) of
                              Inl e \<Rightarrow> (invalid_test e, w1)
                            | Inr (model, warning) \<Rightarrow>
                                priced env uid ad ch (buildTestUnifiedRequest inb model) warning w1)))))"

section \<open>What a test may do\<close>

lemma newest_world: "same_data w v \<Longrightarrow> \<exists>fs. v = w\<lparr>w_faults := fs\<rparr>"
  by (auto simp: same_data_def)

lemma writeTestLog_step:
  "\<exists>logs fs. snd (writeTestLog row w) = w\<lparr>w_logs := w_logs w @ logs, w_faults := fs\<rparr> \<and> (logs = [] \<or> logs = [row])"
proof -
  obtain r w' where l: "write_log row w = (r, w')" by fastforce
  have "snd (writeTestLog row w) = w'" using l by (simp add: writeTestLog_def seqM_def tryM_def bindM_def retM_def)
  with write_log_step [OF l] show ?thesis by blast
qed

lemma response_shape_test [simp]: "response_shape (writeTestChatError status t m)"
  by (simp add: writeTestChatError_def)

lemma response_shape_failures [simp]:
  "response_shape (fst (upstream_failure ue))" "response_shape (fst (build_failed e))" "response_shape (fst (request_failed e))"
  by (simp_all add: upstream_failure_def build_failed_def request_failed_def Let_def)

lemma response_shape_gin [simp]: "response_shape (gin_JSON 200 body)"
proof -
  have "response_shape (SendStatus 200 # map SendFrame [])"
    unfolding response_shape_def by (intro exI [of _ "[]"]) simp_all
  then show ?thesis by (simp add: gin_JSON_def)
qed

lemma response_shape_sse:
  "response_shape (setSSEHeaders @ map SendFrame frames)"
  unfolding response_shape_def setSSEHeaders_def
  by (intro exI [of _ "[SetHeader ''Content-Type'' ''text/event-stream'', SetHeader ''Cache-Control'' ''no-cache'',
      SetHeader ''Connection'' ''keep-alive'', SetHeader ''X-Accel-Buffering'' ''no'']"]) auto

definition one_answer :: "channel \<Rightarrow> unified_request \<Rightarrow> relay_event list \<Rightarrow> bool" where
  "one_answer ch uni evs \<longleftrightarrow> (\<exists>cs resp. evs = calls cs @ to_client resp \<and> (cs = [] \<or> cs = [(ch_ID ch, ur_Model uni)])
     \<and> response_shape resp)"

lemma one_answer_none: "response_shape resp \<Longrightarrow> one_answer ch uni (to_client resp)"
  unfolding one_answer_def by (intro exI [of _ "[]"] exI [of _ resp]) simp

lemma one_answer_call: "response_shape (fst r) \<Longrightarrow> one_answer ch uni (fst (after_call ch uni r))"
  unfolding one_answer_def after_call_def
  by (intro exI [of _ "[(ch_ID ch, ur_Model uni)]"] exI [of _ "fst r"]) simp

lemma test_serveNonStream_answer: "one_answer ch uni (fst (test_serveNonStream env ad ch uni warning))"
  unfolding test_serveNonStream_def
  by (auto simp: Let_def split: sum.split prod.split intro!: one_answer_none one_answer_call)

lemma test_serveStream_answer: "one_answer ch uni (fst (test_serveStream env ad ch uni warning))"
proof -
  have "response_shape (setSSEHeaders @ (if warning \<noteq> [] then [SendFrame (writeSSEComment (''warning: '' @ warning))] else [])
      @ map (\<lambda>f. SendFrame (render_frame f)) fs @ [SendFrame x])" for fs x
    using response_shape_sse [of "(if warning \<noteq> [] then [writeSSEComment (''warning: '' @ warning)] else [])
      @ map render_frame fs @ [x]"] by (simp add: comp_def split: if_splits)
  then show ?thesis
    unfolding test_serveStream_def
    by (auto simp: Let_def split: sum.split intro!: one_answer_none one_answer_call)
qed

definition test_done :: "nat \<Rightarrow> world \<Rightarrow> relay_event list \<Rightarrow> world \<Rightarrow> bool" where
  "test_done uid w evs w' \<longleftrightarrow>
     (\<exists>cs resp logs fs. evs = calls cs @ to_client resp \<and> length cs \<le> 1 \<and> response_shape resp
        \<and> list_all (\<lambda>(i, _). list_ex (\<lambda>ch. ch_ID ch = i) (w_channels w)) cs
        \<and> w' = w\<lparr>w_logs := w_logs w @ logs, w_faults := fs\<rparr> \<and> length logs \<le> 1
        \<and> list_all (\<lambda>l. log_IsTest l \<and> log_TokenID l = None \<and> log_UserID l = uid) logs)"

lemma test_done_early:
  assumes "same_data w v" "response_shape resp"
  shows "test_done uid w (to_client resp) v"
proof -
  obtain fs where v: "v = w\<lparr>w_faults := fs\<rparr>" using newest_world [OF assms(1)] by blast
  show ?thesis
    unfolding test_done_def
    by (rule exI [of _ "[]"], rule exI [of _ resp], rule exI [of _ "[]"], rule exI [of _ fs]) (simp add: v assms(2))
qed

lemma test_done_logged:
  assumes "same_data w v" "one_answer ch uni evs" "ch \<in> set (w_channels w)"
  shows "case finishing evs (writeTestLog (test_log_row uid ch uni price st)) v of (evs', w') \<Rightarrow> test_done uid w evs' w'"
proof -
  let ?row = "test_log_row uid ch uni price st"
  obtain gs where v: "v = w\<lparr>w_faults := gs\<rparr>" using newest_world [OF assms(1)] by blast
  obtain logs fs where w': "snd (writeTestLog ?row v) = v\<lparr>w_logs := w_logs v @ logs, w_faults := fs\<rparr>" "logs = [] \<or> logs = [?row]"
    using writeTestLog_step by blast
  have row: "log_IsTest ?row" "log_TokenID ?row = None" "log_UserID ?row = uid"
    by (simp_all add: test_log_row_def Let_def)
  obtain cs resp where evs: "evs = calls cs @ to_client resp" "cs = [] \<or> cs = [(ch_ID ch, ur_Model uni)]" "response_shape resp"
    using assms(2) unfolding one_answer_def by blast
  have "snd (writeTestLog ?row v) = w\<lparr>w_logs := w_logs w @ logs, w_faults := fs\<rparr>" using w'(1) v by simp
  moreover have "list_all (\<lambda>l. log_IsTest l \<and> log_TokenID l = None \<and> log_UserID l = uid) logs" "length logs \<le> 1"
    using w'(2) row by auto
  moreover have "length cs \<le> 1" "list_all (\<lambda>(i, _). list_ex (\<lambda>ch. ch_ID ch = i) (w_channels w)) cs"
    using evs(2) assms(3) by (auto simp: list_ex_iff)
  ultimately show ?thesis
    unfolding finishing_def prod.case test_done_def using evs(1,3) by blast
qed

lemma priced_done:
  assumes "same_data w v" "ch \<in> set (w_channels w)"
  shows "case priced env uid ad ch uni warning v of (evs, w') \<Rightarrow> test_done uid w evs w'"
proof -
  obtain r u where l: "Lookup (ch_ID ch) (ur_Model uni) v = (r, u)" by fastforce
  have u: "same_data w u" using assms(1) Lookup_data [OF l] by (rule same_data_trans)
  show ?thesis
  proof (cases r)
    case (Inl e)
    then show ?thesis
      using l test_done_logged [OF u one_answer_none assms(2)] by (simp add: priced_def Let_def)
  next
    case (Inr price)
    obtain evs st where s: "(if ur_Stream uni then test_serveStream else test_serveNonStream) env ad ch uni warning = (evs, st)"
      by fastforce
    have "one_answer ch uni evs"
      using test_serveStream_answer [of ch uni env ad warning] test_serveNonStream_answer [of ch uni env ad warning] s
      by (simp split: if_splits)
    from test_done_logged [OF u this assms(2)] show ?thesis using l Inr s by (simp add: priced_def)
  qed
qed


section \<open>The two pumps agree\<close>

definition same_output :: "pump \<Rightarrow> pump \<Rightarrow> bool" where
  "same_output p q \<longleftrightarrow> pm_Out p = pm_Out q \<and> pm_Usage p = pm_Usage q \<and> pm_Completion p = pm_Completion q \<and> pm_Fatal p = pm_Fatal q"

lemma test_process_agrees:
  "same_output p q \<Longrightarrow> same_output (test_process model r p) (process OutOpenAI newid model r q)"
proof (cases r)
  case (Some cm)
  assume s: "same_output p q"
  obtain ck m where "cm = (ck, m)" by fastforce
  with Some s show ?thesis
    by (cases "sc_Usage ck")
      (auto simp: test_process_def process_def record_chunk_def emitChunk_def emit_def same_output_def Let_def format_defs
        split: option.split)
qed (simp add: test_process_def process_def)

lemma stream_loop_agrees:
  assumes "\<And>ev p q. same_output p q \<Longrightarrow> same_output (step ev p) (step' ev q)"
  shows "same_output p q \<Longrightarrow> same_output (stream_loop step gone evs err p) (stream_loop step' gone evs err q)"
proof (induction evs arbitrary: gone p q)
  case Nil
  then show ?case by (auto simp: same_output_def readTerminalErr_def split: option.split)
next
  case (Cons ev evs)
  have f: "pm_Fatal p = pm_Fatal q" using Cons.prems by (simp add: same_output_def)
  show ?case
  proof (cases "pm_Fatal q \<noteq> None \<or> gone = Some 0")
    case True
    then show ?thesis using Cons.prems f by simp
  next
    case False
    then show ?thesis using Cons.IH [OF assms [OF Cons.prems]] f by simp
  qed
qed

text \<open>
  C40. The test chat's pump is the production pump for OpenAI output: on the same answer of the same
  provider both end in the same state, and the production pump writes the same frames and then
  \<open>[DONE]\<close>, as the test chat does.
\<close>

theorem test_pump_agrees:
  "let p = pumpOpenAIStream adapter model rsp;
       q = pumpStream adapter OutOpenAI newid model (sr_Gone rsp) (sr_End rsp) (hr_Body (sr_Response rsp)) in
   pm_Out q = pm_Out p @ [SSEData ''[DONE]''] \<and> pm_Usage q = pm_Usage p
   \<and> pm_Completion q = pm_Completion p \<and> pm_Fatal q = pm_Fatal p"
proof -
  obtain evs err where ue: "upstreamEvents adapter (sr_End rsp) (hr_Body (sr_Response rsp)) = (evs, err)" by fastforce
  let ?parse = "\<lambda>ev. ParseStreamChunk adapter (ev_Type ev) (ev_Payload ev)"
  let ?p = "stream_loop (\<lambda>ev. test_process model (?parse ev)) (sr_Gone rsp) evs err pump_init"
  let ?q = "stream_loop (\<lambda>ev. process OutOpenAI newid model (?parse ev)) (sr_Gone rsp) evs err pump_init"
  have "same_output pump_init pump_init" by (simp add: same_output_def)
  then have "same_output ?p ?q" by (intro stream_loop_agrees test_process_agrees)
  then show ?thesis
    by (simp add: pumpOpenAIStream_def pumpStream_def ue terminal_framing_def emit_def same_output_def format_defs Let_def)
qed

end
