(* ===== verification/Spec2Isabelle.thy ===== *)
theory Spec2Isabelle
  imports Expr Router Quota Unified Pricing Tokens Format Auth Relay_Correct Users Rules Upstream Channels Gateway Logs Console Test_Chat
begin

text \<open>
  Verification development of the routing server under \<open>src/server/internal\<close>.
\<close>

end
